(* ===== verification/Prelude.thy ===== *)
theory Prelude
  imports Main "HOL-Library.Multiset" "HOL-Library.Sublist" "HOL-Library.Char_ord"
    "HOL-Library.List_Lexorder"
begin

section \<open>Shared vocabulary: C++ strings, decimal numbers, list lemmas\<close>

text \<open>
  What several components of the toolkit use of the C++ standard library, as functions on
  \<open>string\<close> (a list of bytes): prefix tests (\<open>s.rfind(p, 0) == 0\<close>), searches for a
  character (\<open>s.find(c) != npos\<close>), \<open>std::to_string\<close> of integers, and the list lemmas
  the state-machine proofs share. The collection \<open>text_simps\<close> holds the rewrite rules on
  strings.
\<close>

named_theorems text_simps

subsection \<open>Prefixes and searches\<close>

text \<open>\<open>s.rfind(p, 0) == 0\<close>: the text starts with \<open>p\<close>.\<close>

definition starts_with :: "string \<Rightarrow> string \<Rightarrow> bool" where
  "starts_with p s \<longleftrightarrow> take (length p) s = p"

lemma starts_with_prefix: "starts_with p s \<longleftrightarrow> prefix p s"
  unfolding starts_with_def by (metis append_eq_conv_conj prefix_def take_is_prefix)

lemma starts_with_append [text_simps]: "starts_with p (p @ s)"
  by (simp add: starts_with_def)

lemma starts_with_obtain:
  assumes "starts_with p s"
  obtains r where "s = p @ r"
  using assms by (auto simp: starts_with_prefix prefix_def)

text \<open>\<open>s.find(c) != std::string::npos\<close> for a character.\<close>

definition has_char :: "char \<Rightarrow> string \<Rightarrow> bool" where
  "has_char c s \<longleftrightarrow> c \<in> set s"

text \<open>\<open>s.find(pat) != std::string::npos\<close> for a text: \<open>pat\<close> starts at some position.\<close>

fun contains :: "string \<Rightarrow> string \<Rightarrow> bool" where
  "contains pat [] \<longleftrightarrow> pat = []"
| "contains pat (c # s) \<longleftrightarrow> starts_with pat (c # s) \<or> contains pat s"

lemma contains_sublist: "contains pat s \<longleftrightarrow> sublist pat s"
  by (induction s) (auto simp: starts_with_prefix sublist_Cons_right)

subsection \<open>Decimal rendering: \<open>std::to_string\<close>\<close>

definition digit_char :: "nat \<Rightarrow> char" where
  "digit_char d = char_of (48 + d)"

fun show_nat :: "nat \<Rightarrow> string" where
  "show_nat n = (if n < 10 then [digit_char n] else show_nat (n div 10) @ [digit_char (n mod 10)])"

declare show_nat.simps [simp del]

definition show_int :: "int \<Rightarrow> string" where
  "show_int i = (if i < 0 then CHR ''-'' # show_nat (nat (- i)) else show_nat (nat i))"

text \<open>Reading decimal digits back: the value of a digit string, and the round trip.\<close>

definition digit_val :: "char \<Rightarrow> nat" where
  "digit_val c = of_char c - 48"

definition read_nat :: "string \<Rightarrow> nat" where
  "read_nat s = foldl (\<lambda>v c. 10 * v + digit_val c) 0 s"

lemma of_char_digit: "d < 10 \<Longrightarrow> (of_char (digit_char d) :: nat) = 48 + d"
  by (simp add: digit_char_def)

lemma digit_val_digit_char [simp]: "d < 10 \<Longrightarrow> digit_val (digit_char d) = d"
  by (simp add: digit_val_def of_char_digit)

lemma read_show_nat [simp]: "read_nat (show_nat n) = n"
proof (induction n rule: show_nat.induct)
  case (1 n)
  then show ?case
    by (cases "n < 10") (auto simp: show_nat.simps [of n] read_nat_def)
qed

lemma show_nat_inject [simp]: "show_nat m = show_nat n \<longleftrightarrow> m = n"
  by (metis read_show_nat)

lemma show_nat_nonempty [simp]: "show_nat n \<noteq> []"
  by (subst show_nat.simps) simp

lemma digit_char_inject: "d < 10 \<Longrightarrow> e < 10 \<Longrightarrow> digit_char d = digit_char e \<Longrightarrow> d = e"
  by (metis digit_val_digit_char)

lemma digit_char_bounds: "d < 10 \<Longrightarrow> (48 :: nat) \<le> of_char (digit_char d) \<and> of_char (digit_char d) \<le> (57 :: nat)"
  by (simp add: of_char_digit)

lemma show_nat_digits: "c \<in> set (show_nat n) \<Longrightarrow> (48 :: nat) \<le> of_char c \<and> of_char c \<le> (57 :: nat)"
proof (induction n rule: show_nat.induct)
  case (1 n)
  then show ?case
    by (cases "n < 10") (auto simp: show_nat.simps [of n] dest: digit_char_bounds [THEN conjunct1]
        digit_char_bounds [THEN conjunct2] intro: digit_char_bounds [THEN conjunct1] digit_char_bounds [THEN conjunct2])
qed

subsection \<open>Lists updated at an index\<close>

lemma filter_length_update:
  assumes "i < length xs" "P (xs ! i)" "\<not> P y"
  shows "Suc (length (filter P (xs[i := y]))) = length (filter P xs)"
  using assms
proof (induction xs arbitrary: i)
  case Nil
  then show ?case by simp
next
  case (Cons x xs)
  then show ?case by (cases i) (auto split: if_splits)
qed

lemma filter_length_update_same:
  assumes "i < length xs" "P (xs ! i) = P y"
  shows "length (filter P (xs[i := y])) = length (filter P xs)"
  using assms
proof (induction xs arbitrary: i)
  case Nil
  then show ?case by simp
next
  case (Cons x xs)
  then show ?case by (cases i) auto
qed

lemma filter_length_change:
  assumes "i < length xs"
  shows "length (filter P (xs[i := x])) + (if P (xs ! i) then 1 else 0) = length (filter P xs) + (if P x then 1 else 0)"
  using assms
proof (induction xs arbitrary: i)
  case (Cons y ys)
  show ?case
  proof (cases i)
    case (Suc j)
    then show ?thesis using Cons.IH [of j] Cons.prems by (auto split: if_splits)
  qed simp
qed simp

lemma filter_length_mono:
  "(\<And>x. P x \<Longrightarrow> Q x) \<Longrightarrow> length (filter P xs) \<le> length (filter Q xs)"
  by (induction xs) (auto intro: le_SucI)

lemma map_upt_nth: "map (\<lambda>i. f (xs ! i)) [0..<length xs] = map f xs"
  by (rule nth_equalityI) auto

lemma sum_list_complement: "sum_list (map (\<lambda>e. if P e then 0 else 1) es) + length (filter P es) = length es"
  by (induction es) auto

lemma sum_list_gain: "sum_list (map (\<lambda>e. if P e then k else 0) es) = k * length (filter P es)" for k :: nat
  by (induction es) auto

lemma sum_list_map_update:
  fixes f :: "'a \<Rightarrow> nat"
  assumes "i < length xs"
  shows "sum_list (map f (xs[i := y])) + f (xs ! i) = sum_list (map f xs) + f y"
  using assms
proof (induction xs arbitrary: i)
  case Nil
  then show ?case by simp
next
  case (Cons x xs)
  then show ?case by (cases i) (auto simp: add.assoc)
qed

lemma find_upt_Some:
  "List.find P [0..<n] = Some t \<Longrightarrow> t < n \<and> P t"
  by (auto simp: find_Some_iff)

lemma find_upt_None:
  "List.find P [0..<n] = None \<longleftrightarrow> (\<forall>t < n. \<not> P t)"
  by (auto simp: find_None_iff)

lemma list_ex_upt: "list_ex P [0..<n] \<longleftrightarrow> (\<exists>a < n. P a)"
  by (auto simp: list_ex_iff)

subsection \<open>Splitting text\<close>

fun split_on :: "char \<Rightarrow> string \<Rightarrow> string list" where
  "split_on c [] = [[]]"
| "split_on c (x # xs) =
     (if x = c then [] # split_on c xs
      else case split_on c xs of [] \<Rightarrow> [[x]] | w # ws \<Rightarrow> (x # w) # ws)"

lemma split_on_nonempty [simp]: "split_on c xs \<noteq> []"
  by (induction c xs rule: split_on.induct) (auto split: list.splits)

lemma split_on_append: "split_on c (xs @ c # ys) = split_on c xs @ split_on c ys"
  by (induction c xs rule: split_on.induct) (auto split: list.splits)

text \<open>The lines that repeated \<open>std::getline\<close> reads.\<close>

definition getlines :: "string \<Rightarrow> string list" where
  "getlines t = (let ws = split_on (CHR 0x0A) t in if last ws = [] then butlast ws else ws)"

definition nl :: string where
  "nl = [CHR 0x0A]"

text \<open>A text in single quotes.\<close>

definition sq :: "string \<Rightarrow> string" where
  "sq s = CHR 0x27 # s @ [CHR 0x27]"

subsection \<open>Character classes of the C locale\<close>

definition c_space :: "char \<Rightarrow> bool" where
  "c_space c \<longleftrightarrow> c = CHR '' '' \<or> (0x09 \<le> (of_char c :: nat) \<and> of_char c \<le> (0x0D :: nat))"

definition c_digit :: "char \<Rightarrow> bool" where
  "c_digit c \<longleftrightarrow> 48 \<le> (of_char c :: nat) \<and> of_char c \<le> (57 :: nat)"

text \<open>\<open>std::istringstream >> token\<close>, repeated: the words between blanks.\<close>

fun words_from :: "string \<Rightarrow> string \<Rightarrow> string list" where
  "words_from w [] = (if w = [] then [] else [w])"
| "words_from w (c # cs) =
     (if c_space c then (if w = [] then words_from [] cs else w # words_from [] cs)
      else words_from (w @ [c]) cs)"

definition split_ws :: "string \<Rightarrow> string list" where
  "split_ws s = words_from [] s"

text \<open>\<open>std::istringstream >> number\<close> for a 64-bit \<open>long\<close>: it fails without digits and out of range.\<close>

definition read_digits :: "string \<Rightarrow> nat option" where
  "read_digits s = (case takeWhile c_digit s of [] \<Rightarrow> None | ds \<Rightarrow> Some (read_nat ds))"

definition read_long :: "string \<Rightarrow> int option" where
  "read_long s =
     (let t = dropWhile c_space s;
          v = (if t \<noteq> [] \<and> hd t = CHR ''-'' then map_option (\<lambda>n. - int n) (read_digits (tl t))
               else if t \<noteq> [] \<and> hd t = CHR ''+'' then map_option int (read_digits (tl t))
               else map_option int (read_digits t))
      in case v of None \<Rightarrow> None | Some i \<Rightarrow> if - (2 ^ 63) \<le> i \<and> i < 2 ^ 63 then Some i else None)"

lemma split_on_line: "c \<notin> set l \<Longrightarrow> split_on c l = [l]"
  by (induction l) auto

lemma getlines_line: "CHR 0x0A \<notin> set l \<Longrightarrow> getlines (l @ nl @ t) = l # getlines t"
  by (simp add: getlines_def nl_def Let_def split_on_append split_on_line)

lemma getlines_lines:
  "list_all (\<lambda>l. CHR 0x0A \<notin> set l) ls \<Longrightarrow> getlines (concat (map (\<lambda>l. l @ nl) ls) @ t) = ls @ getlines t"
  by (induction ls) (auto simp: getlines_line)

lemma show_nat_c_digit: "list_all c_digit (show_nat n)"
  using show_nat_digits [of _ n] by (auto simp: list_all_iff c_digit_def)

lemma c_digit_not_space: "c_digit c \<Longrightarrow> \<not> c_space c"
  by (auto simp: c_digit_def c_space_def)

lemma takeWhile_digits:
  assumes "rest = [] \<or> \<not> c_digit (hd rest)"
  shows "takeWhile c_digit (show_nat n @ rest) = show_nat n"
proof -
  have "takeWhile c_digit (ds @ rest) = ds" if "list_all c_digit ds" for ds
    using that assms by (induction ds) (cases rest, auto)
  then show ?thesis using show_nat_c_digit by blast
qed

text \<open>A printed number is read back, whatever blanks precede it and whatever follows but digits.\<close>

lemma read_long_show_nat:
  assumes "list_all c_space pad" "rest = [] \<or> \<not> c_digit (hd rest)" "int n < 2 ^ 63"
  shows "read_long (pad @ show_nat n @ rest) = Some (int n)"
proof -
  obtain d ds where ds: "show_nat n = d # ds" using show_nat_nonempty by (cases "show_nat n") auto
  have d: "c_digit d" using show_nat_c_digit [of n] by (simp add: ds)
  then have "dropWhile c_space (pad @ show_nat n @ rest) = show_nat n @ rest"
    using assms(1) c_digit_not_space by (simp add: dropWhile_append2 list_all_iff ds)
  moreover have "d \<noteq> CHR ''-''" "d \<noteq> CHR ''+''" using d by (auto simp: c_digit_def)
  moreover have "read_digits (show_nat n @ rest) = Some n"
    using takeWhile_digits [OF assms(2), of n] read_show_nat [of n] by (simp add: read_digits_def ds)
  ultimately show ?thesis using assms(3) by (simp add: read_long_def Let_def ds)
qed

subsection \<open>Errors as values\<close>

definition and_then :: "'e + 'a \<Rightarrow> ('a \<Rightarrow> 'e + 'b) \<Rightarrow> 'e + 'b" where
  "and_then r f = (case r of Inl e \<Rightarrow> Inl e | Inr x \<Rightarrow> f x)"

lemma and_then_simps [simp]:
  "and_then (Inl e) f = Inl e"
  "and_then (Inr x) f = f x"
  by (simp_all add: and_then_def)

lemma and_then_Inr: "and_then r f = Inr y \<longleftrightarrow> (\<exists>x. r = Inr x \<and> f x = Inr y)"
  by (cases r) auto

lemma and_then_Inl: "and_then r f = Inl e \<longleftrightarrow> r = Inl e \<or> (\<exists>x. r = Inr x \<and> f x = Inl e)"
  by (cases r) auto

end
