(* ===== verification/Escaping.thy ===== *)
theory Escaping
  imports Prelude
begin

section \<open>Escaping text, character by character\<close>

text \<open>
  The reports escape untrusted text for XML and JSON one character at a time. The interface: every
  character is written as a non-empty string of safe characters from which a reader takes exactly one
  character back, up to a normalisation that replaces what the format cannot express. The client
  lemmas, proved once, are that the escaped text is safe and that reading it gives the normalised text back.
\<close>

fun decode_n :: "(string \<Rightarrow> (char \<times> string) option) \<Rightarrow> nat \<Rightarrow> string \<Rightarrow> string option" where
  "decode_n read1 n [] = Some []"
| "decode_n read1 0 (c # cs) = None"
| "decode_n read1 (Suc n) (c # cs) =
     (case read1 (c # cs) of
        None \<Rightarrow> None
      | Some (d, rest) \<Rightarrow> map_option (Cons d) (decode_n read1 n rest))"

text \<open>Every call of a reader takes at least one character, so the length is enough fuel.\<close>

definition decode :: "(string \<Rightarrow> (char \<times> string) option) \<Rightarrow> string \<Rightarrow> string option" where
  "decode read1 s = decode_n read1 (length s) s"

locale escaper =
  fixes esc :: "char \<Rightarrow> string"
    and read1 :: "string \<Rightarrow> (char \<times> string) option"
    and norm :: "char \<Rightarrow> char"
    and safe :: "char \<Rightarrow> bool"
  assumes esc_nonempty: "esc c \<noteq> []"
    and read_esc: "read1 (esc c @ rest) = Some (norm c, rest)"
    and esc_safe: "list_all safe (esc c)"
begin

lemma escaped_safe: "list_all safe (concat (map esc s))"
  using esc_safe by (induction s) auto

lemma escaped_length: "length s \<le> length (concat (map esc s))"
proof (induction s)
  case (Cons c s)
  have "1 \<le> length (esc c)" using esc_nonempty [of c] by (cases "esc c") auto
  with Cons show ?case by simp
qed simp

lemma decode_n_escaped: "length s \<le> n \<Longrightarrow> decode_n read1 n (concat (map esc s)) = Some (map norm s)"
proof (induction s arbitrary: n)
  case Nil
  then show ?case by simp
next
  case (Cons c s)
  then obtain m where n: "n = Suc m" "length s \<le> m" by (cases n) auto
  obtain d ds where e: "esc c @ concat (map esc s) = d # ds"
    using esc_nonempty [of c] by (cases "esc c") auto
  have "read1 (d # ds) = Some (norm c, concat (map esc s))"
    using read_esc [of c "concat (map esc s)"] by (simp add: e)
  then show ?case using Cons.IH [OF n(2)] by (simp add: n(1) e)
qed

lemma decode_escaped: "decode read1 (concat (map esc s)) = Some (map norm s)"
  unfolding decode_def by (rule decode_n_escaped [OF escaped_length])

text \<open>Where normalisation changes nothing, different texts are escaped differently.\<close>

lemma escaped_inject:
  "map norm s = s \<Longrightarrow> map norm t = t \<Longrightarrow> concat (map esc s) = concat (map esc t) \<Longrightarrow> s = t"
  by (metis decode_escaped option.inject)

end

subsection \<open>XML\<close>

text \<open>Reading one character of XML text or of an attribute value.\<close>

definition read_xml :: "string \<Rightarrow> (char \<times> string) option" where
  "read_xml s =
     (if s = [] then None
      else if hd s \<noteq> CHR ''&'' then Some (hd s, tl s)
      else if starts_with ''&amp;'' s then Some (CHR ''&'', drop 5 s)
      else if starts_with ''&lt;'' s then Some (CHR ''<'', drop 4 s)
      else if starts_with ''&gt;'' s then Some (CHR ''>'', drop 4 s)
      else if starts_with ''&quot;'' s then Some (CHR 0x22, drop 6 s)
      else if starts_with ''&apos;'' s then Some (CHR 0x27, drop 6 s)
      else None)"

text \<open>Characters that may stand in XML text and in a quoted attribute value without ending it.\<close>

definition xml_safe :: "char \<Rightarrow> bool" where
  "xml_safe c \<longleftrightarrow> c \<noteq> CHR ''<'' \<and> c \<noteq> CHR ''>'' \<and> c \<noteq> CHR 0x22 \<and> c \<noteq> CHR 0x27 \<and>
     (of_char c < (0x20 :: nat) \<longrightarrow> c = CHR 0x0A \<or> c = CHR 0x09 \<or> c = CHR 0x0D)"

end
