(* ===== verification/Ordered_Map.thy ===== *)
theory Ordered_Map
  imports Prelude
begin

section \<open>\<open>std::map\<close>: association lists sorted by key\<close>

text \<open>
  The components keep environments, agent stubs and test suites in \<open>std::map\<close>, whose iteration
  order is the order of the keys. The model is an association list that is strictly sorted by
  key: \<open>omap_put\<close> is \<open>m[k] = v\<close>, \<open>omap_get\<close> is \<open>m.find(k)\<close>. Byte strings are compared as
  unsigned characters, which is the order \<open>Char_ord\<close> and \<open>List_Lexorder\<close> give to \<open>string\<close>.
\<close>

type_synonym ('k, 'v) omap = "('k \<times> 'v) list"

definition omap_ok :: "('k::linorder, 'v) omap \<Rightarrow> bool" where
  "omap_ok m \<longleftrightarrow> sorted_wrt (<) (map fst m)"

fun omap_put :: "'k::linorder \<Rightarrow> 'v \<Rightarrow> ('k, 'v) omap \<Rightarrow> ('k, 'v) omap" where
  "omap_put k v [] = [(k, v)]"
| "omap_put k v ((k', v') # m) =
     (if k < k' then (k, v) # (k', v') # m
      else if k = k' then (k, v) # m
      else (k', v') # omap_put k v m)"

definition omap_get :: "('k::linorder, 'v) omap \<Rightarrow> 'k \<Rightarrow> 'v option" where
  "omap_get m k = map_of m k"

text \<open>\<open>for (auto& [k, v] : own) merged[k] = v;\<close>\<close>

definition omap_merge :: "('k::linorder, 'v) omap \<Rightarrow> ('k, 'v) omap \<Rightarrow> ('k, 'v) omap" where
  "omap_merge m own = fold (\<lambda>(k, v). omap_put k v) own m"

lemma omap_ok_Nil [simp]: "omap_ok []"
  by (simp add: omap_ok_def)

lemma omap_get_Nil [simp]: "omap_get [] = (\<lambda>_. None)"
  by (simp add: omap_get_def fun_eq_iff)

lemma omap_put_keys: "fst ` set (omap_put k v m) = insert k (fst ` set m)"
  by (induction k v m rule: omap_put.induct) auto

lemma omap_ok_put: "omap_ok m \<Longrightarrow> omap_ok (omap_put k v m)"
proof (induction k v m rule: omap_put.induct)
  case (2 k v k' v' m)
  have keys: "k' < a" if "\<forall>x \<in> set m. k' < fst x" "k' < k" "(a, b) \<in> set (omap_put k v m)" for a b
  proof -
    have "a \<in> fst ` set (omap_put k v m)" using that(3) by force
    with that(1,2) show ?thesis by (auto simp: omap_put_keys)
  qed
  from 2 show ?case
    by (auto simp: omap_ok_def dest: order.strict_trans intro: keys)
qed (simp add: omap_ok_def)

lemma omap_get_put: "omap_ok m \<Longrightarrow> omap_get (omap_put k v m) = (omap_get m)(k \<mapsto> v)"
proof (induction k v m rule: omap_put.induct)
  case (2 k v k' v' m)
  have "omap_ok m" using "2.prems" by (simp add: omap_ok_def)
  with 2 show ?case
    by (auto simp: omap_get_def fun_eq_iff)
qed (simp add: omap_get_def fun_eq_iff)

text \<open>The interface the clients rely on: what a lookup returns after an insertion.\<close>

locale ordered_map =
  fixes nil :: "'m" and put :: "'k \<Rightarrow> 'v \<Rightarrow> 'm \<Rightarrow> 'm" and get :: "'m \<Rightarrow> 'k \<Rightarrow> 'v option"
    and ok :: "'m \<Rightarrow> bool"
  assumes get_empty: "get nil = (\<lambda>_. None)"
    and get_put: "ok m \<Longrightarrow> get (put k v m) = (get m)(k \<mapsto> v)"
    and ok_empty: "ok nil"
    and ok_put: "ok m \<Longrightarrow> ok (put k v m)"
begin

lemma ok_fold: "ok m \<Longrightarrow> ok (fold (\<lambda>(k, v). put k v) kvs m)"
  by (induction kvs arbitrary: m) (auto intro: ok_put)

lemma get_fold:
  "ok m \<Longrightarrow> get (fold (\<lambda>(k, v). put k v) kvs m) = get m ++ map_of (rev kvs)"
proof (induction kvs arbitrary: m)
  case Nil
  then show ?case by simp
next
  case (Cons kv kvs)
  then show ?case
    by (cases kv) (auto simp: get_put ok_put map_add_def fun_eq_iff split: option.splits)
qed

end

interpretation om: ordered_map "[]" omap_put omap_get omap_ok
  by unfold_locales (auto simp: omap_get_put omap_ok_put)

lemma omap_ok_distinct: "omap_ok m \<Longrightarrow> distinct (map fst m)"
  by (simp add: omap_ok_def strict_sorted_iff)

lemma map_of_rev_omap: "omap_ok m \<Longrightarrow> map_of (rev m) = map_of m"
  by (intro map_of_inject_set [THEN iffD2]) (auto dest: omap_ok_distinct simp: rev_map [symmetric])

lemma omap_ok_merge: "omap_ok m \<Longrightarrow> omap_ok (omap_merge m own)"
  unfolding omap_merge_def by (rule om.ok_fold)

lemma omap_get_merge:
  "omap_ok m \<Longrightarrow> omap_ok own \<Longrightarrow> omap_get (omap_merge m own) = omap_get m ++ omap_get own"
  unfolding omap_merge_def
  by (simp add: om.get_fold map_of_rev_omap) (simp add: omap_get_def [abs_def])

lemma omap_put_last: "\<forall>x \<in> set m. fst x < k \<Longrightarrow> omap_put k v m = m @ [(k, v)]"
  by (induction k v m rule: omap_put.induct) auto

lemma omap_merge_Nil: "omap_ok m \<Longrightarrow> omap_merge [] m = m"
proof (induction m rule: rev_induct)
  case (snoc kv m)
  then have "omap_ok m" "\<forall>x \<in> set m. fst x < fst kv"
    by (auto simp: omap_ok_def sorted_wrt_append)
  with snoc show ?case by (cases kv) (simp add: omap_merge_def omap_put_last)
qed (simp add: omap_merge_def)

end
