(* ===== verification/Task_Labels.thy ===== *)
theory Task_Labels
  imports Ordered_Map
begin

section \<open>Tasks and label routing (dtest/jobs.hpp, labels_satisfy)\<close>

text \<open>
  The \<open>Task\<close> structure that the job parser produces and the scheduler consumes, and the
  routing predicate: an agent may run a task if its labels satisfy every requirement of the
  task, a requirement \<open>key=value\<close> exactly and a requirement \<open>key\<close> by any value.
\<close>

record task =
  task_name :: string
  argv :: "string list"
  task_env :: "(string, string) omap"
  timeout_s :: int
  retries :: int
  needs :: "string list"

definition default_task :: task where
  "default_task = \<lparr>task_name = [], argv = [], task_env = [], timeout_s = 60, retries = 0, needs = []\<rparr>"

definition label_matches :: "string \<Rightarrow> string \<Rightarrow> bool" where
  "label_matches req l =
     (if has_char (CHR ''='') req then l = req
      else l = req \<or> starts_with (req @ ''='') l)"

fun labels_satisfy :: "string list \<Rightarrow> string list \<Rightarrow> bool" where
  "labels_satisfy agent_labels [] = True"
| "labels_satisfy agent_labels (req # rest) =
     (if list_ex (label_matches req) agent_labels then labels_satisfy agent_labels rest else False)"

subsection \<open>What routing promises\<close>

text \<open>The key of a label: what stands before its first equals sign.\<close>

definition label_key :: "string \<Rightarrow> string" where
  "label_key l = takeWhile (\<lambda>c. c \<noteq> CHR ''='') l"

lemma labels_satisfy_iff:
  "labels_satisfy ls ns \<longleftrightarrow> (\<forall>req \<in> set ns. \<exists>l \<in> set ls. label_matches req l)"
  by (induction ns) (auto simp: list_ex_iff)

lemma label_key_append: "\<not> has_char (CHR ''='') k \<Longrightarrow> label_key (k @ CHR ''='' # r) = k"
  by (induction k) (auto simp: label_key_def has_char_def)

text \<open>A requirement without an equals sign is a requirement on the key alone.\<close>

lemma label_matches_key:
  assumes "\<not> has_char (CHR ''='') req"
  shows "label_matches req l \<longleftrightarrow> label_key l = req"
proof
  assume m: "label_matches req l"
  from m assms consider "l = req" | r where "l = (req @ ''='') @ r"
    by (auto simp: label_matches_def elim: starts_with_obtain)
  then show "label_key l = req"
  proof cases
    case 1
    then show ?thesis
      using assms by (auto simp: label_key_def has_char_def takeWhile_eq_all_conv)
  next
    case 2
    then show ?thesis
      using assms by (simp add: label_key_append)
  qed
next
  assume k: "label_key l = req"
  let ?rest = "dropWhile (\<lambda>c. c \<noteq> CHR ''='') l"
  have l: "l = req @ ?rest"
    using k by (metis label_key_def takeWhile_dropWhile_id)
  show "label_matches req l"
  proof (cases ?rest)
    case Nil
    have "l = req" using l unfolding Nil by simp
    with assms show ?thesis by (simp add: label_matches_def)
  next
    case (Cons c r)
    then have "c = CHR ''=''" using dropWhile_eq_Cons_conv [of _ l c r] by simp
    have "l = req @ [c] @ r" using l unfolding Cons by simp
    then have "l = (req @ ''='') @ r" using \<open>c = CHR ''=''\<close> by simp
    then have "starts_with (req @ ''='') l" unfolding starts_with_def by (metis append_eq_conv_conj)
    with assms show ?thesis by (simp add: label_matches_def)
  qed
qed

lemma labels_satisfy_mono:
  "set ls \<subseteq> set ls' \<Longrightarrow> labels_satisfy ls ns \<Longrightarrow> labels_satisfy ls' ns"
  unfolding labels_satisfy_iff by blast

end
