(* ===== verification/Transition_System.thy ===== *)
theory Transition_System
  imports Prelude
begin

section \<open>Labelled transition systems: runs, invariants, run-length bounds\<close>

text \<open>
  The contract every concurrent component of the toolkit shares: a start predicate, a labelled
  step relation, an invariant that the start states have and every step keeps, and, where the
  component terminates, a potential that every step spends from. Lemmas on whole runs are
  proved once, inside the two locales; each component interprets them on its own step relation.
\<close>

inductive run_of :: "('s \<Rightarrow> 'e \<Rightarrow> 's \<Rightarrow> bool) \<Rightarrow> 's \<Rightarrow> 'e list \<Rightarrow> 's \<Rightarrow> bool" for step where
  run_nil: "run_of step s [] s"
| run_cons: "step s e s' \<Longrightarrow> run_of step s' es s'' \<Longrightarrow> run_of step s (e # es) s''"

inductive_simps run_of_Nil [simp]: "run_of step s [] s'"
inductive_simps run_of_Cons: "run_of step s (e # es) s'"

lemma run_of_append:
  "run_of step s es s' \<Longrightarrow> run_of step s' fs s'' \<Longrightarrow> run_of step s (es @ fs) s''"
  by (induction rule: run_of.induct) (auto intro: run_of.intros)

lemma run_of_snoc: "run_of step s es s' \<Longrightarrow> step s' e s'' \<Longrightarrow> run_of step s (es @ [e]) s''"
  by (blast intro: run_of_append run_of.intros)

locale transition_system =
  fixes start :: "'s \<Rightarrow> bool"
    and step :: "'s \<Rightarrow> 'e \<Rightarrow> 's \<Rightarrow> bool"
    and inv :: "'s \<Rightarrow> bool"
  assumes inv_start: "start s \<Longrightarrow> inv s"
    and inv_step: "inv s \<Longrightarrow> step s e s' \<Longrightarrow> inv s'"
begin

lemma inv_run_from: "run_of step s es s' \<Longrightarrow> inv s \<Longrightarrow> inv s'"
  by (induction rule: run_of.induct) (blast intro: inv_step)+

lemma inv_reached: "start s \<Longrightarrow> run_of step s es s' \<Longrightarrow> inv s'"
  by (blast intro: inv_start inv_run_from)

end

text \<open>
  A potential \<open>mu\<close>: a step labelled \<open>e\<close> may earn \<open>gain e\<close> and always spends at least
  one unit, so a run is at most as long as the initial potential and what it earned.
\<close>

locale measured_system = transition_system start step inv
  for start :: "'s \<Rightarrow> bool" and step :: "'s \<Rightarrow> 'e \<Rightarrow> 's \<Rightarrow> bool" and inv :: "'s \<Rightarrow> bool" +
  fixes mu :: "'s \<Rightarrow> nat"
    and gain :: "'e \<Rightarrow> nat"
  assumes mu_step: "inv s \<Longrightarrow> step s e s' \<Longrightarrow> Suc (mu s') \<le> mu s + gain e"
begin

lemma run_potential:
  "run_of step s es s' \<Longrightarrow> inv s \<Longrightarrow> mu s' + length es \<le> mu s + sum_list (map gain es)"
proof (induction rule: run_of.induct)
  case (run_nil s)
  then show ?case by simp
next
  case (run_cons s e s' es s'')
  from run_cons.hyps(1) run_cons.prems have "inv s'" by (rule inv_step [rotated])
  with run_cons mu_step [OF run_cons.prems run_cons.hyps(1)] show ?case by force
qed

lemma run_length_bound:
  "start s \<Longrightarrow> run_of step s es s' \<Longrightarrow> length es \<le> mu s + sum_list (map gain es)"
  using run_potential inv_start by fastforce

end

text \<open>
  Refinement: the effect of every step on an abstract state is a function of its label. Then the effect of a run is
  the composition of these functions.
\<close>

locale simulation =
  fixes step :: "'s \<Rightarrow> 'e \<Rightarrow> 's \<Rightarrow> bool"
    and abs_step :: "'e \<Rightarrow> 'a \<Rightarrow> 'a"
    and rel :: "'s \<Rightarrow> 'a \<Rightarrow> bool"
  assumes sim_step: "rel s a \<Longrightarrow> step s e s' \<Longrightarrow> rel s' (abs_step e a)"
begin

lemma sim_run: "run_of step s es s' \<Longrightarrow> rel s a \<Longrightarrow> rel s' (fold abs_step es a)"
  by (induction arbitrary: a rule: run_of.induct) (auto dest: sim_step)

end

end
