(* ===== verification/Scheduler.thy ===== *)
theory Scheduler
  imports Task_Labels Transition_System
begin

section \<open>The dtest scheduler: data, operations and worker threads (scheduler.hpp, scheduler.cpp)\<close>

text \<open>
  \<open>Scheduler::run\<close> starts one worker thread per slot of every agent. All shared state is in
  \<open>Run\<close> and guarded by one mutex; a worker holds it from the moment it wakes up or returns from
  the executor until it waits on the condition variable, hands a task to the executor, or
  exits. Each such critical section is one step of the model, computed by a function; the
  executor's answer and the choice of the next thread are the labels of the step relation.
  Durations are C++ doubles that the scheduler only stores: they are a type parameter
  \<open>'d\<close>.
\<close>

subsection \<open>Data\<close>

record agent_info =
  address :: string
  hostname :: string
  slots :: nat
  labels :: "string list"

datatype attempt_status = APassed | AFailed | ATimedOut | AgentError

record 'd attempt_result =
  ar_status :: attempt_status
  ar_exit_code :: int
  ar_out :: string
  ar_err :: string
  ar_message :: string
  ar_seconds :: 'd

record 'd attempt_record =
  rec_agent :: string
  rec_result :: "'d attempt_result"

datatype final_status = FPassed | FFailed | FTimedOut | FUnschedulable

record 'd task_outcome =
  o_task :: task
  o_status :: final_status
  o_attempts :: "'d attempt_record list"
  o_message :: string

record 'd run_summary =
  outcomes :: "'d task_outcome list"
  dead_agents :: "string list"
  wall_seconds :: 'd

text \<open>Both a failed and a timed-out attempt count as failures of the test.\<close>

definition is_failure :: "attempt_status \<Rightarrow> bool" where
  "is_failure s \<longleftrightarrow> s = AFailed \<or> s = ATimedOut"

definition flaky :: "'d task_outcome \<Rightarrow> bool" where
  "flaky out =
     (if o_status out \<noteq> FPassed then False
      else list_ex (\<lambda>a. is_failure (ar_status (rec_result a))) (o_attempts out))"

definition count_status :: "'d run_summary \<Rightarrow> final_status \<Rightarrow> int" where
  "count_status rs s = foldl (\<lambda>n out. n + (if o_status out = s then 1 else 0)) 0 (outcomes rs)"

definition flaky_count :: "'d run_summary \<Rightarrow> int" where
  "flaky_count rs = foldl (\<lambda>n out. n + (if flaky out then 1 else 0)) 0 (outcomes rs)"

definition all_passed :: "'d run_summary \<Rightarrow> bool" where
  "all_passed rs \<longleftrightarrow> count_status rs FPassed = int (length (outcomes rs))"

definition show_final :: "final_status \<Rightarrow> string" where
  "show_final s =
     (case s of FPassed \<Rightarrow> ''passed'' | FFailed \<Rightarrow> ''failed'' | FTimedOut \<Rightarrow> ''timed-out''
      | FUnschedulable \<Rightarrow> ''unschedulable'')"

subsection \<open>The shared state of a run\<close>

record 'd task_state =
  ts_failures :: int
  ts_tried :: "nat set"
  ts_running :: bool
  ts_done :: bool
  ts_final :: final_status
  ts_message :: string
  ts_attempts :: "'d attempt_record list"

record 'd run_state =
  st :: "'d task_state list"
  alive :: "bool list"
  dead :: "string list"
  remaining :: int

record config =
  agents :: "agent_info list"
  tasks :: "task list"

text \<open>The constructor \<open>Scheduler::Scheduler\<close>: an agent with no slots gets one.\<close>

definition normalize_agents :: "agent_info list \<Rightarrow> agent_info list" where
  "normalize_agents as = map (\<lambda>a. if slots a = 0 then a\<lparr>slots := 1\<rparr> else a) as"

definition make_config :: "agent_info list \<Rightarrow> task list \<Rightarrow> config" where
  "make_config as ts = \<lparr>agents = normalize_agents as, tasks = ts\<rparr>"

definition initial_task_state :: "'d task_state" where
  "initial_task_state = \<lparr>ts_failures = 0, ts_tried = {}, ts_running = False, ts_done = False,
     ts_final = FUnschedulable, ts_message = [], ts_attempts = []\<rparr>"

definition initial_run :: "config \<Rightarrow> 'd run_state" where
  "initial_run cfg = \<lparr>st = replicate (length (tasks cfg)) initial_task_state,
     alive = replicate (length (agents cfg)) True, dead = [],
     remaining = int (length (tasks cfg))\<rparr>"

definition upd_task :: "nat \<Rightarrow> ('d task_state \<Rightarrow> 'd task_state) \<Rightarrow> 'd run_state \<Rightarrow> 'd run_state" where
  "upd_task t f s = s\<lparr>st := (st s)[t := f (st s ! t)]\<rparr>"

subsection \<open>The operations of \<open>Run\<close>\<close>

definition able :: "config \<Rightarrow> nat \<Rightarrow> nat \<Rightarrow> bool" where
  "able cfg a t = labels_satisfy (labels (agents cfg ! a)) (needs (tasks cfg ! t))"

definition has_fresh_candidate :: "config \<Rightarrow> 'd run_state \<Rightarrow> nat \<Rightarrow> nat \<Rightarrow> bool" where
  "has_fresh_candidate cfg s t except_agent =
     list_ex (\<lambda>a. a \<noteq> except_agent \<and> alive s ! a \<and> able cfg a t \<and> a \<notin> ts_tried (st s ! t))
       [0..<length (agents cfg)]"

definition may_pick :: "config \<Rightarrow> 'd run_state \<Rightarrow> nat \<Rightarrow> nat \<Rightarrow> bool" where
  "may_pick cfg s a t =
     (if ts_done (st s ! t) \<or> ts_running (st s ! t) \<or> \<not> able cfg a t then False
      else if a \<in> ts_tried (st s ! t) \<and> has_fresh_candidate cfg s t a then False
      else True)"

definition pick :: "config \<Rightarrow> 'd run_state \<Rightarrow> nat \<Rightarrow> nat option" where
  "pick cfg s a = List.find (may_pick cfg s a) [0..<length (tasks cfg)]"

definition finish :: "nat \<Rightarrow> final_status \<Rightarrow> string \<Rightarrow> 'd run_state \<Rightarrow> 'd run_state" where
  "finish t f msg s =
     (upd_task t (\<lambda>x. x\<lparr>ts_done := True, ts_final := f, ts_message := msg\<rparr>) s)
       \<lparr>remaining := remaining s - 1\<rparr>"

definition join_needs :: "string list \<Rightarrow> string" where
  "join_needs rs = foldl (\<lambda>req r. req @ (if req = [] then [] else '', '') @ r) [] rs"

definition unschedulable_message :: "bool \<Rightarrow> string list \<Rightarrow> string" where
  "unschedulable_message any_capable rs =
     (if any_capable then ''every agent that could run this task became unreachable''
      else ''no agent provides the required labels'' @
        (if join_needs rs = [] then [] else '' ['' @ join_needs rs @ '']''))"

definition resolve_one :: "config \<Rightarrow> nat \<Rightarrow> 'd run_state \<Rightarrow> 'd run_state" where
  "resolve_one cfg t s =
     (if ts_done (st s ! t) \<or> ts_running (st s ! t) then s
      else
        let any_capable = list_ex (\<lambda>a. able cfg a t) [0..<length (agents cfg)];
            any_live_capable = list_ex (\<lambda>a. able cfg a t \<and> alive s ! a) [0..<length (agents cfg)]
        in if any_live_capable then s
           else finish t FUnschedulable (unschedulable_message any_capable (needs (tasks cfg ! t))) s)"

definition resolve_unschedulable :: "config \<Rightarrow> 'd run_state \<Rightarrow> 'd run_state" where
  "resolve_unschedulable cfg s = fold (resolve_one cfg) [0..<length (tasks cfg)] s"

text \<open>The critical section after the executor has returned, up to \<open>cv_.notify_all()\<close>.\<close>

definition record_attempt :: "config \<Rightarrow> nat \<Rightarrow> 'd attempt_result \<Rightarrow> 'd task_state \<Rightarrow> 'd task_state" where
  "record_attempt cfg a res x =
     x\<lparr>ts_running := False, ts_tried := insert a (ts_tried x),
       ts_attempts := ts_attempts x @ [\<lparr>rec_agent = address (agents cfg ! a), rec_result = res\<rparr>]\<rparr>"

definition retire :: "config \<Rightarrow> nat \<Rightarrow> 'd run_state \<Rightarrow> 'd run_state" where
  "retire cfg a s =
     (if alive s ! a
      then resolve_unschedulable cfg
             (s\<lparr>alive := (alive s)[a := False], dead := dead s @ [address (agents cfg ! a)]\<rparr>)
      else s)"

definition complete :: "config \<Rightarrow> nat \<Rightarrow> nat \<Rightarrow> 'd attempt_result \<Rightarrow> 'd run_state \<Rightarrow> 'd run_state" where
  "complete cfg a t res s =
     (let s1 = upd_task t (record_attempt cfg a res) s in
      case ar_status res of
        APassed \<Rightarrow> finish t FPassed [] s1
      | AgentError \<Rightarrow> retire cfg a s1
      | _ \<Rightarrow>
          let s2 = upd_task t (\<lambda>x. x\<lparr>ts_failures := ts_failures x + 1\<rparr>) s1 in
          if ts_failures (st s2 ! t) > retries (tasks cfg ! t)
          then finish t (if ar_status res = ATimedOut then FTimedOut else FFailed) [] s2
          else s2)"

subsection \<open>Worker threads\<close>

text \<open>
  \<open>Ready\<close>: started or woken, about to take the mutex. \<open>Waiting\<close>: inside \<open>cv_.wait\<close>.
  \<open>Busy t\<close>: inside \<open>exec_.run\<close> for task \<open>t\<close>, without the mutex. \<open>Exited\<close>: returned.
\<close>

datatype pc = Ready | Waiting | Busy nat | Exited

definition is_busy :: "pc \<Rightarrow> bool" where
  "is_busy p = (case p of Busy t \<Rightarrow> True | _ \<Rightarrow> False)"

type_synonym thread = "nat \<times> pc"

record 'd sys =
  shared :: "'d run_state"
  threads :: "thread list"

definition notify_all :: "thread list \<Rightarrow> thread list" where
  "notify_all ths = map (\<lambda>(a, p). (a, if p = Waiting then Ready else p)) ths"

text \<open>One pass through the head of the loop in \<open>worker\<close>, up to where the mutex is released.\<close>

definition loop_head :: "config \<Rightarrow> nat \<Rightarrow> 'd run_state \<Rightarrow> 'd run_state \<times> pc" where
  "loop_head cfg a s =
     (if remaining s > 0 \<and> alive s ! a
      then case pick cfg s a of
             None \<Rightarrow> (s, Waiting)
           | Some t \<Rightarrow> (upd_task t (\<lambda>x. x\<lparr>ts_running := True\<rparr>) s, Busy t)
      else (s, Exited))"

definition resume :: "config \<Rightarrow> nat \<Rightarrow> nat \<Rightarrow> 'd run_state \<Rightarrow> thread list \<Rightarrow> 'd sys" where
  "resume cfg w a s ths =
     (let (s', p) = loop_head cfg a s;
          ths' = ths[w := (a, p)]
      in \<lparr>shared = s', threads = (if p = Exited then notify_all ths' else ths')\<rparr>)"

definition spawn_threads :: "config \<Rightarrow> thread list" where
  "spawn_threads cfg =
     concat (map (\<lambda>a. replicate (slots (agents cfg ! a)) (a, Ready)) [0..<length (agents cfg)])"

definition initial_sys :: "config \<Rightarrow> 'd sys" where
  "initial_sys cfg = \<lparr>shared = resolve_unschedulable cfg (initial_run cfg), threads = spawn_threads cfg\<rparr>"

datatype 'd event =
    Enter nat
  | Complete nat "'d attempt_result"
  | Spurious nat

inductive sched_step :: "config \<Rightarrow> 'd sys \<Rightarrow> 'd event \<Rightarrow> 'd sys \<Rightarrow> bool" for cfg where
  enter: "w < length (threads c) \<Longrightarrow> threads c ! w = (a, Ready) \<Longrightarrow>
     sched_step cfg c (Enter w) (resume cfg w a (shared c) (threads c))"
| complete: "w < length (threads c) \<Longrightarrow> threads c ! w = (a, Busy t) \<Longrightarrow>
     sched_step cfg c (Complete w res)
       (resume cfg w a (complete cfg a t res (shared c)) (notify_all (threads c)))"
| spurious: "w < length (threads c) \<Longrightarrow> threads c ! w = (a, Waiting) \<Longrightarrow>
     sched_step cfg c (Spurious w) (c\<lparr>threads := (threads c)[w := (a, Ready)]\<rparr>)"

inductive_cases sched_stepE: "sched_step cfg c e c'"
inductive_simps sched_step_Enter: "sched_step cfg c (Enter w) c'"
inductive_simps sched_step_Complete: "sched_step cfg c (Complete w res) c'"
inductive_simps sched_step_Spurious: "sched_step cfg c (Spurious w) c'"

text \<open>The same step as a function of the label, to replay a concrete schedule.\<close>

fun sched_next :: "config \<Rightarrow> 'd sys \<Rightarrow> 'd event \<Rightarrow> 'd sys option" where
  "sched_next cfg c (Enter w) =
     (if w < length (threads c) then
        case threads c ! w of (a, p) \<Rightarrow>
          if p = Ready then Some (resume cfg w a (shared c) (threads c)) else None
      else None)"
| "sched_next cfg c (Complete w res) =
     (if w < length (threads c) then
        case threads c ! w of (a, p) \<Rightarrow>
          (case p of Busy t \<Rightarrow>
             Some (resume cfg w a (complete cfg a t res (shared c)) (notify_all (threads c)))
           | _ \<Rightarrow> None)
      else None)"
| "sched_next cfg c (Spurious w) =
     (if w < length (threads c) then
        case threads c ! w of (a, p) \<Rightarrow>
          if p = Waiting then Some (c\<lparr>threads := (threads c)[w := (a, Ready)]\<rparr>) else None
      else None)"

fun sched_replay :: "config \<Rightarrow> 'd sys \<Rightarrow> 'd event list \<Rightarrow> 'd sys option" where
  "sched_replay cfg c [] = Some c"
| "sched_replay cfg c (e # es) =
     (case sched_next cfg c e of None \<Rightarrow> None | Some c' \<Rightarrow> sched_replay cfg c' es)"

lemma sched_next_step: "sched_next cfg c e = Some c' \<longleftrightarrow> sched_step cfg c e c'"
  by (cases e) (auto simp: sched_step_Enter sched_step_Complete sched_step_Spurious
      split: prod.splits pc.splits if_splits)

lemma sched_replay_run: "sched_replay cfg c es = Some c' \<longleftrightarrow> run_of (sched_step cfg) c es c'"
proof (induction es arbitrary: c)
  case Nil
  then show ?case by auto
next
  case (Cons e es)
  then show ?case by (auto simp: run_of_Cons sched_next_step [symmetric] split: option.splits)
qed

text \<open>Every worker has returned: \<open>execute\<close> can join the threads and build the summary.\<close>

definition all_exited :: "'d sys \<Rightarrow> bool" where
  "all_exited c \<longleftrightarrow> list_all (\<lambda>th. snd th = Exited) (threads c)"

definition summarize :: "config \<Rightarrow> 'd \<Rightarrow> 'd run_state \<Rightarrow> 'd run_summary" where
  "summarize cfg secs s =
     \<lparr>outcomes = map (\<lambda>i. \<lparr>o_task = tasks cfg ! i, o_status = ts_final (st s ! i),
        o_attempts = ts_attempts (st s ! i), o_message = ts_message (st s ! i)\<rparr>)
        [0..<length (tasks cfg)],
      dead_agents = dead s, wall_seconds = secs\<rparr>"

text \<open>
  \<open>Scheduler::run\<close> along a schedule of its threads: it returns when they have all been joined. \<open>None\<close>: some of them
  have not returned, or the schedule is none of this run.
\<close>

definition scheduler_run :: "config \<Rightarrow> 'd event list \<Rightarrow> 'd \<Rightarrow> 'd run_summary option" where
  "scheduler_run cfg es secs =
     (case sched_replay cfg (initial_sys cfg) es of
        None \<Rightarrow> None
      | Some c \<Rightarrow> if all_exited c then Some (summarize cfg secs (shared c)) else None)"

lemma scheduler_run_Some:
  "scheduler_run cfg es secs = Some r \<longleftrightarrow>
     (\<exists>c. run_of (sched_step cfg) (initial_sys cfg) es c \<and> all_exited c \<and> r = summarize cfg secs (shared c))"
  by (auto simp: scheduler_run_def sched_replay_run [symmetric] split: option.splits)

end
