(* ===== verification/Report.thy ===== *)
theory Report
  imports Escaping Scheduler
begin

section \<open>Reports (dtest/report.cpp)\<close>

text \<open>
  The text and JUnit reports of a run. Durations are of the type parameter \<open>'d\<close>; how a double is printed
  with one or three decimals (\<open>std::fixed\<close>, \<open>std::setprecision\<close>) and added are arguments.
\<close>

definition xml_esc :: "char \<Rightarrow> string" where
  "xml_esc c =
     (if c = CHR ''&'' then ''&amp;''
      else if c = CHR ''<'' then ''&lt;''
      else if c = CHR ''>'' then ''&gt;''
      else if c = CHR 0x22 then ''&quot;''
      else if c = CHR 0x27 then ''&apos;''
      else if of_char c < (0x20 :: nat) \<and> c \<noteq> CHR 0x0A \<and> c \<noteq> CHR 0x09 \<and> c \<noteq> CHR 0x0D then ''?''
      else [c])"

definition xml_escape :: "string \<Rightarrow> string" where
  "xml_escape s = concat (map xml_esc s)"

text \<open>\<open>tail\<close>: strip the end, go back to the newline that starts the last \<open>max_lines\<close> lines, keep \<open>max_bytes\<close>.\<close>

definition strip_end :: "string \<Rightarrow> string" where
  "strip_end s = rev (dropWhile (\<lambda>c. c = CHR 0x0A \<or> c = CHR 0x0D) (rev s))"

fun tail_pos :: "string \<Rightarrow> nat \<Rightarrow> nat \<Rightarrow> nat \<Rightarrow> nat" where
  "tail_pos t max_lines seen 0 = 0"
| "tail_pos t max_lines seen (Suc p) =
     (if t ! p = CHR 0x0A
      then if Suc seen \<ge> max_lines then Suc p else tail_pos t max_lines (Suc seen) p
      else tail_pos t max_lines seen p)"

definition tail_of :: "string \<Rightarrow> nat \<Rightarrow> nat \<Rightarrow> string" where
  "tail_of s max_lines max_bytes =
     (let t = strip_end s;
          t1 = drop (tail_pos t max_lines 0 (length t)) t
      in if length t1 > max_bytes then drop (length t1 - max_bytes) t1 else t1)"

definition describe_last_attempt :: "'d task_outcome \<Rightarrow> string" where
  "describe_last_attempt out =
     (if o_attempts out = [] then o_message out
      else
        let r = rec_result (last (o_attempts out)) in
        (case ar_status r of
           APassed \<Rightarrow> ''passed''
         | AFailed \<Rightarrow> (if ar_exit_code r \<ge> 0 then ''exit code '' @ show_int (ar_exit_code r) else ''failed'')
         | ATimedOut \<Rightarrow> ''timed out''
         | AgentError \<Rightarrow> ''agent error'') @
        (if ar_message r \<noteq> [] then '' ('' @ ar_message r @ '')'' else []))"

definition last_agent :: "'d task_outcome \<Rightarrow> string" where
  "last_agent out = (if o_attempts out = [] then ''unscheduled'' else rec_agent (last (o_attempts out)))"

text \<open>\<open>attempts.back()\<close>, undefined on an outcome without attempts.\<close>

definition last_result :: "'d task_outcome \<Rightarrow> 'd attempt_result" where
  "last_result out = rec_result (last (o_attempts out))"

definition text_tag :: "'d task_outcome \<Rightarrow> string" where
  "text_tag out =
     (if o_status out = FPassed then (if flaky out then ''FLAKY'' else ''PASS'')
      else if o_status out = FTimedOut then ''TIMEOUT''
      else if o_status out = FUnschedulable then ''SKIPPED''
      else ''FAIL'')"

definition render_outcome :: "('d \<Rightarrow> string) \<Rightarrow> 'd task_outcome \<Rightarrow> string" where
  "render_outcome fmt out =
     ''['' @ text_tag out @ ''] '' @ task_name (o_task out) @
     (if o_status out = FUnschedulable then '' - '' @ o_message out @ nl
      else
        '' on '' @ last_agent out @ '' ('' @ fmt (ar_seconds (last_result out)) @ ''s'' @
        (if length (o_attempts out) > 1 then '', '' @ show_nat (length (o_attempts out)) @ '' attempts'' else []) @
        '')'' @
        (if o_status out \<noteq> FPassed then '' - '' @ describe_last_attempt out else []) @ nl @
        (if o_status out \<noteq> FPassed then
           let t = tail_of (if ar_err (last_result out) = [] then ar_out (last_result out)
                            else ar_err (last_result out)) 5 800
           in if t \<noteq> [] then concat (map (\<lambda>l. ''        | '' @ l @ nl) (getlines t)) else []
         else []))"

definition render_text :: "('d \<Rightarrow> string) \<Rightarrow> 'd run_summary \<Rightarrow> string" where
  "render_text fmt rs =
     concat (map (render_outcome fmt) (outcomes rs)) @
     nl @ show_nat (length (outcomes rs)) @ '' tasks: '' @ show_int (count_status rs FPassed) @ '' passed'' @
     (if flaky_count rs \<noteq> 0 then '' ('' @ show_int (flaky_count rs) @ '' flaky)'' else []) @
     '', '' @ show_int (count_status rs FFailed) @ '' failed, '' @ show_int (count_status rs FTimedOut) @
     '' timed out, '' @ show_int (count_status rs FUnschedulable) @ '' unschedulable in '' @ fmt (wall_seconds rs) @
     ''s'' @ nl @
     (if dead_agents rs \<noteq> []
      then ''agents retired after infrastructure errors:'' @ concat (map (\<lambda>a. '' '' @ a) (dead_agents rs)) @ nl
      else [])"

definition dq :: string where
  "dq = [CHR 0x22]"

definition attr :: "string \<Rightarrow> string \<Rightarrow> string" where
  "attr k v = k @ ''='' @ dq @ v @ dq"

definition total_seconds :: "('d \<Rightarrow> 'd \<Rightarrow> 'd) \<Rightarrow> 'd \<Rightarrow> 'd task_outcome \<Rightarrow> 'd" where
  "total_seconds add acc out = foldl (\<lambda>x a. add x (ar_seconds (rec_result a))) acc (o_attempts out)"

definition suite_counts :: "'d run_summary \<Rightarrow> string \<Rightarrow> string \<Rightarrow> string" where
  "suite_counts rs suite secs =
     attr ''name'' (xml_escape suite) @ '' '' @ attr ''tests'' (show_nat (length (outcomes rs))) @ '' '' @
     attr ''failures'' (show_int (count_status rs FFailed + count_status rs FTimedOut)) @ '' '' @
     attr ''skipped'' (show_int (count_status rs FUnschedulable)) @ '' '' @ attr ''time'' secs"

definition junit_case :: "('d \<Rightarrow> string) \<Rightarrow> ('d \<Rightarrow> 'd \<Rightarrow> 'd) \<Rightarrow> 'd \<Rightarrow> 'd task_outcome \<Rightarrow> string" where
  "junit_case fmt add zero out =
     ''    <testcase '' @ attr ''classname'' (xml_escape (last_agent out)) @ '' '' @
     attr ''name'' (xml_escape (task_name (o_task out))) @ '' '' @
     attr ''time'' (fmt (total_seconds add zero out)) @
     (if o_status out = FPassed \<and> \<not> flaky out then ''/>'' @ nl
      else
        ''>'' @ nl @
        (if o_status out = FUnschedulable
         then ''      <skipped '' @ attr ''message'' (xml_escape (o_message out)) @ ''/>'' @ nl
         else if o_status out \<noteq> FPassed
         then ''      <failure '' @ attr ''message'' (xml_escape (describe_last_attempt out)) @ ''>'' @
           xml_escape (tail_of (ar_err (last_result out)) 40 4000) @ ''</failure>'' @ nl
         else []) @
        (if flaky out
         then ''      <system-out>flaky: passed on attempt '' @ show_nat (length (o_attempts out)) @ '' of '' @
           show_nat (length (o_attempts out)) @ '' (earlier attempts failed)</system-out>'' @ nl
         else []) @
        ''    </testcase>'' @ nl)"

definition render_junit ::
  "('d \<Rightarrow> string) \<Rightarrow> ('d \<Rightarrow> 'd \<Rightarrow> 'd) \<Rightarrow> 'd \<Rightarrow> string \<Rightarrow> 'd run_summary \<Rightarrow> string" where
  "render_junit fmt add zero suite rs =
     (let secs = fmt (foldl (total_seconds add) zero (outcomes rs)) in
      ''<?xml '' @ attr ''version'' ''1.0'' @ '' '' @ attr ''encoding'' ''UTF-8'' @ ''?>'' @ nl @
      ''<testsuites '' @ suite_counts rs suite secs @ ''>'' @ nl @
      ''  <testsuite '' @ suite_counts rs suite secs @ ''>'' @ nl @
      concat (map (junit_case fmt add zero) (outcomes rs)) @
      ''  </testsuite>'' @ nl @ ''</testsuites>'' @ nl)"

subsection \<open>Escaping\<close>

definition xml_norm :: "char \<Rightarrow> char" where
  "xml_norm c =
     (if of_char c < (0x20 :: nat) \<and> c \<noteq> CHR 0x0A \<and> c \<noteq> CHR 0x09 \<and> c \<noteq> CHR 0x0D then CHR ''?'' else c)"

interpretation report_xml: escaper xml_esc read_xml xml_norm xml_safe
  by unfold_locales (auto simp: xml_esc_def read_xml_def xml_norm_def xml_safe_def starts_with_def)

text \<open>
  Escaped text is inert: it has no character that could end an XML attribute or open a tag and no
  control character that XML forbids, and an XML reader gets the text back, forbidden control characters
  replaced by question marks.
\<close>

theorem xml_escape_round_trip:
  "list_all xml_safe (xml_escape s) \<and> decode read_xml (xml_escape s) = Some (map xml_norm s)"
  unfolding xml_escape_def using report_xml.escaped_safe report_xml.decode_escaped by blast

subsection \<open>The tail of a stream\<close>

definition newlines :: "string \<Rightarrow> nat" where
  "newlines s = length (filter (\<lambda>c. c = CHR 0x0A) s)"

lemma newlines_append [simp]: "newlines (xs @ ys) = newlines xs + newlines ys"
  by (simp add: newlines_def)

lemma newlines_drop: "newlines (drop n xs) \<le> newlines xs"
  by (metis append_take_drop_id le_add2 newlines_append)

lemma tail_pos_bounds:
  assumes "p \<le> length t" "seen < max 1 m"
  shows "tail_pos t m seen p \<le> p \<and> seen + newlines (drop (tail_pos t m seen p) (take p t)) < max 1 m"
  using assms
proof (induction t m seen p rule: tail_pos.induct)
  case (1 t m seen)
  then show ?case by (simp add: newlines_def)
next
  case (2 t m seen p)
  have snoc: "drop q (take (Suc p) t) = drop q (take p t) @ [t ! p]" if "q \<le> p" for q
    using 2(3) that by (simp add: take_Suc_conv_app_nth)
  consider "t ! p = CHR 0x0A" "m \<le> Suc seen" | "t ! p = CHR 0x0A" "\<not> m \<le> Suc seen" | "t ! p \<noteq> CHR 0x0A"
    by blast
  then show ?case
  proof cases
    case 1
    then show ?thesis using 2(4) by (simp add: newlines_def)
  next
    case 2
    then show ?thesis using "2.IH"(1) "2.prems" snoc by (auto simp: newlines_def)
  next
    case 3
    then show ?thesis using "2.IH"(2) "2.prems" snoc by (auto simp: newlines_def)
  qed
qed

lemma tail_pos_all:
  assumes "p \<le> length t" "seen + newlines (take p t) < m"
  shows "tail_pos t m seen p = 0"
  using assms
proof (induction t m seen p rule: tail_pos.induct)
  case (2 t m seen p)
  have "newlines (take (Suc p) t) = newlines (take p t) + (if t ! p = CHR 0x0A then 1 else 0)"
    using "2.prems"(1) by (simp add: take_Suc_conv_app_nth newlines_def)
  then show ?case using "2.IH" "2.prems" by (auto split: if_splits)
qed simp

text \<open>
  The tail of a stream is a suffix of the stream without its trailing newlines, of at most
  \<open>max_bytes\<close> bytes and at most \<open>max_lines\<close> lines (one, if \<open>max_lines\<close> is 0), and it is the whole of it when
  that is short enough.
\<close>

theorem tail_of_window:
  "suffix (tail_of s m b) (strip_end s) \<and> length (tail_of s m b) \<le> b \<and> newlines (tail_of s m b) < max 1 m \<and>
   (length (strip_end s) \<le> b \<and> newlines (strip_end s) < m \<longrightarrow> tail_of s m b = strip_end s)"
proof -
  let ?t = "strip_end s"
  let ?p = "tail_pos ?t m 0 (length ?t)"
  have lines: "newlines (drop ?p ?t) < max 1 m" using tail_pos_bounds [of "length ?t" ?t 0 m] by simp
  define k where "k = length (drop ?p ?t) - b"
  have "tail_of s m b = drop k (drop ?p ?t)" by (simp add: tail_of_def Let_def k_def del: drop_drop)
  moreover have "length (drop k (drop ?p ?t)) \<le> b" by (simp add: k_def)
  moreover have "suffix (drop k (drop ?p ?t)) ?t" by (simp add: suffix_drop)
  moreover have "newlines (drop k (drop ?p ?t)) < max 1 m" using newlines_drop [of k "drop ?p ?t"] lines by simp
  moreover have "tail_of s m b = ?t" if "length ?t \<le> b" "newlines ?t < m"
    using tail_pos_all [of "length ?t" ?t 0 m] that by (simp add: tail_of_def Let_def)
  ultimately show ?thesis by metis
qed

theorem tail_of_window_witness: "tail_of (''ab'' @ nl @ ''cd'' @ nl) 5 80 = ''ab'' @ nl @ ''cd''"
proof -
  have "strip_end (''ab'' @ nl @ ''cd'' @ nl) = ''ab'' @ nl @ ''cd''" by code_simp
  then show ?thesis using tail_of_window [of "''ab'' @ nl @ ''cd'' @ nl" 5 80] by (simp add: newlines_def nl_def)
qed

end
