(* ===== verification/Policy.thy ===== *)
theory Policy
  imports Prelude
begin

section \<open>The agent's command policy (dtest/policy.cpp)\<close>

text \<open>
  An agent only runs programs of its allow list: an entry is a program, or a directory (it ends in a
  slash) whose programs are all allowed. Paths are canonicalised first. \<open>fs::weakly_canonical\<close> and
  \<open>lexically_normal\<close> are the C++ library's, and what they answer depends on the file system: they are the
  parameters \<open>weakly\<close> (\<open>None\<close> when it sets the error code) and \<open>normal\<close>.
\<close>

record policy =
  allow :: "string list"
  allow_any :: bool

definition canonical :: "(string \<Rightarrow> string option) \<Rightarrow> (string \<Rightarrow> string) \<Rightarrow> string \<Rightarrow> string" where
  "canonical weakly normal p = (case weakly p of Some c \<Rightarrow> c | None \<Rightarrow> normal p)"

text \<open>
  One round of the loop over the entries. \<open>allowed.back()\<close> of an empty string is undefined in C++;
  a canonical path is never empty, and the model reads it as no slash.
\<close>

definition dir_prefix :: "string \<Rightarrow> string" where
  "dir_prefix allowed = (if allowed \<noteq> [] \<and> last allowed = CHR ''/'' then allowed else allowed @ ''/'')"

definition entry_permits :: "(string \<Rightarrow> string) \<Rightarrow> string \<Rightarrow> string \<Rightarrow> bool" where
  "entry_permits canon target entry =
     (if entry = [] then False
      else
        let allowed = canon entry in
        if last entry = CHR ''/''
        then let pre = dir_prefix allowed in length target > length pre \<and> take (length pre) target = pre
        else target = allowed)"

definition check_command :: "(string \<Rightarrow> string) \<Rightarrow> policy \<Rightarrow> string \<Rightarrow> string" where
  "check_command canon policy argv0 =
     (if allow_any policy then []
      else if argv0 = [] \<or> hd argv0 \<noteq> CHR ''/''
      then ''command must be an absolute path (got '' @ CHR 0x27 # argv0 @ [CHR 0x27, CHR '')'']
      else if list_ex (entry_permits canon (canon argv0)) (allow policy) then []
      else ''command '' @ CHR 0x27 # argv0 @ CHR 0x27 # '' is not permitted by this agent'' @
        CHR 0x27 # ''s allow list'')"

subsection \<open>What a permission means\<close>

definition components :: "string \<Rightarrow> string list" where
  "components p = filter (\<lambda>w. w \<noteq> []) (split_on (CHR ''/'') p)"

definition absolute :: "string \<Rightarrow> bool" where
  "absolute p \<longleftrightarrow> p \<noteq> [] \<and> hd p = CHR ''/''"

lemma components_append: "components (a @ CHR ''/'' # b) = components a @ components b"
  by (simp add: components_def split_on_append)

lemma components_slash [simp]: "components (a @ ''/'') = components a"
  using components_append [of a "[]"] by (simp add: components_def)

lemma components_head: "x \<noteq> CHR ''/'' \<Longrightarrow> components (x # xs) \<noteq> []"
  by (auto simp: components_def split: list.splits)

lemma check_command_permits:
  "check_command canon pol argv0 = [] \<longleftrightarrow>
     allow_any pol \<or> absolute argv0 \<and> (\<exists>entry \<in> set (allow pol). entry_permits canon (canon argv0) entry)"
  by (auto simp: check_command_def absolute_def list_ex_iff)

lemma dir_prefix_shape:
  obtains d where "dir_prefix p = d @ ''/''" "components d = components p"
proof (cases "p \<noteq> [] \<and> last p = CHR ''/''")
  case True
  then have "p = butlast p @ ''/''" by (metis append_butlast_last_id)
  then have "components (butlast p) = components p" by (metis components_slash)
  then show thesis using that \<open>p = butlast p @ ''/''\<close> True by (simp add: dir_prefix_def)
next
  case False
  then show thesis using that [of p] by (simp add: dir_prefix_def)
qed

text \<open>A directory entry permits only what lies below the directory, by whole path components.\<close>

lemma permits_below:
  assumes "entry_permits canon target entry" "last entry = CHR ''/''" "\<not> contains ''//'' target"
  shows "\<exists>rest. rest \<noteq> [] \<and> components target = components (canon entry) @ rest"
proof -
  obtain d where d: "dir_prefix (canon entry) = d @ ''/''" "components d = components (canon entry)"
    by (rule dir_prefix_shape)
  obtain x xs where t: "target = (d @ ''/'') @ x # xs"
  proof -
    from assms(1,2) have "length target > length (d @ ''/'')" "take (length (d @ ''/'')) target = d @ ''/''"
      by (auto simp: entry_permits_def Let_def d(1) split: if_splits)
    then show thesis
      using that append_take_drop_id [of "length (d @ ''/'')" target]
      by (cases "drop (length (d @ ''/'')) target") auto
  qed
  have "x \<noteq> CHR ''/''"
  proof
    assume "x = CHR ''/''"
    then have "sublist ''//'' target" unfolding t by (auto simp: sublist_def)
    with assms(3) show False by (simp add: contains_sublist)
  qed
  then have "components (x # xs) \<noteq> []" by (rule components_head)
  then show ?thesis
    using components_append [of d "x # xs"] unfolding t d(2) by auto
qed

text \<open>
  Conversely: a path that starts with a slash and has no doubled slash is its components, a slash before
  each, and perhaps one slash after them.
\<close>

definition slashed :: "string list \<Rightarrow> string" where
  "slashed ws = concat (map (Cons (CHR ''/'')) ws)"

lemma slashed_append [simp]: "slashed (ws @ vs) = slashed ws @ slashed vs"
  by (simp add: slashed_def)

lemma slashed_simps [simp]: "slashed [] = []" "slashed (w # ws) = CHR ''/'' # w @ slashed ws"
  by (simp_all add: slashed_def)

lemma slashed_split_on: "slashed (split_on (CHR ''/'') q) = CHR ''/'' # q"
  by (induction "CHR ''/''" q rule: split_on.induct) (auto split: list.splits)

lemma components_cases:
  assumes "absolute p" "\<not> contains ''//'' p"
  obtains "p = slashed (components p)" | "p = slashed (components p) @ ''/''"
proof -
  obtain q where q: "p = CHR ''/'' # q" using assms(1) by (cases p) (auto simp: absolute_def)
  obtain vs l where vs: "split_on (CHR ''/'') q = vs @ [l]"
    using split_on_nonempty by (metis append_butlast_last_id)
  then have p: "p = slashed vs @ CHR ''/'' # l" using slashed_split_on [of q] by (simp add: q)
  have "[] \<notin> set vs"
  proof
    assume "[] \<in> set vs"
    then obtain us ws where "vs = us @ [] # ws" by (meson split_list)
    then have "sublist ''//'' p" unfolding p by (cases ws) (auto simp: sublist_def)
    with assms(2) show False by (simp add: contains_sublist)
  qed
  then have "filter (\<lambda>w. w \<noteq> []) vs = vs" by (auto simp: filter_id_conv)
  moreover have "components p = filter (\<lambda>w. w \<noteq> []) (vs @ [l])"
    by (simp add: components_def q vs)
  ultimately have "components p = (if l = [] then vs else vs @ [l])" by simp
  then show thesis using that p by (cases "l = []") auto
qed

lemma split_on_parts: "w \<in> set (split_on c q) \<Longrightarrow> c \<notin> set w"
  by (induction c q arbitrary: w rule: split_on.induct) (auto split: list.splits if_splits)

lemma components_parts: "w \<in> set (components p) \<Longrightarrow> w \<noteq> [] \<and> CHR ''/'' \<notin> set w"
  by (auto simp: components_def dest: split_on_parts)

lemma slashed_last:
  assumes "ws \<noteq> []" "\<forall>w \<in> set ws. w \<noteq> [] \<and> CHR ''/'' \<notin> set w"
  shows "last (slashed ws) \<noteq> CHR ''/''"
  using assms by (cases ws rule: rev_cases) (auto, metis last_in_set)

lemma dir_prefix_slashed:
  assumes "absolute p" "\<not> contains ''//'' p"
  shows "dir_prefix p = slashed (components p) @ ''/''"
  using assms
proof (cases rule: components_cases)
  case 1
  then have "components p \<noteq> []" using assms(1) by (auto simp: absolute_def)
  then have "last (slashed (components p)) \<noteq> CHR ''/''"
    by (rule slashed_last) (auto dest: components_parts)
  with 1 show ?thesis by (simp add: dir_prefix_def)
next
  case 2
  then show ?thesis by (metis dir_prefix_def last_snoc snoc_eq_iff_butlast)
qed

lemma below_permits:
  assumes "absolute p" "\<not> contains ''//'' p" "absolute t" "\<not> contains ''//'' t"
    and "components t = components p @ rest" "rest \<noteq> []"
  shows "length t > length (dir_prefix p) \<and> take (length (dir_prefix p)) t = dir_prefix p"
proof -
  obtain r rs where r: "rest = r # rs" using assms(6) by (cases rest) auto
  then have "r \<in> set (components t)" using assms(5) by simp
  then have "r \<noteq> []" using components_parts by blast
  moreover obtain e where "t = slashed (components t) @ e"
    using assms(3,4) by (cases rule: components_cases) auto
  then have "t = dir_prefix p @ r @ slashed rs @ e"
    unfolding dir_prefix_slashed [OF assms(1,2)] assms(5) r by simp
  ultimately show ?thesis by (metis append_eq_conv_conj append_is_Nil_conv length_append length_greater_0_conv less_add_same_cancel1)
qed

text \<open>
  What the C++ library documents of a canonical path: it is not empty, has no doubled slash, and that of
  an absolute path is absolute and free of dot-dot components.
\<close>

definition canonicalises :: "(string \<Rightarrow> string) \<Rightarrow> string \<Rightarrow> bool" where
  "canonicalises canon p \<longleftrightarrow> p = [] \<or> canon p \<noteq> [] \<and> \<not> contains ''//'' (canon p) \<and>
     (absolute p \<longrightarrow> absolute (canon p) \<and> ''..'' \<notin> set (components (canon p)))"

text \<open>What one entry of the allow list grants: a program itself, a directory all that is strictly below it.\<close>

definition grants :: "(string \<Rightarrow> string) \<Rightarrow> string \<Rightarrow> string \<Rightarrow> bool" where
  "grants canon entry target \<longleftrightarrow> entry \<noteq> [] \<and>
     (if last entry \<noteq> CHR ''/'' then target = canon entry
      else absolute (canon entry) \<and>
        (\<exists>rest. rest \<noteq> [] \<and> ''..'' \<notin> set rest \<and> components target = components (canon entry) @ rest))"

lemma entry_permits_grants:
  assumes "canonicalises canon entry" "absolute t" "\<not> contains ''//'' t" "''..'' \<notin> set (components t)"
  shows "entry_permits canon t entry \<longleftrightarrow> grants canon entry t"
proof (cases "entry = [] \<or> last entry \<noteq> CHR ''/''")
  case True
  then show ?thesis by (auto simp: entry_permits_def grants_def Let_def)
next
  case False
  then have e: "entry \<noteq> []" "last entry = CHR ''/''" by auto
  then have c: "canon entry \<noteq> []" "\<not> contains ''//'' (canon entry)"
    using assms(1) by (auto simp: canonicalises_def)
  show ?thesis
  proof
    assume p: "entry_permits canon t entry"
    then have pre: "take (length (dir_prefix (canon entry))) t = dir_prefix (canon entry)"
      using e by (auto simp: entry_permits_def Let_def)
    have "hd (dir_prefix (canon entry)) = hd t"
      using pre c(1) by (metis append_is_Nil_conv dir_prefix_def hd_append2 append_take_drop_id)
    then have "absolute (canon entry)"
      using assms(2) c(1) by (auto simp: absolute_def dir_prefix_def split: if_splits)
    moreover from permits_below [OF p e(2) assms(3)]
    obtain rest where "rest \<noteq> []" "components t = components (canon entry) @ rest" by blast
    ultimately show "grants canon entry t" using e assms(4) by (auto simp: grants_def)
  next
    assume "grants canon entry t"
    then obtain rest where "absolute (canon entry)" "rest \<noteq> []" "components t = components (canon entry) @ rest"
      using e by (auto simp: grants_def)
    from below_permits [OF this(1) c(2) assms(2,3) this(3,2)]
    show "entry_permits canon t entry" using e by (simp add: entry_permits_def Let_def)
  qed
qed

text \<open>
  Property C12. An agent runs exactly: any command under \<open>allow_any\<close>, and otherwise an absolute path
  whose canonical form is that of a program of the list (an entry without a final slash), or which lies
  strictly below a directory of the list: the directory's components are a proper prefix of its own, and
  no later component leads out of it. The directory itself is not a program. The hypothesis is what the
  C++ library documents of the canonical paths of the command and of the entries.
\<close>

theorem permitted_commands:
  assumes "\<forall>p \<in> insert argv0 (set (allow pol)). canonicalises (canonical weakly normal) p"
  shows "check_command (canonical weakly normal) pol argv0 = [] \<longleftrightarrow>
    allow_any pol \<or> absolute argv0 \<and>
      (\<exists>entry \<in> set (allow pol). grants (canonical weakly normal) entry (canonical weakly normal argv0))"
proof (cases "absolute argv0")
  case True
  then have "argv0 \<noteq> []" by (auto simp: absolute_def)
  with assms True have "absolute (canonical weakly normal argv0)"
    "\<not> contains ''//'' (canonical weakly normal argv0)"
    "''..'' \<notin> set (components (canonical weakly normal argv0))"
    by (auto simp: canonicalises_def)
  from entry_permits_grants [OF _ this] assms show ?thesis
    by (auto simp: check_command_permits)
qed (simp add: check_command_permits)

text \<open>A library that resolves one symbolic link out of the allowed directory.\<close>

definition demo_weakly :: "string \<Rightarrow> string option" where
  "demo_weakly p =
     (if p = ''/opt/t/link'' then Some ''/bin/sh''
      else if p = ''/opt/t/../../bin/sh'' then Some ''/bin/sh''
      else if p = ''/opt/t/'' then Some ''/opt/t''
      else Some p)"

definition demo_policy :: policy where
  "demo_policy = \<lparr>allow = [''/opt/t/'', ''/bin/true''], allow_any = False\<rparr>"

lemma demo_refused:
  "check_command (canonical demo_weakly id) demo_policy ''/opt/t/link'' \<noteq> []"
  "check_command (canonical demo_weakly id) demo_policy ''/opt/t/../../bin/sh'' \<noteq> []"
  "check_command (canonical demo_weakly id) demo_policy ''/opt/t2'' \<noteq> []"
  "check_command (canonical demo_weakly id) demo_policy ''/opt/t'' \<noteq> []"
  by code_simp+

theorem permitted_commands_witness:
  "grants (canonical demo_weakly id) ''/opt/t/'' ''/opt/t/a'' \<and>
     \<not> (\<exists>entry \<in> set (allow demo_policy). grants (canonical demo_weakly id) entry ''/opt/t'')"
proof -
  have a: "\<forall>p \<in> insert ''/opt/t/a'' (set (allow demo_policy)). canonicalises (canonical demo_weakly id) p"
    "\<forall>p \<in> insert ''/opt/t/'' (set (allow demo_policy)). canonicalises (canonical demo_weakly id) p"
    by code_simp+
  have v: "check_command (canonical demo_weakly id) demo_policy ''/opt/t/a'' = []"
    "check_command (canonical demo_weakly id) demo_policy ''/opt/t/'' \<noteq> []"
    "canonical demo_weakly id ''/opt/t/a'' = ''/opt/t/a''" "canonical demo_weakly id ''/opt/t/'' = ''/opt/t''"
    "\<not> allow_any demo_policy" "absolute ''/opt/t/''" "canonical demo_weakly id ''/bin/true'' \<noteq> ''/opt/t/a''"
    "set (allow demo_policy) = {''/opt/t/'', ''/bin/true''}"
    by code_simp+
  have "\<not> grants (canonical demo_weakly id) ''/bin/true'' ''/opt/t/a''"
    using v(7) by (auto simp: grants_def)
  then show ?thesis
    using permitted_commands [OF a(1)] permitted_commands [OF a(2)] v by auto
qed

end
