(* ===== verification/Process.thy ===== *)
theory Process
  imports Ordered_Map "HOL-Library.Word"
begin

section \<open>Running a command (dtest/process.cpp)\<close>

text \<open>
  \<open>run_process\<close> starts a command in its own session, captures both output streams up to a limit and
  enforces a timeout. What the operating system answers is data of the model, the record
  \<open>world\<close>: whether the process could be started, what each \<open>read\<close> of the two pipes returns, and, per turn
  of the waiting loops, whether the process has exited and whether the clock has passed the deadline or the
  grace period. The two loops that may not end are partial functions: \<open>None\<close> means that they do not return.
\<close>

unbundle bit_operations_syntax

subsection \<open>Reading a pipe\<close>

datatype errno = EINTR | EAGAIN | EWOULDBLOCK | OtherErrno int

text \<open>\<open>Got []\<close> is a \<open>read\<close> that returns 0: the end of the stream.\<close>

datatype read_result = Got string | ReadError errno

partial_function (option) drain ::
  "(nat \<Rightarrow> read_result) \<Rightarrow> nat \<Rightarrow> nat \<Rightarrow> string \<Rightarrow> bool \<Rightarrow> (bool \<times> nat \<times> string \<times> bool) option" where
  "drain reads limit i into truncated =
     (case reads i of
        Got bs \<Rightarrow>
          if bs \<noteq> [] then
            (let room = (if limit > length into then limit - length into else 0);
                 n = min (length bs) room
             in drain reads limit (Suc i) (into @ take n bs) (if n < length bs then True else truncated))
          else Some (False, Suc i, into, truncated)
      | ReadError e \<Rightarrow>
          if e = EINTR then drain reads limit (Suc i) into truncated
          else Some (e = EAGAIN \<or> e = EWOULDBLOCK, Suc i, into, truncated))"

subsection \<open>Specification and result of a run\<close>

record run_spec =
  rs_argv :: "string list"
  rs_env :: "(string, string) omap"
  rs_timeout :: int
  max_output_bytes :: nat

datatype run_outcome = PExited | PSignaled | PTimedOut | PLaunchFailed

record run_output =
  ro_outcome :: run_outcome
  ro_exit_code :: int
  ro_term_signal :: int
  ro_out :: string
  ro_err :: string
  ro_truncated :: bool
  ro_duration :: int
  ro_message :: string

definition empty_output :: run_output where
  "empty_output = \<lparr>ro_outcome = PLaunchFailed, ro_exit_code = -1, ro_term_signal = 0, ro_out = [], ro_err = [],
     ro_truncated = False, ro_duration = 0, ro_message = []\<rparr>"

definition show_outcome :: "run_outcome \<Rightarrow> string" where
  "show_outcome x =
     (case x of PExited \<Rightarrow> ''exited'' | PSignaled \<Rightarrow> ''signaled'' | PTimedOut \<Rightarrow> ''timed-out''
      | PLaunchFailed \<Rightarrow> ''launch-failed'')"

text \<open>What the child is started with: C strings end at the first NUL.\<close>

definition c_str :: "string \<Rightarrow> string" where
  "c_str s = takeWhile (\<lambda>c. c \<noteq> CHR 0x00) s"

definition clean_env :: "(string, string) omap" where
  "clean_env = omap_put ''LC_ALL'' ''C'' (omap_put ''PATH'' ''/usr/local/bin:/usr/bin:/bin'' [])"

definition env_strings :: "(string, string) omap \<Rightarrow> string list" where
  "env_strings env = map (\<lambda>(k, v). k @ ''='' @ v) (omap_merge clean_env env)"

definition exec_image :: "run_spec \<Rightarrow> string list \<times> string list" where
  "exec_image spec = (map c_str (rs_argv spec), map c_str (env_strings (rs_env spec)))"

subsection \<open>The world\<close>

datatype launch = PipeFailed string | ForkFailed string | ExecFailed string | Started

record world =
  launched :: launch
  out_reads :: "nat \<Rightarrow> read_result"
  err_reads :: "nat \<Rightarrow> read_result"
  has_exited :: "nat \<Rightarrow> bool"
  past_deadline :: "nat \<Rightarrow> bool"
  in_grace :: "nat \<Rightarrow> bool"
  wait_status :: "32 word"
  elapsed :: int

record capture =
  c_out :: string
  c_err :: string
  c_truncated :: bool
  out_open :: bool
  err_open :: bool
  out_pos :: nat
  err_pos :: nat

definition empty_capture :: capture where
  "empty_capture = \<lparr>c_out = [], c_err = [], c_truncated = False, out_open = True, err_open = True,
     out_pos = 0, err_pos = 0\<rparr>"

definition drain_out :: "world \<Rightarrow> nat \<Rightarrow> capture \<Rightarrow> capture option" where
  "drain_out w limit c =
     (if out_open c then
        map_option (\<lambda>(more, i, into, tr). c\<lparr>out_open := more, out_pos := i, c_out := into, c_truncated := tr\<rparr>)
          (drain (out_reads w) limit (out_pos c) (c_out c) (c_truncated c))
      else Some c)"

definition drain_err :: "world \<Rightarrow> nat \<Rightarrow> capture \<Rightarrow> capture option" where
  "drain_err w limit c =
     (if err_open c then
        map_option (\<lambda>(more, i, into, tr). c\<lparr>err_open := more, err_pos := i, c_err := into, c_truncated := tr\<rparr>)
          (drain (err_reads w) limit (err_pos c) (c_err c) (c_truncated c))
      else Some c)"

definition read_ready :: "world \<Rightarrow> nat \<Rightarrow> capture \<Rightarrow> capture option" where
  "read_ready w limit c = Option.bind (drain_out w limit c) (drain_err w limit)"

subsection \<open>Waiting for the process\<close>

text \<open>The result says whether the deadline was passed; \<open>i\<close> counts the turns.\<close>

partial_function (option) watch :: "world \<Rightarrow> nat \<Rightarrow> nat \<Rightarrow> capture \<Rightarrow> (bool \<times> nat \<times> capture) option" where
  "watch w limit i c =
     Option.bind (read_ready w limit c) (\<lambda>c'.
       if has_exited w i then Some (False, Suc i, c')
       else if past_deadline w i then Some (True, Suc i, c')
       else watch w limit (Suc i) c')"

partial_function (option) grace_wait :: "world \<Rightarrow> nat \<Rightarrow> nat \<Rightarrow> capture \<Rightarrow> capture option" where
  "grace_wait w limit i c =
     (if in_grace w i then
        Option.bind (read_ready w limit c) (\<lambda>c'.
          if has_exited w i then Some c' else grace_wait w limit (Suc i) c')
      else Some c)"

text \<open>The macros of \<open>sys/wait.h\<close> on the 32-bit wait status.\<close>

definition wtermsig :: "32 word \<Rightarrow> 32 word" where
  "wtermsig s = s AND 0x7f"

definition wifexited :: "32 word \<Rightarrow> bool" where
  "wifexited s \<longleftrightarrow> wtermsig s = 0"

definition wexitstatus :: "32 word \<Rightarrow> 32 word" where
  "wexitstatus s = drop_bit 8 (s AND 0xff00)"

definition wifsignaled :: "32 word \<Rightarrow> bool" where
  "wifsignaled s \<longleftrightarrow> sint (ucast (wtermsig s + 1) :: 8 word) div 2 > 0"

definition classify :: "bool \<Rightarrow> int \<Rightarrow> 32 word \<Rightarrow> run_output \<Rightarrow> run_output" where
  "classify timed_out timeout_ms status r =
     (if timed_out
      then r\<lparr>ro_outcome := PTimedOut, ro_message := ''exceeded timeout of '' @ show_int timeout_ms @ '' ms''\<rparr>
      else if wifexited status
      then r\<lparr>ro_outcome := PExited, ro_exit_code := sint (wexitstatus status)\<rparr>
      else if wifsignaled status
      then r\<lparr>ro_outcome := PSignaled, ro_term_signal := sint (wtermsig status)\<rparr>
      else r)"

definition collect :: "world \<Rightarrow> nat \<Rightarrow> (bool \<times> capture) option" where
  "collect w limit =
     Option.bind (watch w limit 0 empty_capture) (\<lambda>(timed_out, i, c).
     Option.bind (if timed_out then grace_wait w limit i c else Some c) (\<lambda>c'.
     Option.bind (read_ready w limit c') (\<lambda>c''. Some (timed_out, c''))))"

definition run_process :: "world \<Rightarrow> run_spec \<Rightarrow> run_output option" where
  "run_process w spec =
     (let done_with = (\<lambda>r. Some (r\<lparr>ro_duration := elapsed w\<rparr>)) in
      if rs_argv spec = [] \<or> hd (rs_argv spec) = []
      then done_with (empty_output\<lparr>ro_message := ''empty argv''\<rparr>)
      else case launched w of
        PipeFailed e \<Rightarrow> done_with (empty_output\<lparr>ro_message := ''pipe failed: '' @ e\<rparr>)
      | ForkFailed e \<Rightarrow> done_with (empty_output\<lparr>ro_message := ''fork failed: '' @ e\<rparr>)
      | ExecFailed e \<Rightarrow> done_with (empty_output\<lparr>ro_outcome := PLaunchFailed,
          ro_message := ''cannot execute '' @ CHR 0x27 # hd (rs_argv spec) @ CHR 0x27 # '': '' @ e\<rparr>)
      | Started \<Rightarrow>
          Option.bind (collect w (max_output_bytes spec)) (\<lambda>(timed_out, c).
            done_with (classify timed_out (rs_timeout spec) (wait_status w)
              (empty_output\<lparr>ro_out := c_out c, ro_err := c_err c, ro_truncated := c_truncated c\<rparr>))))"

subsection \<open>What \<open>drain\<close> captures\<close>

definition data_of :: "read_result \<Rightarrow> string" where
  "data_of r = (case r of Got bs \<Rightarrow> bs | ReadError e \<Rightarrow> [])"

text \<open>The reads after which the loop of \<open>drain\<close> goes on.\<close>

definition goes_on :: "read_result \<Rightarrow> bool" where
  "goes_on r \<longleftrightarrow> (case r of Got bs \<Rightarrow> bs \<noteq> [] | ReadError e \<Rightarrow> e = EINTR)"

definition would_block :: "read_result \<Rightarrow> bool" where
  "would_block r \<longleftrightarrow> r = ReadError EAGAIN \<or> r = ReadError EWOULDBLOCK"

definition bytes_read :: "(nat \<Rightarrow> read_result) \<Rightarrow> nat \<Rightarrow> string" where
  "bytes_read reads n = concat (map (\<lambda>i. data_of (reads i)) [0..<n])"

definition clipped :: "nat \<Rightarrow> string \<Rightarrow> bool" where
  "clipped limit s \<longleftrightarrow> length s > limit"

lemma bytes_read_Suc: "bytes_read reads (Suc n) = bytes_read reads n @ data_of (reads n)"
  by (simp add: bytes_read_def)

lemma clipped_mono:
  assumes "m \<le> n" "clipped limit (bytes_read reads m)"
  shows "clipped limit (bytes_read reads n)"
  using assms by (induction rule: dec_induct) (auto simp: clipped_def bytes_read_Suc)

lemma drain_stop:
  assumes "\<not> goes_on (reads i)"
  shows "drain reads limit i into tr = Some (would_block (reads i), Suc i, into, tr)"
  using assms by (subst drain.simps) (auto simp: goes_on_def would_block_def split: read_result.splits)

lemma drain_go:
  assumes "goes_on (reads i)" "into = take limit (bytes_read reads i)" "clipped limit (bytes_read reads i) \<longrightarrow> tr"
  shows "drain reads limit i into tr = drain reads limit (Suc i) (take limit (bytes_read reads (Suc i)))
    (tr \<or> clipped limit (bytes_read reads (Suc i)))"
proof (cases "reads i")
  case (Got bs)
  let ?b = "bytes_read reads i"
  let ?n = "min (length bs) (if limit > length into then limit - length into else 0)"
  have "bs \<noteq> []" using assms(1) Got by (simp add: goes_on_def)
  then have "drain reads limit i into tr =
      drain reads limit (Suc i) (into @ take ?n bs) (if ?n < length bs then True else tr)"
    using Got by (subst drain.simps) (simp add: Let_def)
  moreover have "into @ take ?n bs = take limit (bytes_read reads (Suc i))"
    using assms(2) Got by (auto simp: bytes_read_Suc data_of_def min_def)
  moreover have "(if ?n < length bs then True else tr) = (tr \<or> clipped limit (bytes_read reads (Suc i)))"
    using assms(2,3) Got by (auto simp: bytes_read_Suc data_of_def clipped_def min_def)
  ultimately show ?thesis by simp
next
  case (ReadError e)
  moreover have "tr \<or> clipped limit (bytes_read reads (Suc i)) \<longleftrightarrow> tr"
    using assms(3) ReadError by (auto simp: bytes_read_Suc data_of_def)
  ultimately show ?thesis
    using assms(1,2) by (subst drain.simps) (simp add: goes_on_def bytes_read_Suc data_of_def)
qed

lemma drain_result:
  assumes "i \<le> k" "\<And>j. i \<le> j \<Longrightarrow> j < k \<Longrightarrow> goes_on (reads j)" "\<not> goes_on (reads k)"
    and "clipped limit (bytes_read reads i) \<longrightarrow> tr"
  shows "drain reads limit i (take limit (bytes_read reads i)) tr =
    Some (would_block (reads k), Suc k, take limit (bytes_read reads (Suc k)), tr \<or> clipped limit (bytes_read reads (Suc k)))"
  using assms
proof (induction "k - i" arbitrary: i tr)
  case 0
  then have "i = k" by simp
  moreover have "data_of (reads k) = []"
    using assms(3) by (auto simp: data_of_def goes_on_def split: read_result.splits)
  moreover have "tr \<or> clipped limit (bytes_read reads k) \<longleftrightarrow> tr" using "0.prems"(4) \<open>i = k\<close> by auto
  ultimately show ?case using assms(3) by (simp add: drain_stop bytes_read_Suc)
next
  case (Suc n)
  have g: "goes_on (reads i)" using Suc.hyps(2) Suc.prems(2) by simp
  let ?tr = "tr \<or> clipped limit (bytes_read reads (Suc i))"
  have "drain reads limit i (take limit (bytes_read reads i)) tr =
      drain reads limit (Suc i) (take limit (bytes_read reads (Suc i))) ?tr"
    using drain_go [OF g refl Suc.prems(4)] .
  also have "\<dots> = Some (would_block (reads k), Suc k, take limit (bytes_read reads (Suc k)),
      ?tr \<or> clipped limit (bytes_read reads (Suc k)))"
    using Suc.hyps(2) Suc.prems(2,3) by (intro Suc.hyps(1)) auto
  moreover have "?tr \<or> clipped limit (bytes_read reads (Suc k)) \<longleftrightarrow> tr \<or> clipped limit (bytes_read reads (Suc k))"
    using clipped_mono [of "Suc i" "Suc k" limit reads] Suc.prems(1) by auto
  ultimately show ?case by simp
qed

lemma drain_returned:
  assumes "drain reads limit i into tr = Some r"
  shows "\<exists>k \<ge> i. \<not> goes_on (reads k)"
proof (rule drain.raw_induct [OF _ assms, where P = "\<lambda>reads limit i into tr r. \<exists>k \<ge> i. \<not> goes_on (reads k)"])
  fix f :: "(nat \<Rightarrow> read_result) \<Rightarrow> nat \<Rightarrow> nat \<Rightarrow> string \<Rightarrow> bool \<Rightarrow> (bool \<times> nat \<times> string \<times> bool) option"
    and reads limit i into tr r
  assume IH: "\<And>reads limit i into tr r. f reads limit i into tr = Some r \<Longrightarrow> \<exists>k \<ge> i. \<not> goes_on (reads k)"
    and eq: "(case reads i of
        Got bs \<Rightarrow>
          if bs \<noteq> [] then
            (let room = (if limit > length into then limit - length into else 0);
                 n = min (length bs) room
             in f reads limit (Suc i) (into @ take n bs) (if n < length bs then True else tr))
          else Some (False, Suc i, into, tr)
      | ReadError e \<Rightarrow>
          if e = EINTR then f reads limit (Suc i) into tr
          else Some (e = EAGAIN \<or> e = EWOULDBLOCK, Suc i, into, tr)) = Some r"
  show "\<exists>k \<ge> i. \<not> goes_on (reads k)"
  proof (cases "goes_on (reads i)")
    case True
    then obtain into' tr' where "f reads limit (Suc i) into' tr' = Some r"
      using eq by (auto simp: goes_on_def Let_def split: read_result.splits if_splits)
    from IH [OF this] show ?thesis using Suc_leD by blast
  qed blast
qed

text \<open>Where the next \<open>drain\<close> stops.\<close>

definition stop_at :: "(nat \<Rightarrow> read_result) \<Rightarrow> nat \<Rightarrow> nat \<Rightarrow> bool" where
  "stop_at reads i k \<longleftrightarrow> i \<le> k \<and> \<not> goes_on (reads k) \<and> (\<forall>j. i \<le> j \<longrightarrow> j < k \<longrightarrow> goes_on (reads j))"

lemma stop_at_exists: "\<exists>k \<ge> i. \<not> goes_on (reads k) \<Longrightarrow> \<exists>k. stop_at reads i k"
proof -
  assume "\<exists>k \<ge> i. \<not> goes_on (reads k)"
  then have "\<exists>k. i \<le> k \<and> \<not> goes_on (reads k)" by blast
  then obtain k where "i \<le> k \<and> \<not> goes_on (reads k)" "\<forall>j < k. \<not> (i \<le> j \<and> \<not> goes_on (reads j))"
    by (rule exists_least_iff [THEN iffD1, elim_format]) blast
  then show ?thesis by (auto simp: stop_at_def)
qed

end
