(* ===== verification/Agent.thy ===== *)
theory Agent
  imports Policy Process Transition_System
begin

section \<open>The agent service (dtest/agent_service.cpp)\<close>

text \<open>
  An agent authenticates a call, validates the request, claims one of its slots, runs the command and reports
  how it ended. The messages are those of \<open>dtest.proto\<close>; the gRPC library, which delivers them,
  is outside the repository and enters only through the call metadata and the status codes.
\<close>

subsection \<open>Messages and options\<close>

datatype grpc_code =
    OK | CANCELLED | UNKNOWN | INVALID_ARGUMENT | DEADLINE_EXCEEDED | NOT_FOUND | ALREADY_EXISTS
  | PERMISSION_DENIED | RESOURCE_EXHAUSTED | FAILED_PRECONDITION | ABORTED | OUT_OF_RANGE
  | UNIMPLEMENTED | INTERNAL | UNAVAILABLE | DATA_LOSS | UNAUTHENTICATED

type_synonym grpc_status = "grpc_code \<times> string"

definition status_ok :: grpc_status where
  "status_ok = (OK, [])"

record run_task_request =
  rq_task_id :: string
  rq_argv :: "string list"
  rq_env :: "(string \<times> string) list"
  rq_timeout_ms :: "32 word"

datatype reply_outcome = OUTCOME_UNSPECIFIED | EXITED | SIGNALED | TIMED_OUT | LAUNCH_FAILED

record run_task_reply =
  rp_outcome :: reply_outcome
  rp_exit_code :: int
  rp_term_signal :: int
  rp_out :: string
  rp_err :: string
  rp_truncated :: bool
  rp_duration_ms :: "32 word"
  rp_message :: string

record info_reply =
  in_hostname :: string
  in_cpus :: "32 word"
  in_slots :: "32 word"
  in_labels :: "string list"
  in_version :: string

record agent_options =
  op_token :: string
  op_policy :: policy
  op_slots :: "32 word"
  op_labels :: "string list"
  op_hostname :: string
  op_max_output :: nat

text \<open>\<open>uname\<close> and \<open>access\<close> are system calls: their answers are arguments.\<close>

definition detect_labels :: "string option \<Rightarrow> bool \<Rightarrow> string list" where
  "detect_labels machine kvm_usable =
     [''os=linux''] @ (case machine of Some m \<Rightarrow> [''arch='' @ m] | None \<Rightarrow> []) @
     (if kvm_usable then [''kvm=true''] else [])"

text \<open>The constructor; \<open>gethostname\<close> is the argument \<open>host\<close>.\<close>

definition make_agent :: "string option \<Rightarrow> agent_options \<Rightarrow> agent_options" where
  "make_agent host opts =
     (let opts1 = (if op_slots opts = 0 then opts\<lparr>op_slots := 1\<rparr> else opts)
      in if op_hostname opts1 = []
         then (case host of Some h \<Rightarrow> opts1\<lparr>op_hostname := h\<rparr> | None \<Rightarrow> opts1)
         else opts1)"

subsection \<open>Authentication\<close>

definition byte :: "char \<Rightarrow> 8 word" where
  "byte c = word_of_nat (of_char c)"

definition constant_time_equals :: "string \<Rightarrow> string \<Rightarrow> bool" where
  "constant_time_equals a b =
     (let diff = (if length a \<noteq> length b then 1 else 0);
          n = min (length a) (length b)
      in foldl (\<lambda>diff i. diff OR (byte (a ! i) XOR byte (b ! i))) diff [0..<n] = 0)"

type_synonym metadata = "string \<Rightarrow> string option"

definition authenticate :: "agent_options \<Rightarrow> metadata \<Rightarrow> grpc_status" where
  "authenticate opts md =
     (if op_token opts = [] then status_ok
      else case md ''authorization'' of
        None \<Rightarrow> (UNAUTHENTICATED, ''missing authorization metadata'')
      | Some got \<Rightarrow>
          if \<not> constant_time_equals got (''Bearer '' @ op_token opts)
          then (UNAUTHENTICATED, ''invalid token'')
          else status_ok)"

definition get_info :: "agent_options \<Rightarrow> 32 word \<Rightarrow> metadata \<Rightarrow> grpc_status \<times> info_reply option" where
  "get_info opts cpus md =
     (let s = authenticate opts md in
      if fst s \<noteq> OK then (s, None)
      else (status_ok, Some \<lparr>in_hostname = op_hostname opts, in_cpus = cpus, in_slots = op_slots opts,
              in_labels = op_labels opts, in_version = ''0.1.0''\<rparr>))"

subsection \<open>\<open>RunTask\<close>\<close>

text \<open>Everything before the slot is claimed: \<open>status_ok\<close> if the call may go on.\<close>

definition admit :: "(string \<Rightarrow> string) \<Rightarrow> agent_options \<Rightarrow> metadata \<Rightarrow> run_task_request \<Rightarrow> grpc_status" where
  "admit canon opts md req =
     (let s = authenticate opts md in
      if fst s \<noteq> OK then s
      else if rq_argv req = [] \<or> hd (rq_argv req) = []
      then (INVALID_ARGUMENT, ''argv must not be empty'')
      else if rq_timeout_ms req = 0 \<or> rq_timeout_ms req > 24 * 3600 * 1000
      then (INVALID_ARGUMENT, ''timeout_ms must be in 1..86400000'')
      else
        let why = check_command canon (op_policy opts) (hd (rq_argv req)) in
        if why \<noteq> [] then (PERMISSION_DENIED, why) else status_ok)"

definition spec_of_request :: "agent_options \<Rightarrow> run_task_request \<Rightarrow> run_spec" where
  "spec_of_request opts req =
     \<lparr>rs_argv = rq_argv req, rs_env = fold (\<lambda>(k, v). omap_put k v) (rq_env req) [],
      rs_timeout = uint (rq_timeout_ms req), max_output_bytes = op_max_output opts\<rparr>"

definition reply_of_output :: "run_output \<Rightarrow> run_task_reply" where
  "reply_of_output out =
     \<lparr>rp_outcome = (case ro_outcome out of PExited \<Rightarrow> EXITED | PSignaled \<Rightarrow> SIGNALED
        | PTimedOut \<Rightarrow> TIMED_OUT | PLaunchFailed \<Rightarrow> LAUNCH_FAILED),
      rp_exit_code = ro_exit_code out, rp_term_signal = ro_term_signal out,
      rp_out = ro_out out, rp_err = ro_err out, rp_truncated = ro_truncated out,
      rp_duration_ms = word_of_int (ro_duration out), rp_message = ro_message out\<rparr>"

text \<open>
  The slot counter \<open>running_\<close> is an atomic that concurrent calls increment and decrement: \<open>claim_slot\<close> is
  the \<open>fetch_add\<close> with its test, \<open>release_slot\<close> either of the two \<open>fetch_sub\<close>. A whole call that
  is not overlapped by another one is \<open>serve_call\<close>.
\<close>

definition claim_slot :: "agent_options \<Rightarrow> 32 word \<Rightarrow> bool \<times> 32 word" where
  "claim_slot opts running = (\<not> running \<ge> op_slots opts, running + 1)"

definition release_slot :: "32 word \<Rightarrow> 32 word" where
  "release_slot running = running - 1"

definition slot_refused :: grpc_status where
  "slot_refused = (RESOURCE_EXHAUSTED, ''agent is at its concurrency limit'')"

text \<open>
  What a call does to the world: the counter, and in order the operations on it and the commands that are started
  (\<open>run_process\<close> is the parameter \<open>run\<close>; \<open>None\<close> is a call of it that does not return, and then the whole
  call does not).
\<close>

datatype call_effect = Claimed bool | Started_command run_spec | Gave_back

record call_world =
  cw_running :: "32 word"
  cw_effects :: "call_effect list"

definition fetch_claim :: "agent_options \<Rightarrow> call_world \<Rightarrow> bool \<times> call_world" where
  "fetch_claim opts s =
     (let (claimed, r) = claim_slot opts (cw_running s)
      in (claimed, s\<lparr>cw_running := r, cw_effects := cw_effects s @ [Claimed claimed]\<rparr>))"

definition fetch_release :: "call_world \<Rightarrow> call_world" where
  "fetch_release s = s\<lparr>cw_running := release_slot (cw_running s), cw_effects := cw_effects s @ [Gave_back]\<rparr>"

definition execute :: "(run_spec \<Rightarrow> run_output option) \<Rightarrow> run_spec \<Rightarrow> call_world \<Rightarrow> run_output option \<times> call_world" where
  "execute run spec s = (run spec, s\<lparr>cw_effects := cw_effects s @ [Started_command spec]\<rparr>)"

definition serve_call ::
  "(string \<Rightarrow> string) \<Rightarrow> agent_options \<Rightarrow> (run_spec \<Rightarrow> run_output option) \<Rightarrow> metadata \<Rightarrow> run_task_request \<Rightarrow> call_world
     \<Rightarrow> (grpc_status \<times> run_task_reply option) option \<times> call_world" where
  "serve_call canon opts run md req s =
     (let st = admit canon opts md req in
      if fst st \<noteq> OK then (Some (st, None), s)
      else let (claimed, s1) = fetch_claim opts s in
        if \<not> claimed then (Some (slot_refused, None), fetch_release s1)
        else let (out, s2) = execute run (spec_of_request opts req) s1 in
          case out of
            None \<Rightarrow> (None, s2)
          | Some r \<Rightarrow> (Some (status_ok, Some (reply_of_output r)), fetch_release s2))"

text \<open>What the caller gets, and the counter after the call.\<close>

definition run_task ::
  "(string \<Rightarrow> string) \<Rightarrow> agent_options \<Rightarrow> (run_spec \<Rightarrow> run_output option) \<Rightarrow> metadata \<Rightarrow> run_task_request \<Rightarrow> 32 word
     \<Rightarrow> (grpc_status \<times> run_task_reply option \<times> 32 word) option" where
  "run_task canon opts run md req running =
     (case serve_call canon opts run md req \<lparr>cw_running = running, cw_effects = []\<rparr> of
        (None, s) \<Rightarrow> None
      | (Some (st, rep), s) \<Rightarrow> Some (st, rep, cw_running s))"

lemma run_task_unfold:
  "run_task canon opts run md req running =
     (let s = admit canon opts md req in
      if fst s \<noteq> OK then Some (s, None, running)
      else let (claimed, running1) = claim_slot opts running in
        if \<not> claimed then Some (slot_refused, None, release_slot running1)
        else Option.bind (run (spec_of_request opts req)) (\<lambda>out.
          Some (status_ok, Some (reply_of_output out), release_slot running1)))"
  by (simp add: run_task_def serve_call_def fetch_claim_def fetch_release_def execute_def Let_def claim_slot_def
    split: option.splits)

subsection \<open>Concurrent calls\<close>

text \<open>
  \<open>Arrived\<close>: admitted, before \<open>fetch_add\<close>. \<open>Refusing\<close>: over the limit, before the \<open>fetch_sub\<close>.
  \<open>Executing\<close>: inside \<open>run_process\<close>. \<open>Returned\<close>: the status has been returned.
\<close>

datatype call = Arrived | Refusing | Executing | Returned grpc_code

record slots_state =
  running :: "32 word"
  calls :: "call list"

datatype slot_event = Claim nat | GiveBack nat

inductive slot_step :: "agent_options \<Rightarrow> slots_state \<Rightarrow> slot_event \<Rightarrow> slots_state \<Rightarrow> bool" for opts where
  claim: "i < length (calls s) \<Longrightarrow> calls s ! i = Arrived \<Longrightarrow> claim_slot opts (running s) = (claimed, r) \<Longrightarrow>
     slot_step opts s (Claim i)
       \<lparr>running = r, calls = (calls s)[i := (if claimed then Executing else Refusing)]\<rparr>"
| refuse: "i < length (calls s) \<Longrightarrow> calls s ! i = Refusing \<Longrightarrow>
     slot_step opts s (GiveBack i)
       \<lparr>running = release_slot (running s), calls = (calls s)[i := Returned (fst slot_refused)]\<rparr>"
| finish: "i < length (calls s) \<Longrightarrow> calls s ! i = Executing \<Longrightarrow>
     slot_step opts s (GiveBack i)
       \<lparr>running = release_slot (running s), calls = (calls s)[i := Returned OK]\<rparr>"

inductive_cases slot_stepE: "slot_step opts s e s'"

definition initial_slots :: "nat \<Rightarrow> slots_state" where
  "initial_slots n = \<lparr>running = 0, calls = replicate n Arrived\<rparr>"

fun slot_next :: "agent_options \<Rightarrow> slots_state \<Rightarrow> slot_event \<Rightarrow> slots_state option" where
  "slot_next opts s (Claim i) =
     (if i < length (calls s) \<and> calls s ! i = Arrived then
        (case claim_slot opts (running s) of (claimed, r) \<Rightarrow>
          Some \<lparr>running = r, calls = (calls s)[i := (if claimed then Executing else Refusing)]\<rparr>)
      else None)"
| "slot_next opts s (GiveBack i) =
     (if i < length (calls s) then
        (case calls s ! i of
           Refusing \<Rightarrow> Some \<lparr>running = release_slot (running s), calls = (calls s)[i := Returned (fst slot_refused)]\<rparr>
         | Executing \<Rightarrow> Some \<lparr>running = release_slot (running s), calls = (calls s)[i := Returned OK]\<rparr>
         | _ \<Rightarrow> None)
      else None)"

fun slot_replay :: "agent_options \<Rightarrow> slots_state \<Rightarrow> slot_event list \<Rightarrow> slots_state option" where
  "slot_replay opts s [] = Some s"
| "slot_replay opts s (e # es) = Option.bind (slot_next opts s e) (\<lambda>s'. slot_replay opts s' es)"

lemmas slot_claims = slot_step.claim [where claimed = True, simplified] slot_step.claim [where claimed = False, simplified]

lemma slot_next_step: "slot_next opts s e = Some s' \<Longrightarrow> slot_step opts s e s'"
  by (cases e) (auto split: if_splits prod.splits call.splits intro: slot_step.intros slot_claims)

lemma slot_replay_run: "slot_replay opts s es = Some s' \<Longrightarrow> run_of (slot_step opts) s es s'"
  by (induction opts s es rule: slot_replay.induct)
    (auto simp: run_of_Cons bind_eq_Some_conv dest: slot_next_step)

end
