(* ===== verification/Executor.thy ===== *)
theory Executor
  imports Agent Scheduler
begin

section \<open>The gRPC executor (dtest/grpc_executor.cpp)\<close>

text \<open>
  \<open>GrpcExecutor\<close> is the scheduler's \<open>Executor\<close>: it keeps one stub per connected agent and turns the
  outcome of a call into an attempt result. The generated stub and the gRPC transport are not part of the
  repository: \<open>rpc\<close> says what a call on a stub with given metadata, deadline and request returns. The duration of a
  call is a double: it is of the type \<open>'d\<close> of the scheduler's model, and \<open>to_seconds\<close> is the division by 1000.0.
\<close>

record 's executor =
  ex_token :: string
  ex_margin :: int
  stubs :: "(string, 's) omap"

definition make_executor :: "string \<Rightarrow> int \<Rightarrow> 's executor" where
  "make_executor token margin = \<lparr>ex_token = token, ex_margin = margin, stubs = []\<rparr>"

definition call_metadata :: "string \<Rightarrow> metadata" where
  "call_metadata token =
     (if token \<noteq> [] then (\<lambda>_. None)(''authorization'' \<mapsto> ''Bearer '' @ token) else (\<lambda>_. None))"

text \<open>\<open>connect\<close>: the new stub and the outcome of its \<open>GetInfo\<close> call are arguments.\<close>

definition connect ::
  "'s \<Rightarrow> (metadata \<Rightarrow> grpc_status \<times> info_reply) \<Rightarrow> string \<Rightarrow> 's executor \<Rightarrow> string + ('s executor \<times> agent_info)" where
  "connect stub get_info_rpc addr ex =
     (let (gst, info) = get_info_rpc (call_metadata (ex_token ex)) in
      if fst gst \<noteq> OK
      then Inl ((if fst gst = DEADLINE_EXCEEDED then ''unreachable'' else ''rejected'') @ '': '' @ snd gst)
      else Inr (ex\<lparr>stubs := omap_put addr stub (stubs ex)\<rparr>,
        \<lparr>address = addr, hostname = in_hostname info,
         slots = (if in_slots info \<noteq> 0 then unat (in_slots info) else 1), labels = in_labels info\<rparr>))"

definition request_of_task :: "task \<Rightarrow> run_task_request" where
  "request_of_task t =
     \<lparr>rq_task_id = task_name t, rq_argv = argv t, rq_env = task_env t,
      rq_timeout_ms = word_of_int (timeout_s t) * 1000\<rparr>"

definition default_result :: "'d \<Rightarrow> 'd attempt_result" where
  "default_result zero = \<lparr>ar_status = AFailed, ar_exit_code = -1, ar_out = [], ar_err = [], ar_message = [], ar_seconds = zero\<rparr>"

text \<open>Errors that mean that the agent, or the path to it, is unusable.\<close>

definition infrastructure_error :: "grpc_code \<Rightarrow> bool" where
  "infrastructure_error code =
     (case code of UNAVAILABLE \<Rightarrow> True | DEADLINE_EXCEEDED \<Rightarrow> True | UNAUTHENTICATED \<Rightarrow> True | CANCELLED \<Rightarrow> True
      | INTERNAL \<Rightarrow> True | UNIMPLEMENTED \<Rightarrow> True | UNKNOWN \<Rightarrow> True | _ \<Rightarrow> False)"

definition join_message :: "string \<Rightarrow> string \<Rightarrow> string" where
  "join_message m extra = m @ (if m = [] then [] else ''; '') @ extra"

definition read_reply :: "(32 word \<Rightarrow> 'd) \<Rightarrow> run_task_reply \<Rightarrow> 'd attempt_result \<Rightarrow> 'd attempt_result" where
  "read_reply to_seconds rep res =
     (let res1 = res\<lparr>ar_exit_code := rp_exit_code rep, ar_out := rp_out rep, ar_err := rp_err rep,
            ar_message := rp_message rep\<rparr>;
          res2 = (if rp_duration_ms rep > 0 then res1\<lparr>ar_seconds := to_seconds (rp_duration_ms rep)\<rparr> else res1);
          res3 = (if rp_truncated rep then res2\<lparr>ar_message := join_message (ar_message res2) ''output truncated''\<rparr> else res2)
      in case rp_outcome rep of
           EXITED \<Rightarrow> res3\<lparr>ar_status := (if rp_exit_code rep = 0 then APassed else AFailed)\<rparr>
         | SIGNALED \<Rightarrow> res3\<lparr>ar_status := AFailed,
             ar_message := ''killed by signal '' @ show_int (rp_term_signal rep) @
               (if ar_message res3 = [] then [] else ''; '' @ ar_message res3)\<rparr>
         | TIMED_OUT \<Rightarrow> res3\<lparr>ar_status := ATimedOut\<rparr>
         | _ \<Rightarrow> res3\<lparr>ar_status := AFailed,
             ar_message := (if ar_message res3 = [] then ''agent could not launch the command'' else ar_message res3)\<rparr>)"

definition run_on ::
  "(32 word \<Rightarrow> 'd) \<Rightarrow> 'd \<Rightarrow> ('s \<Rightarrow> metadata \<Rightarrow> int \<Rightarrow> run_task_request \<Rightarrow> grpc_status \<times> run_task_reply \<times> 'd)
     \<Rightarrow> 's executor \<Rightarrow> agent_info \<Rightarrow> task \<Rightarrow> 'd attempt_result" where
  "run_on to_seconds zero rpc ex agent t =
     (case omap_get (stubs ex) (address agent) of
        None \<Rightarrow> (default_result zero)\<lparr>ar_status := AgentError, ar_message := ''no connection to '' @ address agent\<rparr>
      | Some stub \<Rightarrow>
          (case rpc stub (call_metadata (ex_token ex)) (timeout_s t + ex_margin ex) (request_of_task t) of
             (gst, rep, secs) \<Rightarrow>
               (let res = (default_result zero)\<lparr>ar_seconds := secs\<rparr> in
                if fst gst \<noteq> OK
                then res\<lparr>ar_status := (if infrastructure_error (fst gst) then AgentError else AFailed), ar_message := snd gst\<rparr>
                else read_reply to_seconds rep res)))"

subsection \<open>Properties\<close>

definition executor_ok :: "'s executor \<Rightarrow> bool" where
  "executor_ok ex \<longleftrightarrow> omap_ok (stubs ex)"

lemma read_reply_status:
  "ar_status (read_reply to_seconds rep res) =
     (case rp_outcome rep of
        EXITED \<Rightarrow> if rp_exit_code rep = 0 then APassed else AFailed
      | TIMED_OUT \<Rightarrow> ATimedOut
      | _ \<Rightarrow> AFailed)"
  by (simp add: read_reply_def Let_def split: reply_outcome.splits)

text \<open>
  Connections: connecting to an address keeps the stubs well formed, makes later runs on that
  address use the new stub, leaves the other addresses alone, and describes the agent with at least one slot.
\<close>

theorem connect_registers_stub:
  assumes "executor_ok ex" "connect stub get_info_rpc addr ex = Inr (ex', info)"
  shows "executor_ok ex' \<and> omap_get (stubs ex') = (omap_get (stubs ex))(addr \<mapsto> stub) \<and>
    ex_token ex' = ex_token ex \<and> address info = addr \<and> slots info \<noteq> 0"
proof -
  obtain gst i where r: "get_info_rpc (call_metadata (ex_token ex)) = (gst, i)" by fastforce
  then have "ex' = ex\<lparr>stubs := omap_put addr stub (stubs ex)\<rparr>" "address info = addr"
    "slots info = (if in_slots i \<noteq> 0 then unat (in_slots i) else 1)"
    using assms(2) by (auto simp: connect_def split: if_splits)
  then show ?thesis
    using assms(1) om.get_put om.ok_put by (auto simp: executor_ok_def unat_gt_0)
qed

definition demo_info :: "metadata \<Rightarrow> grpc_status \<times> info_reply" where
  "demo_info md = (status_ok, \<lparr>in_hostname = ''h'', in_cpus = 4, in_slots = 0, in_labels = [], in_version = ''0.1.0''\<rparr>)"

theorem connect_registers_stub_witness:
  "\<exists>ex info. connect (7::nat) demo_info ''h:7001'' (make_executor ''tok'' 15) = Inr (ex, info) \<and>
     omap_get (stubs ex) ''h:7001'' = Some 7"
proof -
  have ok: "executor_ok (make_executor ''tok'' 15 :: nat executor)" by (simp add: executor_ok_def make_executor_def)
  obtain ex info where c: "connect (7::nat) demo_info ''h:7001'' (make_executor ''tok'' 15) = Inr (ex, info)"
    by (simp add: connect_def demo_info_def status_ok_def)
  then show ?thesis using connect_registers_stub [OF ok c] by auto
qed

lemma run_on_status:
  assumes "omap_get (stubs ex) (address agent) = Some stub"
    and "rpc stub (call_metadata (ex_token ex)) (timeout_s t + ex_margin ex) (request_of_task t) = (gst, rep, secs)"
  shows "ar_status (run_on to_seconds zero rpc ex agent t) =
    (if fst gst = OK
     then (case rp_outcome rep of EXITED \<Rightarrow> if rp_exit_code rep = 0 then APassed else AFailed
       | TIMED_OUT \<Rightarrow> ATimedOut | _ \<Rightarrow> AFailed)
     else if infrastructure_error (fst gst) then AgentError else AFailed)"
  using assms by (simp add: run_on_def Let_def read_reply_status)

lemma run_on_passed:
  assumes "omap_get (stubs ex) (address agent) = Some stub"
    and "rpc stub (call_metadata (ex_token ex)) (timeout_s t + ex_margin ex) (request_of_task t) = (gst, rep, secs)"
  shows "ar_status (run_on to_seconds zero rpc ex agent t) = APassed \<longleftrightarrow>
    fst gst = OK \<and> rp_outcome rep = EXITED \<and> rp_exit_code rep = 0"
  unfolding run_on_status [where rpc = rpc, OF assms] by (auto split: reply_outcome.splits)

text \<open>
  Blame: an attempt is an agent error, which retires the agent and costs no retry,
  exactly when there is no connection or the call failed with an infrastructure error; every other failure of
  the call counts against the test, and the attempt passes exactly when the call succeeded and the process exited with
  code 0.
\<close>

theorem attempt_blame:
  assumes "omap_get (stubs ex) (address agent) = Some stub"
    and "rpc stub (call_metadata (ex_token ex)) (timeout_s t + ex_margin ex) (request_of_task t) = (gst, rep, secs)"
    and "res = run_on to_seconds zero rpc ex agent t"
  shows "(ar_status res = AgentError \<longleftrightarrow> fst gst \<in> {UNAVAILABLE, DEADLINE_EXCEEDED, UNAUTHENTICATED, CANCELLED, INTERNAL,
      UNIMPLEMENTED, UNKNOWN}) \<and>
    (ar_status res = APassed \<longleftrightarrow> fst gst = OK \<and> rp_outcome rep = EXITED \<and> rp_exit_code rep = 0) \<and>
    (ar_status res = ATimedOut \<longleftrightarrow> fst gst = OK \<and> rp_outcome rep = TIMED_OUT)"
proof -
  note status = run_on_status [where rpc = rpc, OF assms(1,2), of to_seconds zero, folded assms(3)]
  have "infrastructure_error (fst gst) \<longleftrightarrow> fst gst \<in> {UNAVAILABLE, DEADLINE_EXCEEDED, UNAUTHENTICATED, CANCELLED, INTERNAL,
      UNIMPLEMENTED, UNKNOWN}"
    by (simp add: infrastructure_error_def split: grpc_code.splits)
  then show ?thesis unfolding status by (auto split: reply_outcome.splits)
qed

definition demo_executor :: "nat executor" where
  "demo_executor = (make_executor ''tok'' 15)\<lparr>stubs := [(''h:7001'', 7)]\<rparr>"

definition demo_rpc :: "nat \<Rightarrow> metadata \<Rightarrow> int \<Rightarrow> run_task_request \<Rightarrow> grpc_status \<times> run_task_reply \<times> nat" where
  "demo_rpc stub md deadline req = ((PERMISSION_DENIED, ''no''), reply_of_output empty_output, 3)"

definition demo_agent :: agent_info where
  "demo_agent = \<lparr>address = ''h:7001'', hostname = ''h'', slots = 1, labels = []\<rparr>"

theorem attempt_blame_witness: "ar_status (run_on unat 0 demo_rpc demo_executor demo_agent default_task) \<noteq> AgentError"
proof -
  have s: "omap_get (stubs demo_executor) (address demo_agent) = Some 7"
    by (simp add: demo_executor_def demo_agent_def omap_get_def)
  show ?thesis
    using attempt_blame [OF s, of demo_rpc default_task "(PERMISSION_DENIED, ''no'')" "reply_of_output empty_output" 3
        "run_on unat 0 demo_rpc demo_executor demo_agent default_task" unat 0]
    by (simp add: demo_rpc_def)
qed

end
