(* ===== verification/Agent_Properties.thy ===== *)
theory Agent_Properties
  imports Agent
begin

section \<open>What the agent guarantees\<close>

text \<open>
  Authentication is equality with the bearer token, nothing is run unless every check passed, and the
  slot counter bounds the commands that run at once; it can refuse a call while slots are free,
  but never one of a controller that respects the slots.
\<close>

subsection \<open>Authentication\<close>

lemma byte_eq: "byte a = byte b \<longleftrightarrow> a = b"
proof -
  have "(of_char c :: nat) < 256" for c by simp
  then have "unat (byte c) = of_char c" for c by (simp add: byte_def unat_of_nat)
  then show ?thesis by (metis char_of_char)
qed

lemma xor_zero: "x XOR y = 0 \<longleftrightarrow> x = y" for x y :: "8 word"
  by (metis xor_self_eq bit.xor_left_self xor.right_neutral)

lemma diff_zero_iff:
  "foldl (\<lambda>diff i. diff OR (byte (a ! i) XOR byte (b ! i))) d is = 0 \<longleftrightarrow> d = 0 \<and> (\<forall>i \<in> set is. a ! i = b ! i)"
proof (induction "is" arbitrary: d)
  case (Cons i "is")
  have "x OR y = 0 \<longleftrightarrow> x = 0 \<and> y = 0" for x y :: "8 word" by (auto simp: or_eq_0_iff)
  then show ?case by (simp add: Cons xor_zero byte_eq)
qed simp

lemma constant_time_equals_iff: "constant_time_equals a b \<longleftrightarrow> a = b"
  unfolding constant_time_equals_def Let_def diff_zero_iff list_eq_iff_nth_eq [of a b] by auto

text \<open>
  A call is authenticated exactly when the agent has no token or the call's
  authorization metadata is the bearer token: the constant-time comparison is equality.
\<close>

theorem authenticated_iff:
  "fst (authenticate opts md) = OK \<longleftrightarrow> op_token opts = [] \<or> md ''authorization'' = Some (''Bearer '' @ op_token opts)"
  by (auto simp: authenticate_def status_ok_def constant_time_equals_iff split: option.splits)

subsection \<open>Admission\<close>

lemma timeout_range:
  "t = 0 \<or> t > 24 * 3600 * 1000 \<longleftrightarrow> \<not> (1 \<le> uint t \<and> uint t \<le> 86400000)" for t :: "32 word"
proof -
  have "t = 0 \<longleftrightarrow> uint t = 0" by (simp add: uint_0_iff)
  moreover have "t > 24 * 3600 * 1000 \<longleftrightarrow> uint t > 86400000" by (simp add: word_less_def)
  moreover have "0 \<le> uint t" by simp
  ultimately show ?thesis by linarith
qed

lemma authenticate_code: "fst (authenticate opts md) = OK \<or> fst (authenticate opts md) = UNAUTHENTICATED"
  by (auto simp: authenticate_def status_ok_def split: option.splits)

lemma admit_iff:
  "fst (admit canon opts md req) = OK \<longleftrightarrow>
     fst (authenticate opts md) = OK \<and> rq_argv req \<noteq> [] \<and> hd (rq_argv req) \<noteq> [] \<and>
     1 \<le> uint (rq_timeout_ms req) \<and> uint (rq_timeout_ms req) \<le> 86400000 \<and>
     check_command canon (op_policy opts) (hd (rq_argv req)) = []"
  unfolding admit_def Let_def timeout_range by (auto simp: status_ok_def)

lemma admit_invalid:
  "fst (admit canon opts md req) = INVALID_ARGUMENT \<longleftrightarrow>
     fst (authenticate opts md) = OK \<and> (rq_argv req = [] \<or> hd (rq_argv req) = [] \<or>
     \<not> (1 \<le> uint (rq_timeout_ms req) \<and> uint (rq_timeout_ms req) \<le> 86400000))"
  unfolding admit_def Let_def timeout_range using authenticate_code [of opts md] by (auto simp: status_ok_def)

lemma run_task_replies:
  assumes "run_task canon opts run md req n = Some (s, Some rep, n')"
  shows "fst (admit canon opts md req) = OK" "n < op_slots opts" "n' = n"
    and "\<exists>out. run (spec_of_request opts req) = Some out \<and> rep = reply_of_output out"
  using assms
  by (auto simp: run_task_unfold Let_def claim_slot_def release_slot_def bind_eq_Some_conv split: if_splits)

text \<open>The checks as a caller would state them, without the functions of the service.\<close>

definition call_allowed :: "(string \<Rightarrow> string) \<Rightarrow> agent_options \<Rightarrow> metadata \<Rightarrow> run_task_request \<Rightarrow> bool" where
  "call_allowed canon opts md req \<longleftrightarrow>
     (op_token opts = [] \<or> md ''authorization'' = Some (''Bearer '' @ op_token opts)) \<and>
     (\<exists>program args. rq_argv req = program # args \<and> program \<noteq> [] \<and>
        check_command canon (op_policy opts) program = []) \<and>
     uint (rq_timeout_ms req) \<in> {1..86400000}"

lemma admit_call_allowed: "fst (admit canon opts md req) = OK \<longleftrightarrow> call_allowed canon opts md req"
  by (cases "rq_argv req") (auto simp: admit_iff call_allowed_def authenticated_iff)

text \<open>
  Property C16. Nothing is run unless every check passed, for every call, answered or refused: a call that
  lacks authentication, a program, the permission of the policy or a timeout of at most a day has no effect at all;
  one that finds no free slot only takes and gives back its count; any other one claims its slot and then starts
  exactly one command, the requested one with the requested timeout. Every call that is answered leaves the counter as
  it was, it succeeds exactly if it ran the command, and then the reply reports that run.
\<close>

theorem run_only_after_checks:
  "case serve_call canon opts run md req s of (answer, s') \<Rightarrow>
    let free = cw_running s < op_slots opts; spec = spec_of_request opts req in
    (\<exists>es. cw_effects s' = cw_effects s @ es \<and>
       es = (if \<not> call_allowed canon opts md req then []
         else if \<not> free then [Claimed False, Gave_back]
         else [Claimed True, Started_command spec] @ (if answer = None then [] else [Gave_back]))) \<and>
    (case answer of
       None \<Rightarrow> call_allowed canon opts md req \<and> free \<and> run spec = None
     | Some (st, rep) \<Rightarrow> cw_running s' = cw_running s \<and>
         (fst st = OK \<longleftrightarrow> call_allowed canon opts md req \<and> free) \<and>
         rep = (if call_allowed canon opts md req \<and> free then map_option reply_of_output (run spec) else None)) \<and>
    rs_argv spec = rq_argv req \<and> rs_timeout spec = uint (rq_timeout_ms req)"
proof (cases "call_allowed canon opts md req")
  case True
  then have "fst (admit canon opts md req) = OK" by (simp add: admit_call_allowed)
  with True show ?thesis
    by (auto simp: serve_call_def Let_def fetch_claim_def fetch_release_def execute_def claim_slot_def
      release_slot_def status_ok_def slot_refused_def spec_of_request_def not_le split: option.split)
next
  case False
  then have "fst (admit canon opts md req) \<noteq> OK" by (simp add: admit_call_allowed)
  with False show ?thesis by (simp add: serve_call_def Let_def spec_of_request_def)
qed

definition demo_options :: agent_options where
  "demo_options = \<lparr>op_token = ''s3cret'', op_policy = \<lparr>allow = [''/opt/t/''], allow_any = False\<rparr>, op_slots = 1,
     op_labels = [''kvm=true''], op_hostname = ''h'', op_max_output = 64\<rparr>"

definition demo_md :: metadata where
  "demo_md k = (if k = ''authorization'' then Some ''Bearer s3cret'' else None)"

definition demo_request :: run_task_request where
  "demo_request = \<lparr>rq_task_id = ''t'', rq_argv = [''/opt/t/a'', ''-x''], rq_env = [(''A'', ''1'')], rq_timeout_ms = 5000\<rparr>"

definition demo_run :: "run_spec \<Rightarrow> run_output option" where
  "demo_run spec = Some (empty_output\<lparr>ro_outcome := PExited, ro_exit_code := 0\<rparr>)"

subsection \<open>The slot counter\<close>

definition in_call :: "call \<Rightarrow> bool" where
  "in_call c \<longleftrightarrow> c = Executing \<or> c = Refusing"

definition executing :: "slots_state \<Rightarrow> nat" where
  "executing s = length (filter (\<lambda>c. c = Executing) (calls s))"

definition counted :: "slots_state \<Rightarrow> nat" where
  "counted s = length (filter in_call (calls s))"

definition slots_ok :: "agent_options \<Rightarrow> nat \<Rightarrow> slots_state \<Rightarrow> bool" where
  "slots_ok opts n s \<longleftrightarrow> length (calls s) = n \<and> unat (running s) = counted s \<and> executing s \<le> unat (op_slots opts)"

lemma counted_lt:
  assumes "i < length (calls s)" "\<not> in_call (calls s ! i)"
  shows "counted s < length (calls s)"
  unfolding counted_def using assms by (intro length_filter_less [of "calls s ! i"]) auto

lemma executing_le: "executing s \<le> counted s"
  unfolding executing_def counted_def by (rule filter_length_mono) (simp add: in_call_def)

lemma counts_after:
  assumes "i < length (calls s)"
  shows "counted \<lparr>running = r, calls = (calls s)[i := c]\<rparr> + (if in_call (calls s ! i) then 1 else 0) =
      counted s + (if in_call c then 1 else 0)"
    "executing \<lparr>running = r, calls = (calls s)[i := c]\<rparr> + (if calls s ! i = Executing then 1 else 0) =
      executing s + (if c = Executing then 1 else 0)"
  using filter_length_change [OF assms, of in_call c] filter_length_change [OF assms, of "\<lambda>c. c = Executing" c]
  by (simp_all add: counted_def executing_def)

lemma counted_pos:
  assumes "i < length (calls s)" "in_call (calls s ! i)"
  shows "0 < counted s"
  using nth_mem [OF assms(1)] assms(2) by (auto simp: counted_def filter_empty_conv)

lemma unat_release: "0 < n \<Longrightarrow> unat w = n \<Longrightarrow> unat (release_slot w) = n - 1"
  by (metis release_slot_def unat_minus_one unat_0 less_irrefl)

lemma slots_ok_step:
  assumes ok: "slots_ok opts n s" and step: "slot_step opts s e s'" and n: "n < 2 ^ 32"
  shows "slots_ok opts n s'"
  using step
proof cases
  case (claim i claimed r)
  have lt: "counted s < n" using counted_lt [OF claim(3)] claim(4) ok by (simp add: in_call_def slots_ok_def)
  then have r: "unat (running s + 1) = Suc (counted s)"
    using ok n by (simp add: slots_ok_def unat_word_ariths)
  show ?thesis
    using ok counts_after [OF claim(3), of r "if claimed then Executing else Refusing"] claim(4,5) r executing_le [of s]
    unfolding claim(2)
    by (cases claimed) (auto simp: slots_ok_def claim_slot_def in_call_def word_le_nat_alt not_le)
next
  case (refuse i)
  have r: "unat (release_slot (running s)) = counted s - 1"
    using ok counted_pos [OF refuse(3)] refuse(4) by (intro unat_release) (auto simp: slots_ok_def in_call_def)
  show ?thesis
    using ok counts_after [OF refuse(3), of "release_slot (running s)" "Returned (fst slot_refused)"] refuse(4) r
    unfolding refuse(2) by (auto simp: slots_ok_def in_call_def)
next
  case (finish i)
  have r: "unat (release_slot (running s)) = counted s - 1"
    using ok counted_pos [OF finish(3)] finish(4) by (intro unat_release) (auto simp: slots_ok_def in_call_def)
  show ?thesis
    using ok counts_after [OF finish(3), of "release_slot (running s)" "Returned OK"] finish(4) r
    unfolding finish(2) by (auto simp: slots_ok_def in_call_def)
qed

lemma slots_ok_initial: "slots_ok opts n (initial_slots n)"
  by (simp add: slots_ok_def initial_slots_def counted_def executing_def in_call_def)

interpretation slots: transition_system "\<lambda>s. s = initial_slots n" "slot_step opts"
    "\<lambda>s. n < 2 ^ 32 \<longrightarrow> slots_ok opts n s" for n opts
  by unfold_locales (auto simp: slots_ok_initial intro: slots_ok_step)

text \<open>
  Property C17. Slot limit of the agent: whatever the number of calls (below 2^32) and however they
  interleave, at most as many commands are run at once as the agent has slots, and the counter is the number of
  calls between their \<open>fetch_add\<close> and \<open>fetch_sub\<close>: it never wraps around.
\<close>

theorem agent_slots_respected:
  assumes "run_of (slot_step opts) (initial_slots n) es s" "n < 2 ^ 32"
  shows "executing s \<le> unat (op_slots opts) \<and> unat (running s) = counted s"
  using slots.inv_reached [OF refl assms(1)] assms(2) by (simp add: slots_ok_def)

definition race_events :: "slot_event list" where
  "race_events = [Claim 0, Claim 1, GiveBack 0]"

definition race_state :: slots_state where
  "race_state = \<lparr>running = 1, calls = [Returned OK, Refusing, Arrived]\<rparr>"

lemma race_run: "run_of (slot_step demo_options) (initial_slots 3) race_events race_state"
  by (rule slot_replay_run) code_simp

theorem agent_slots_respected_witness: "executing race_state \<le> 1 \<and> unat (running race_state) = 1"
proof -
  have "op_slots demo_options = 1" "counted race_state = 1" by code_simp+
  then show ?thesis using agent_slots_respected [OF race_run] by simp
qed

definition never_refused :: "agent_options \<Rightarrow> nat \<Rightarrow> slots_state \<Rightarrow> bool" where
  "never_refused opts n s \<longleftrightarrow> slots_ok opts n s \<and> (\<forall>c \<in> set (calls s). c = Arrived \<or> c = Executing \<or> c = Returned OK)"

lemma never_refused_step:
  assumes inv: "never_refused opts n s" and step: "slot_step opts s e s'" and n: "n < 2 ^ 32" "n \<le> unat (op_slots opts)"
  shows "never_refused opts n s'"
proof -
  have ok': "slots_ok opts n s'"
    using slots_ok_step [OF _ step n(1)] inv by (simp add: never_refused_def)
  from step show ?thesis
  proof cases
    case (claim i claimed r)
    have "counted s < n" using counted_lt [OF claim(3)] claim(4) inv by (simp add: in_call_def never_refused_def slots_ok_def)
    then have "running s < op_slots opts" using inv n(2) by (simp add: never_refused_def slots_ok_def word_less_nat_alt)
    then have claimed using claim(5) by (auto simp: claim_slot_def not_le)
    then show ?thesis
      using ok' inv set_update_subset_insert [of "calls s" i Executing] unfolding claim(2)
      by (auto simp: never_refused_def)
  next
    case (refuse i)
    then show ?thesis using inv nth_mem [OF refuse(3)] by (auto simp: never_refused_def)
  next
    case (finish i)
    then show ?thesis
      using ok' inv set_update_subset_insert [of "calls s" i "Returned OK"] unfolding finish(2)
      by (auto simp: never_refused_def)
  qed
qed

interpretation unrefused: transition_system "\<lambda>s. s = initial_slots n" "slot_step opts"
    "\<lambda>s. n < 2 ^ 32 \<and> n \<le> unat (op_slots opts) \<longrightarrow> never_refused opts n s" for n opts
proof
  show "s = initial_slots n \<Longrightarrow> n < 2 ^ 32 \<and> n \<le> unat (op_slots opts) \<longrightarrow> never_refused opts n s" for s
    using slots_ok_initial by (auto simp: never_refused_def initial_slots_def)
qed (use never_refused_step in blast)

text \<open>
  No more calls than slots: if no more calls are made in total than the agent has slots, none is answered with the
  concurrency limit, in any interleaving. (A controller that makes more calls, but never has more open at once, is the
  subject of the theory of the fleet.)
\<close>

theorem within_slots_never_refused:
  assumes "run_of (slot_step opts) (initial_slots n) es s" "n \<le> unat (op_slots opts)"
  shows "Refusing \<notin> set (calls s) \<and> Returned RESOURCE_EXHAUSTED \<notin> set (calls s)"
proof -
  have "n < 2 ^ 32" using assms(2) unsigned_less [of "op_slots opts", where 'a = nat] by simp
  then show ?thesis
    using unrefused.inv_reached [OF refl assms(1)] assms(2) by (auto simp: never_refused_def)
qed

theorem within_slots_never_refused_witness:
  "\<exists>s. run_of (slot_step demo_options) (initial_slots 1) [Claim 0, GiveBack 0] s \<and> Refusing \<notin> set (calls s)"
proof -
  have "run_of (slot_step demo_options) (initial_slots 1) [Claim 0, GiveBack 0] \<lparr>running = 0, calls = [Returned OK]\<rparr>"
    by (rule slot_replay_run) code_simp
  moreover have "1 \<le> unat (op_slots demo_options)" by (simp add: demo_options_def)
  ultimately show ?thesis using within_slots_never_refused by blast
qed

text \<open>
  The counter over-counts for a moment: with one slot and three calls, a call can be
  refused although no command is running, because another refused call has not yet given its count back.
\<close>

theorem idle_agent_can_refuse:
  "\<exists>es s s'. run_of (slot_step demo_options) (initial_slots 3) es s \<and> executing s = 0 \<and>
     slot_step demo_options s (Claim 2) s' \<and> calls s' ! 2 = Refusing"
proof -
  have "executing race_state = 0" by code_simp
  moreover have "slot_step demo_options race_state (Claim 2) \<lparr>running = 2, calls = [Returned OK, Refusing, Refusing]\<rparr>"
    by (rule slot_next_step) code_simp
  ultimately show ?thesis using race_run by (metis nth_Cons_0 nth_Cons_Suc numeral_2_eq_2 slots_state.select_convs(2))
qed

end
