(* ===== verification/Json_Values.thy ===== *)
theory Json_Values
  imports Ordered_Map "HOL-Library.Word"
begin

section \<open>JSON values\<close>

text \<open>
  The values of nlohmann/json, which is not part of the repository: integers are signed or unsigned 64-bit
  words (a double is the word of its bits), an object is a \<open>std::map\<close> from keys to values, read through
  \<open>omap_get\<close> and traversed in key order. Job files and the replies of the guest agent are read through
  the accessors below; parsing and printing text are parameters of the models that use them.
\<close>

datatype json =
    JNull
  | JBool bool
  | JInt "64 word"
  | JUInt "64 word"
  | JFloat "64 word"
  | JString string
  | JArray "json list"
  | JObject "(string \<times> json) list"

text \<open>\<open>v.get<long>()\<close> converts an unsigned value to \<open>long\<close> modulo \<open>2 ^ 64\<close>.\<close>

definition json_long :: "json \<Rightarrow> int option" where
  "json_long v = (case v of JInt w \<Rightarrow> Some (sint w) | JUInt w \<Rightarrow> Some (sint w) | _ \<Rightarrow> None)"

definition field :: "json \<Rightarrow> string \<Rightarrow> json option" where
  "field v k = (case v of JObject m \<Rightarrow> omap_get m k | _ \<Rightarrow> None)"

definition as_string :: "json \<Rightarrow> string option" where
  "as_string v = (case v of JString s \<Rightarrow> Some s | _ \<Rightarrow> None)"

definition as_object :: "json \<Rightarrow> (string \<times> json) list option" where
  "as_object v = (case v of JObject m \<Rightarrow> Some m | _ \<Rightarrow> None)"

end
