(* ===== verification/Job_File.thy ===== *)
theory Job_File
  imports Task_Labels Json_Values
begin

section \<open>Job files (dtest/jobs.cpp)\<close>

text \<open>
  \<open>parse_jobs\<close> validates a JSON document and expands it into the list of tasks that the scheduler
  runs. The text-to-JSON step is nlohmann/json, which is not part of the repository: it is the parameter
  \<open>parse\<close>; its values are those of \<open>Json_Values\<close>.
\<close>

record job_file =
  job_name :: string
  job_tasks :: "task list"

record job_parse_result =
  job :: job_file
  error :: string

definition kMaxTasks :: int where
  "kMaxTasks = 100000"

subsection \<open>Typed access to values\<close>

definition is_int_in :: "json \<Rightarrow> int \<Rightarrow> int \<Rightarrow> int option" where
  "is_int_in v lo hi =
     (case json_long v of None \<Rightarrow> None
      | Some x \<Rightarrow> if x < lo \<or> x > hi then None else Some x)"

definition job_where :: "nat \<Rightarrow> json \<Rightarrow> string" where
  "job_where i t =
     ''tasks['' @ show_nat i @ '']'' @
     (case Option.bind (field t ''name'') as_string of
        Some s \<Rightarrow> '' ('' @ CHR 0x27 # s @ [CHR 0x27, CHR '')'']
      | None \<Rightarrow> [])"

fun read_strings :: "json list \<Rightarrow> string list option" where
  "read_strings [] = Some []"
| "read_strings (v # vs) =
     (case v of JString s \<Rightarrow> map_option (Cons s) (read_strings vs) | _ \<Rightarrow> None)"

definition read_string_array :: "json \<Rightarrow> string list option" where
  "read_string_array v = (case v of JArray vs \<Rightarrow> read_strings vs | _ \<Rightarrow> None)"

fun read_env_entries :: "(string \<times> json) list \<Rightarrow> (string, string) omap \<Rightarrow> (string, string) omap option" where
  "read_env_entries [] out = Some out"
| "read_env_entries ((k, v) # m) out =
     (case v of
        JString s \<Rightarrow> if k = [] \<or> has_char (CHR ''='') k then None else read_env_entries m (omap_put k s out)
      | _ \<Rightarrow> None)"

definition read_env :: "json \<Rightarrow> (string, string) omap option" where
  "read_env v = (case v of JObject m \<Rightarrow> read_env_entries m [] | _ \<Rightarrow> None)"

text \<open>The first key, in key order, that is not allowed.\<close>

definition check_keys :: "(string \<times> json) list \<Rightarrow> string list \<Rightarrow> string option" where
  "check_keys m allowed = List.find (\<lambda>k. k \<notin> set allowed) (map fst m)"

text \<open>An optional field: the value read from it, the default if it is absent, an error otherwise.\<close>

definition optional :: "json \<Rightarrow> string \<Rightarrow> (json \<Rightarrow> 'a option) \<Rightarrow> 'a \<Rightarrow> string \<Rightarrow> string + 'a" where
  "optional obj k read dflt msg =
     (case field obj k of None \<Rightarrow> Inr dflt
      | Some v \<Rightarrow> (case read v of None \<Rightarrow> Inl msg | Some x \<Rightarrow> Inr x))"

definition require :: "string \<Rightarrow> 'a option \<Rightarrow> string + 'a" where
  "require msg x = (case x of None \<Rightarrow> Inl msg | Some y \<Rightarrow> Inr y)"

definition guard :: "string \<Rightarrow> bool \<Rightarrow> string + unit" where
  "guard msg b = (if b then Inr () else Inl msg)"

definition only_keys :: "(string \<times> json) list \<Rightarrow> string list \<Rightarrow> (string \<Rightarrow> string) \<Rightarrow> string + unit" where
  "only_keys m allowed msg = (case check_keys m allowed of None \<Rightarrow> Inr () | Some bad \<Rightarrow> Inl (msg bad))"

definition quoted :: "string \<Rightarrow> string" where
  "quoted s = CHR 0x27 # s @ [CHR 0x27]"

subsection \<open>The passes of \<open>parse_jobs\<close>\<close>

definition nonempty_string :: "json \<Rightarrow> string option" where
  "nonempty_string v =
     (case as_string v of Some s \<Rightarrow> if s = [] then None else Some s | None \<Rightarrow> None)"

definition parse_name :: "json \<Rightarrow> string + string" where
  "parse_name doc =
     optional doc ''name'' nonempty_string ''dtest'' (quoted ''name'' @ '' must be a non-empty string'')"

definition parse_defaults_object :: "json \<Rightarrow> string + task" where
  "parse_defaults_object d =
     and_then (require (quoted ''defaults'' @ '' must be an object'') (as_object d)) (\<lambda>m.
     and_then (only_keys m [''timeout_s'', ''retries'', ''env'', ''requires'']
       (\<lambda>bad. ''unknown key '' @ quoted bad @ '' in '' @ quoted ''defaults'')) (\<lambda>_.
     and_then (optional d ''timeout_s'' (\<lambda>v. is_int_in v 1 86400) (timeout_s default_task)
       (quoted ''defaults.timeout_s'' @ '' must be an integer in 1..86400'')) (\<lambda>tm.
     and_then (optional d ''retries'' (\<lambda>v. is_int_in v 0 10) (retries default_task)
       (quoted ''defaults.retries'' @ '' must be an integer in 0..10'')) (\<lambda>rt.
     and_then (optional d ''env'' read_env (task_env default_task)
       (quoted ''defaults.env'' @ '' must be an object of string values'')) (\<lambda>ev.
     and_then (optional d ''requires'' read_string_array (needs default_task)
       (quoted ''defaults.requires'' @ '' must be an array of strings'')) (\<lambda>ns.
     Inr (default_task\<lparr>timeout_s := tm, retries := rt, task_env := ev, needs := ns\<rparr>)))))))"

definition parse_defaults :: "json \<Rightarrow> string + task" where
  "parse_defaults doc =
     (case field doc ''defaults'' of
        None \<Rightarrow> Inr default_task
      | Some d \<Rightarrow> parse_defaults_object d)"

definition read_argv :: "json \<Rightarrow> string list option" where
  "read_argv v =
     (case read_string_array v of
        Some (a # as) \<Rightarrow> if a = [] then None else Some (a # as)
      | _ \<Rightarrow> None)"

definition control_char :: "char \<Rightarrow> bool" where
  "control_char c \<longleftrightarrow> of_char c < (0x20 :: nat)"

text \<open>One entry of \<open>tasks\<close>: the task and how often to repeat it.\<close>

definition parse_entry :: "task \<Rightarrow> string \<Rightarrow> json \<Rightarrow> string + (task \<times> int)" where
  "parse_entry dflt w t =
     and_then (require (w @ '': must be an object'') (as_object t)) (\<lambda>m.
     and_then (only_keys m [''name'', ''argv'', ''env'', ''timeout_s'', ''retries'', ''requires'', ''repeat'']
       (\<lambda>bad. w @ '': unknown key '' @ quoted bad)) (\<lambda>_.
     and_then (require (w @ '': '' @ quoted ''name'' @ '' must be a non-empty string'')
       (Option.bind (field t ''name'') nonempty_string)) (\<lambda>nm.
     and_then (guard (w @ '': '' @ quoted ''name'' @ '' contains control characters'')
       (\<not> list_ex control_char nm)) (\<lambda>_.
     and_then (require (w @ '': '' @ quoted ''argv'' @
         '' must be a non-empty array of strings with a non-empty first element'')
       (Option.bind (field t ''argv'') read_argv)) (\<lambda>av.
     and_then (optional t ''timeout_s'' (\<lambda>v. is_int_in v 1 86400) (timeout_s dflt)
       (w @ '': '' @ quoted ''timeout_s'' @ '' must be an integer in 1..86400'')) (\<lambda>tm.
     and_then (optional t ''retries'' (\<lambda>v. is_int_in v 0 10) (retries dflt)
       (w @ '': '' @ quoted ''retries'' @ '' must be an integer in 0..10'')) (\<lambda>rt.
     and_then (optional t ''env'' (\<lambda>v. map_option (omap_merge (task_env dflt)) (read_env v)) (task_env dflt)
       (w @ '': '' @ quoted ''env'' @ '' must be an object of string values'')) (\<lambda>ev.
     and_then (optional t ''requires'' read_string_array (needs dflt)
       (w @ '': '' @ quoted ''requires'' @ '' must be an array of strings'')) (\<lambda>ns.
     and_then (optional t ''repeat'' (\<lambda>v. is_int_in v 1 1000) 1
       (w @ '': '' @ quoted ''repeat'' @ '' must be an integer in 1..1000'')) (\<lambda>rp.
     Inr (dflt\<lparr>task_name := nm, argv := av, timeout_s := tm, retries := rt,
       task_env := ev, needs := ns\<rparr>, rp)))))))))))"

text \<open>The repetitions of a task; \<open>acc\<close> holds the tasks so far and the set of their names.\<close>

definition copy_name :: "task \<Rightarrow> int \<Rightarrow> nat \<Rightarrow> string" where
  "copy_name t rp i = (if rp > 1 then task_name t @ ''['' @ show_nat i @ '']'' else task_name t)"

type_synonym job_acc = "task list \<times> string set"

fun add_copies :: "string \<Rightarrow> task \<Rightarrow> int \<Rightarrow> nat list \<Rightarrow> job_acc \<Rightarrow> string + job_acc" where
  "add_copies w t rp [] acc = Inr acc"
| "add_copies w t rp (i # is) (ts, names) =
     (let nm = copy_name t rp i in
      if nm \<in> names then Inl (w @ '': duplicate task name '' @ quoted nm)
      else if int (length (ts @ [t\<lparr>task_name := nm\<rparr>])) > kMaxTasks
      then Inl (''too many tasks (limit '' @ show_int kMaxTasks @ '')'')
      else add_copies w t rp is (ts @ [t\<lparr>task_name := nm\<rparr>], insert nm names))"

fun parse_tasks :: "task \<Rightarrow> nat \<Rightarrow> json list \<Rightarrow> job_acc \<Rightarrow> string + job_acc" where
  "parse_tasks dflt idx [] acc = Inr acc"
| "parse_tasks dflt idx (t # rest) acc =
     and_then (parse_entry dflt (job_where idx t) t) (\<lambda>(task, rp).
     and_then (add_copies (job_where idx t) task rp [1..<Suc (nat rp)] acc) (\<lambda>acc'.
     parse_tasks dflt (Suc idx) rest acc'))"

definition task_array :: "json \<Rightarrow> json list option" where
  "task_array doc =
     (case field doc ''tasks'' of
        Some (JArray (t # ts)) \<Rightarrow> Some (t # ts)
      | _ \<Rightarrow> None)"

definition parse_body :: "json \<Rightarrow> string + job_acc" where
  "parse_body doc =
     and_then (parse_defaults doc) (\<lambda>dflt.
     and_then (require (quoted ''tasks'' @ '' must be a non-empty array'') (task_array doc)) (\<lambda>ts.
     parse_tasks dflt 0 ts ([], {})))"

definition parse_head :: "json \<Rightarrow> string + string" where
  "parse_head doc =
     and_then (require ''job file must be a JSON object'' (as_object doc)) (\<lambda>m.
     and_then (only_keys m [''name'', ''defaults'', ''tasks''] (\<lambda>bad. ''unknown top-level key '' @ quoted bad)) (\<lambda>_.
     parse_name doc))"

text \<open>
  Every failing branch of \<open>parse_jobs\<close> clears the tasks and keeps the name, if it was read before.
\<close>

definition job_failure :: "string \<Rightarrow> string \<Rightarrow> job_parse_result" where
  "job_failure nm msg = \<lparr>job = \<lparr>job_name = nm, job_tasks = []\<rparr>, error = msg\<rparr>"

definition parse_jobs :: "(string \<Rightarrow> json option) \<Rightarrow> string \<Rightarrow> job_parse_result" where
  "parse_jobs parse txt =
     (case and_then (require ''job file is not valid JSON'' (parse txt)) (\<lambda>doc.
             and_then (parse_head doc) (\<lambda>nm. Inr (doc, nm))) of
        Inl msg \<Rightarrow> job_failure ''dtest'' msg
      | Inr (doc, nm) \<Rightarrow>
          (case parse_body doc of
             Inl msg \<Rightarrow> job_failure nm msg
           | Inr (ts, _) \<Rightarrow> \<lparr>job = \<lparr>job_name = nm, job_tasks = ts\<rparr>, error = []\<rparr>))"

end
