(* ===== verification/Job_Properties.thy ===== *)
theory Job_Properties
  imports Job_File
begin

section \<open>What an accepted job file guarantees\<close>

text \<open>
  An accepted job file yields well-formed tasks with distinct names, in the order of the file and with
  repetitions expanded; a rejected one yields a message and no task; and every well-formed
  task list can be written as a job file.
\<close>

subsection \<open>Well-formed tasks\<close>

definition env_wf :: "(string, string) omap \<Rightarrow> bool" where
  "env_wf m \<longleftrightarrow> omap_ok m \<and> list_all (\<lambda>(k, v). k \<noteq> [] \<and> \<not> has_char (CHR ''='') k) m"

definition name_wf :: "string \<Rightarrow> bool" where
  "name_wf nm \<longleftrightarrow> nm \<noteq> [] \<and> \<not> list_ex control_char nm"

definition task_wf :: "task \<Rightarrow> bool" where
  "task_wf t \<longleftrightarrow> name_wf (task_name t) \<and> argv t \<noteq> [] \<and> hd (argv t) \<noteq> [] \<and>
     1 \<le> timeout_s t \<and> timeout_s t \<le> 86400 \<and> 0 \<le> retries t \<and> retries t \<le> 10 \<and> env_wf (task_env t)"

definition dflt_wf :: "task \<Rightarrow> bool" where
  "dflt_wf t \<longleftrightarrow> 1 \<le> timeout_s t \<and> timeout_s t \<le> 86400 \<and> 0 \<le> retries t \<and> retries t \<le> 10 \<and> env_wf (task_env t)"

text \<open>The value an optional field contributes, if it is acceptable.\<close>

definition opt_val :: "json \<Rightarrow> string \<Rightarrow> (json \<Rightarrow> 'a option) \<Rightarrow> 'a \<Rightarrow> 'a option" where
  "opt_val obj k read dflt = (case field obj k of None \<Rightarrow> Some dflt | Some v \<Rightarrow> read v)"

lemma optional_Inr: "optional obj k read dflt msg = Inr x \<longleftrightarrow> opt_val obj k read dflt = Some x"
  by (auto simp: optional_def opt_val_def split: option.splits)

lemma optional_Inl: "optional obj k read dflt msg = Inl e \<Longrightarrow> e = msg"
  by (auto simp: optional_def split: option.splits)

lemma require_Inr: "require msg x = Inr y \<longleftrightarrow> x = Some y"
  by (auto simp: require_def split: option.splits)

lemma guard_Inr: "guard msg b = Inr u \<longleftrightarrow> b"
  by (simp add: guard_def)

lemma only_keys_Inr: "only_keys m allowed msg = Inr u \<longleftrightarrow> check_keys m allowed = None"
  by (auto simp: only_keys_def split: option.splits)

lemma as_object_Some: "as_object v = Some m \<longleftrightarrow> v = JObject m"
  by (auto simp: as_object_def split: json.splits)

lemmas step_Inr = and_then_Inr optional_Inr require_Inr guard_Inr only_keys_Inr as_object_Some

lemma is_int_in_Some: "is_int_in v lo hi = Some x \<Longrightarrow> lo \<le> x \<and> x \<le> hi"
  by (auto simp: is_int_in_def split: option.splits if_splits)

lemma opt_val_int:
  "opt_val obj k (\<lambda>v. is_int_in v lo hi) d = Some x \<Longrightarrow> lo \<le> d \<Longrightarrow> d \<le> hi \<Longrightarrow> lo \<le> x \<and> x \<le> hi"
  by (auto simp: opt_val_def is_int_in_Some split: option.splits)

lemma env_wf_put:
  assumes "env_wf m" "k \<noteq> []" "\<not> has_char (CHR ''='') k"
  shows "env_wf (omap_put k v m)"
proof -
  have "fst ` set (omap_put k v m) = insert k (fst ` set m)" by (rule omap_put_keys)
  then have "list_all (\<lambda>(k, v). k \<noteq> [] \<and> \<not> has_char (CHR ''='') k) (omap_put k v m) \<longleftrightarrow>
      (\<forall>k \<in> insert k (fst ` set m). k \<noteq> [] \<and> \<not> has_char (CHR ''='') k)"
    by (simp add: list_all_iff split_beta flip: \<open>fst ` set (omap_put k v m) = _\<close>)
  then show ?thesis using assms by (auto simp: env_wf_def list_all_iff omap_ok_put)
qed

lemma read_env_entries_wf: "read_env_entries m out = Some env \<Longrightarrow> env_wf out \<Longrightarrow> env_wf env"
  by (induction m out arbitrary: env rule: read_env_entries.induct)
    (auto split: json.splits if_splits intro: env_wf_put)

lemma read_env_wf: "read_env v = Some env \<Longrightarrow> env_wf env"
  by (auto simp: read_env_def env_wf_def [of "[]"] split: json.splits dest: read_env_entries_wf)

lemma env_wf_merge: "env_wf m \<Longrightarrow> env_wf own \<Longrightarrow> env_wf (omap_merge m own)"
proof -
  have "env_wf m \<Longrightarrow> list_all (\<lambda>(k, v). k \<noteq> [] \<and> \<not> has_char (CHR ''='') k) own \<Longrightarrow>
      env_wf (fold (\<lambda>(k, v). omap_put k v) own m)"
    by (induction own arbitrary: m) (auto intro: env_wf_put)
  then show "env_wf m \<Longrightarrow> env_wf own \<Longrightarrow> ?thesis"
    unfolding omap_merge_def by (simp add: env_wf_def [of own])
qed

lemma dflt_wf_default: "dflt_wf default_task"
  by (simp add: dflt_wf_def default_task_def env_wf_def)

lemma parse_defaults_object_Inr:
  "parse_defaults_object v = Inr d \<longleftrightarrow>
     (\<exists>m. v = JObject m \<and> check_keys m [''timeout_s'', ''retries'', ''env'', ''requires''] = None \<and>
     (\<exists>tm. opt_val v ''timeout_s'' (\<lambda>v. is_int_in v 1 86400) (timeout_s default_task) = Some tm \<and>
     (\<exists>rt. opt_val v ''retries'' (\<lambda>v. is_int_in v 0 10) (retries default_task) = Some rt \<and>
     (\<exists>ev. opt_val v ''env'' read_env (task_env default_task) = Some ev \<and>
     (\<exists>ns. opt_val v ''requires'' read_string_array (needs default_task) = Some ns \<and>
     default_task\<lparr>timeout_s := tm, retries := rt, task_env := ev, needs := ns\<rparr> = d)))))"
  unfolding parse_defaults_object_def by (simp only: step_Inr sum.inject ex_simps simp_thms)

lemma parse_defaults_wf:
  assumes "parse_defaults v = Inr d"
  shows "dflt_wf d"
proof (cases "field v ''defaults''")
  case None
  then show ?thesis using assms dflt_wf_default by (simp add: parse_defaults_def)
next
  case (Some v')
  then have "parse_defaults_object v' = Inr d" using assms by (simp add: parse_defaults_def)
  then obtain tm rt ev ns where
    ints: "opt_val v' ''timeout_s'' (\<lambda>v. is_int_in v 1 86400) (timeout_s default_task) = Some tm"
      "opt_val v' ''retries'' (\<lambda>v. is_int_in v 0 10) (retries default_task) = Some rt"
    and ev: "opt_val v' ''env'' read_env (task_env default_task) = Some ev"
    and d: "default_task\<lparr>timeout_s := tm, retries := rt, task_env := ev, needs := ns\<rparr> = d"
    unfolding parse_defaults_object_Inr by blast
  have "env_wf ev"
    using ev by (auto simp: opt_val_def default_task_def env_wf_def [of "[]"] split: option.splits dest: read_env_wf)
  moreover have "1 \<le> tm \<and> tm \<le> 86400" "0 \<le> rt \<and> rt \<le> 10"
    using opt_val_int [OF ints(1)] opt_val_int [OF ints(2)] by (simp_all add: default_task_def)
  ultimately show ?thesis using d by (auto simp: dflt_wf_def)
qed

lemma parse_entry_Inr:
  "parse_entry dflt w v = Inr (t, rp) \<longleftrightarrow>
     (\<exists>m. v = JObject m \<and>
        check_keys m [''name'', ''argv'', ''env'', ''timeout_s'', ''retries'', ''requires'', ''repeat''] = None \<and>
     (\<exists>nm. Option.bind (field v ''name'') nonempty_string = Some nm \<and> \<not> list_ex control_char nm \<and>
     (\<exists>av. Option.bind (field v ''argv'') read_argv = Some av \<and>
     (\<exists>tm. opt_val v ''timeout_s'' (\<lambda>v. is_int_in v 1 86400) (timeout_s dflt) = Some tm \<and>
     (\<exists>rt. opt_val v ''retries'' (\<lambda>v. is_int_in v 0 10) (retries dflt) = Some rt \<and>
     (\<exists>ev. opt_val v ''env'' (\<lambda>v. map_option (omap_merge (task_env dflt)) (read_env v)) (task_env dflt) = Some ev \<and>
     (\<exists>ns. opt_val v ''requires'' read_string_array (needs dflt) = Some ns \<and>
     (\<exists>rp'. opt_val v ''repeat'' (\<lambda>v. is_int_in v 1 1000) 1 = Some rp' \<and>
        dflt\<lparr>task_name := nm, argv := av, timeout_s := tm, retries := rt, task_env := ev, needs := ns\<rparr> = t \<and>
        rp' = rp))))))))"
  unfolding parse_entry_def by (simp only: step_Inr sum.inject prod.inject ex_simps simp_thms)

lemma read_argv_wf: "read_argv v = Some as \<Longrightarrow> as \<noteq> [] \<and> hd as \<noteq> []"
  by (auto simp: read_argv_def split: option.splits list.splits if_splits)

lemma parse_entry_wf:
  assumes "parse_entry dflt w v = Inr (t, rp)" "dflt_wf dflt"
  shows "task_wf t \<and> 1 \<le> rp \<and> rp \<le> 1000"
proof -
  obtain nm av tm rt ev ns where
    t: "dflt\<lparr>task_name := nm, argv := av, timeout_s := tm, retries := rt, task_env := ev, needs := ns\<rparr> = t"
    and nm: "Option.bind (field v ''name'') nonempty_string = Some nm" "\<not> list_ex control_char nm"
    and av: "Option.bind (field v ''argv'') read_argv = Some av"
    and ints: "opt_val v ''timeout_s'' (\<lambda>v. is_int_in v 1 86400) (timeout_s dflt) = Some tm"
      "opt_val v ''retries'' (\<lambda>v. is_int_in v 0 10) (retries dflt) = Some rt"
      "opt_val v ''repeat'' (\<lambda>v. is_int_in v 1 1000) 1 = Some rp"
    and ev: "opt_val v ''env'' (\<lambda>v. map_option (omap_merge (task_env dflt)) (read_env v)) (task_env dflt) = Some ev"
    using assms(1) unfolding parse_entry_Inr by blast
  have "env_wf ev"
    using ev assms(2) by (auto simp: opt_val_def dflt_wf_def split: option.splits dest: read_env_wf intro: env_wf_merge)
  then show ?thesis
    using opt_val_int [OF ints(1)] opt_val_int [OF ints(2)] opt_val_int [OF ints(3)] nm av assms(2)
    by (auto simp: t [symmetric] task_wf_def name_wf_def dflt_wf_def bind_eq_Some_conv nonempty_string_def
        split: option.splits if_splits dest: read_argv_wf)
qed

subsection \<open>Expansion of repetitions\<close>

definition task_copy :: "task \<Rightarrow> int \<Rightarrow> nat \<Rightarrow> task" where
  "task_copy t rp i = t\<lparr>task_name := copy_name t rp i\<rparr>"

definition expand :: "task \<times> int \<Rightarrow> task list" where
  "expand e = map (task_copy (fst e) (snd e)) [1..<Suc (nat (snd e))]"

definition names_of :: "task list \<Rightarrow> string list" where
  "names_of ts = map task_name ts"

text \<open>The accumulator of the loop: distinct names, all of them in the set, within the limit.\<close>

definition acc_ok :: "job_acc \<Rightarrow> bool" where
  "acc_ok acc \<longleftrightarrow> distinct (names_of (fst acc)) \<and> snd acc = set (names_of (fst acc)) \<and> int (length (fst acc)) \<le> kMaxTasks"

definition fits :: "task list \<Rightarrow> bool" where
  "fits ts \<longleftrightarrow> distinct (names_of ts) \<and> int (length ts) \<le> kMaxTasks"

lemma acc_ok_fits: "acc_ok (ts, ns) \<longleftrightarrow> fits ts \<and> ns = set (names_of ts)"
  by (auto simp: acc_ok_def fits_def)

lemma fits_append: "fits (xs @ ys) \<Longrightarrow> fits xs"
  by (auto simp: fits_def names_of_def)

lemma add_copies_Inr:
  assumes "acc_ok (ts, ns)"
  shows "add_copies w t rp is (ts, ns) = Inr acc \<longleftrightarrow>
    fits (ts @ map (task_copy t rp) is) \<and>
    acc = (ts @ map (task_copy t rp) is, set (names_of (ts @ map (task_copy t rp) is)))"
  using assms
proof (induction "is" arbitrary: ts ns)
  case Nil
  then show ?case by (auto simp: acc_ok_fits)
next
  case (Cons i "is")
  let ?c = "task_copy t rp i"
  let ?ok = "copy_name t rp i \<notin> ns \<and> int (length (ts @ [?c])) \<le> kMaxTasks"
  have ok: "?ok \<longleftrightarrow> fits (ts @ [?c])"
    using Cons.prems by (auto simp: acc_ok_fits fits_def names_of_def task_copy_def)
  have step: "add_copies w t rp (i # is) (ts, ns) = Inr acc \<longleftrightarrow>
      ?ok \<and> add_copies w t rp is (ts @ [?c], insert (copy_name t rp i) ns) = Inr acc"
    by (auto simp: Let_def task_copy_def)
  show ?case
  proof (cases "fits (ts @ [?c])")
    case True
    moreover have "insert (copy_name t rp i) ns = set (names_of (ts @ [?c]))"
      using Cons.prems by (auto simp: acc_ok_fits names_of_def task_copy_def)
    ultimately have "acc_ok (ts @ [?c], insert (copy_name t rp i) ns)" by (simp add: acc_ok_fits)
    from Cons.IH [OF this] show ?thesis using ok True unfolding step by simp
  next
    case False
    then have "\<not> fits ((ts @ [?c]) @ map (task_copy t rp) is)" using fits_append by blast
    then show ?thesis using False ok unfolding step by auto
  qed
qed

definition accepts :: "task \<Rightarrow> json \<Rightarrow> task \<times> int \<Rightarrow> bool" where
  "accepts dflt v e \<longleftrightarrow> parse_entry dflt [] v = Inr e"

lemma parse_entry_accepts: "parse_entry dflt w v = Inr e \<longleftrightarrow> accepts dflt v e"
  by (cases e) (simp add: accepts_def parse_entry_Inr)

lemma parse_tasks_Inr:
  assumes "acc_ok acc"
  shows "parse_tasks dflt idx vs acc = Inr acc' \<longleftrightarrow>
    (\<exists>es. list_all2 (accepts dflt) vs es \<and>
       (let out = fst acc @ concat (map expand es) in fits out \<and> acc' = (out, set (names_of out))))"
  using assms
proof (induction vs arbitrary: idx acc)
  case Nil
  then show ?case by (cases acc) (auto simp: acc_ok_fits)
next
  case (Cons v vs)
  obtain ts ns where acc: "acc = (ts, ns)" by (cases acc)
  show ?case
  proof
    assume "parse_tasks dflt idx (v # vs) acc = Inr acc'"
    then obtain t rp acc1 where e: "accepts dflt v (t, rp)"
      and a: "add_copies (job_where idx v) t rp [1..<Suc (nat rp)] acc = Inr acc1"
      and r: "parse_tasks dflt (Suc idx) vs acc1 = Inr acc'"
      by (auto simp: and_then_Inr parse_entry_accepts simp del: upt_Suc)
    from a Cons.prems have acc1: "fits (ts @ expand (t, rp))"
        "acc1 = (ts @ expand (t, rp), set (names_of (ts @ expand (t, rp))))"
      unfolding acc by (simp_all add: add_copies_Inr expand_def del: upt_Suc)
    then have "acc_ok acc1" by (simp add: acc_ok_fits)
    from Cons.IH [OF this] r acc1(2) obtain es where "list_all2 (accepts dflt) vs es"
      "fits ((ts @ expand (t, rp)) @ concat (map expand es))"
      "acc' = ((ts @ expand (t, rp)) @ concat (map expand es),
         set (names_of ((ts @ expand (t, rp)) @ concat (map expand es))))"
      by (auto simp: Let_def)
    with e acc show "\<exists>es. list_all2 (accepts dflt) (v # vs) es \<and>
       (let out = fst acc @ concat (map expand es) in fits out \<and> acc' = (out, set (names_of out)))"
      by (intro exI [of _ "(t, rp) # es"]) (simp add: Let_def)
  next
    assume "\<exists>es. list_all2 (accepts dflt) (v # vs) es \<and>
       (let out = fst acc @ concat (map expand es) in fits out \<and> acc' = (out, set (names_of out)))"
    then obtain t rp es where e: "accepts dflt v (t, rp)" "list_all2 (accepts dflt) vs es"
      and out: "fits ((ts @ expand (t, rp)) @ concat (map expand es))"
        "acc' = ((ts @ expand (t, rp)) @ concat (map expand es),
          set (names_of ((ts @ expand (t, rp)) @ concat (map expand es))))"
      unfolding acc list_all2_Cons1 by (auto simp: Let_def)
    let ?acc1 = "(ts @ expand (t, rp), set (names_of (ts @ expand (t, rp))))"
    have f: "fits (ts @ expand (t, rp))" using out(1) by (rule fits_append)
    then have "add_copies (job_where idx v) t rp [1..<Suc (nat rp)] acc = Inr ?acc1"
      using Cons.prems unfolding acc by (simp add: add_copies_Inr expand_def del: upt_Suc)
    moreover have "acc_ok ?acc1" using f by (simp add: acc_ok_fits)
    from Cons.IH [OF this, of "Suc idx"] have "parse_tasks dflt (Suc idx) vs ?acc1 = Inr acc'"
      using e(2) out by (auto simp: Let_def)
    ultimately show "parse_tasks dflt idx (v # vs) acc = Inr acc'"
      using e(1) by (auto simp: and_then_Inr parse_entry_accepts simp del: upt_Suc)
  qed
qed

subsection \<open>Results\<close>

lemma parse_body_Inr:
  "parse_body doc = Inr acc \<longleftrightarrow>
     (\<exists>dflt vs es. parse_defaults doc = Inr dflt \<and> task_array doc = Some vs \<and>
        list_all2 (accepts dflt) vs es \<and> fits (concat (map expand es)) \<and>
        acc = (concat (map expand es), set (names_of (concat (map expand es)))))"
proof -
  have "acc_ok ([], {})" by (simp add: acc_ok_def names_of_def kMaxTasks_def)
  then show ?thesis
    unfolding parse_body_def step_Inr by (subst parse_tasks_Inr) (auto simp: Let_def)
qed

lemma text_nonempty [simp]: "quoted s \<noteq> []"
  by (simp add: quoted_def)

lemma parse_entry_msg: "parse_entry dflt w v = Inl msg \<Longrightarrow> msg \<noteq> []"
  unfolding parse_entry_def and_then_Inl
  by (auto simp: and_then_Inl require_def guard_def only_keys_def dest: optional_Inl split: option.splits if_splits)

lemma add_copies_msg: "add_copies w t rp is acc = Inl msg \<Longrightarrow> msg \<noteq> []"
  by (induction w t rp "is" acc rule: add_copies.induct) (auto simp: Let_def split: if_splits)

lemma parse_tasks_msg: "parse_tasks dflt idx vs acc = Inl msg \<Longrightarrow> msg \<noteq> []"
  by (induction dflt idx vs acc rule: parse_tasks.induct)
    (auto simp: and_then_Inl split: prod.splits dest: parse_entry_msg add_copies_msg simp del: upt_Suc)

lemma parse_body_msg: "parse_body doc = Inl msg \<Longrightarrow> msg \<noteq> []"
  unfolding parse_body_def parse_defaults_def parse_defaults_object_def
  by (auto simp: and_then_Inl require_def only_keys_def
      dest: optional_Inl parse_tasks_msg split: option.splits)

lemma parse_head_msg: "parse_head doc = Inl msg \<Longrightarrow> msg \<noteq> []"
  unfolding parse_head_def parse_name_def
  by (auto simp: and_then_Inl require_def only_keys_def dest: optional_Inl split: option.splits)

lemma parse_jobs_ok:
  "error (parse_jobs parse txt) = [] \<longleftrightarrow>
     (\<exists>doc nm acc. parse txt = Some doc \<and> parse_head doc = Inr nm \<and> parse_body doc = Inr acc \<and>
        parse_jobs parse txt = \<lparr>job = \<lparr>job_name = nm, job_tasks = fst acc\<rparr>, error = []\<rparr>)"
proof (cases "parse txt")
  case None
  then show ?thesis by (simp add: parse_jobs_def require_def job_failure_def)
next
  case (Some doc)
  show ?thesis
  proof (cases "parse_head doc")
    case (Inl msg)
    then show ?thesis using Some parse_head_msg [OF Inl] by (simp add: parse_jobs_def require_def job_failure_def)
  next
    case (Inr nm)
    then show ?thesis
      using Some parse_body_msg [of doc]
      by (cases "parse_body doc") (auto simp: parse_jobs_def require_def job_failure_def)
  qed
qed

lemma accepts_wf: "accepts dflt v e \<Longrightarrow> dflt_wf dflt \<Longrightarrow> task_wf (fst e) \<and> 1 \<le> snd e \<and> snd e \<le> 1000"
  by (cases e) (auto simp: accepts_def dest: parse_entry_wf)

lemma control_char_digit: "\<not> list_ex control_char (show_nat n)"
  using show_nat_digits [of _ n] by (force simp: list_ex_iff control_char_def)

lemma copy_name_wf: "name_wf (task_name t) \<Longrightarrow> name_wf (copy_name t rp i)"
  using control_char_digit [of i]
  by (auto simp: copy_name_def name_wf_def list_ex_append) (simp_all add: control_char_def)

lemma task_copy_wf: "task_wf t \<Longrightarrow> task_wf (task_copy t rp i)"
  by (simp add: task_wf_def task_copy_def copy_name_wf)

lemma expand_wf: "list_all2 (accepts dflt) vs es \<Longrightarrow> dflt_wf dflt \<Longrightarrow> list_all task_wf (concat (map expand es))"
proof (induction rule: list_all2_induct)
  case (Cons v vs e es)
  then have "task_wf (fst e)" using accepts_wf by blast
  with Cons show ?case by (auto simp: expand_def list_all_iff task_copy_wf simp del: upt_Suc)
qed simp

lemma expand_nonempty:
  assumes "list_all2 (accepts dflt) vs es" "dflt_wf dflt" "vs \<noteq> []"
  shows "concat (map expand es) \<noteq> []"
proof -
  obtain v vs' e es' where "vs = v # vs'" "es = e # es'" "accepts dflt v e"
    using assms(1,3) by (cases vs) (auto simp: list_all2_Cons1)
  then have "1 \<le> snd e" using accepts_wf assms(2) by blast
  then show ?thesis by (auto simp: \<open>es = e # es'\<close> expand_def)
qed

lemma task_array_nonempty: "task_array doc = Some vs \<Longrightarrow> vs \<noteq> []"
  by (auto simp: task_array_def split: option.splits json.splits list.splits)

subsection \<open>Properties\<close>

definition job_tasks_wf :: "task list \<Rightarrow> bool" where
  "job_tasks_wf ts \<longleftrightarrow> ts \<noteq> [] \<and> list_all task_wf ts \<and> fits ts"

lemma parsed_wf:
  assumes "error (parse_jobs parse txt) = []"
  shows "job_tasks_wf (job_tasks (job (parse_jobs parse txt)))"
proof -
  obtain doc nm acc where body: "parse_body doc = Inr acc"
    and r: "parse_jobs parse txt = \<lparr>job = \<lparr>job_name = nm, job_tasks = fst acc\<rparr>, error = []\<rparr>"
    using assms unfolding parse_jobs_ok by blast
  then obtain dflt vs es where d: "parse_defaults doc = Inr dflt" and v: "task_array doc = Some vs"
    and es: "list_all2 (accepts dflt) vs es" "fits (concat (map expand es))"
    and acc: "fst acc = concat (map expand es)"
    unfolding parse_body_Inr by auto
  have wf: "dflt_wf dflt" using d by (rule parse_defaults_wf)
  show ?thesis
    using expand_wf [OF es(1) wf] expand_nonempty [OF es(1) wf task_array_nonempty [OF v]] es(2)
    by (simp add: r acc job_tasks_wf_def)
qed

text \<open>
  Property C9. An accepted job file has between one and 100000 tasks, no two with the same name,
  and each is well formed: a non-empty name without control characters, a program to run, a timeout in
  1..86400 seconds, 0 to 10 retries, and environment names that are non-empty and have no equals sign.
\<close>

theorem accepted_tasks_wf:
  assumes "error (parse_jobs parse txt) = []"
  shows "job_tasks_wf (job_tasks (job (parse_jobs parse txt)))"
  using assms by (rule parsed_wf)

definition demo_doc :: json where
  "demo_doc = JObject
     [(''defaults'', JObject [(''retries'', JUInt 2)]),
      (''name'', JString ''nightly''),
      (''tasks'', JArray
        [JObject [(''argv'', JArray [JString ''/bin/true'']), (''name'', JString ''t''), (''repeat'', JUInt 2)],
         JObject [(''argv'', JArray [JString ''/bin/vmtest'']), (''env'', JObject [(''A'', JString ''1'')]),
           (''name'', JString ''vm''), (''requires'', JArray [JString ''kvm=true'']), (''retries'', JUInt 0)]])]"

definition demo_parse :: "string \<Rightarrow> json option" where
  "demo_parse txt = (if txt = ''demo'' then Some demo_doc else None)"

lemma demo_accepted:
  "names_of (job_tasks (job (parse_jobs demo_parse ''demo''))) = [''t[1]'', ''t[2]'', ''vm'']"
  "error (parse_jobs demo_parse ''demo'') = []"
  by code_simp+

theorem accepted_tasks_wf_witness: "job_tasks_wf (job_tasks (job (parse_jobs demo_parse ''demo'')))"
  using accepted_tasks_wf [OF demo_accepted(2)] .

text \<open>
  A rejected job file has no tasks, and only a rejected one has a message: the caller can
  tell success from failure by the message alone.
\<close>

theorem rejected_has_message:
  "error (parse_jobs parse txt) \<noteq> [] \<longleftrightarrow> job_tasks (job (parse_jobs parse txt)) = []"
proof (cases "error (parse_jobs parse txt) = []")
  case True
  then obtain doc nm acc where body: "parse_body doc = Inr acc"
    and r: "parse_jobs parse txt = \<lparr>job = \<lparr>job_name = nm, job_tasks = fst acc\<rparr>, error = []\<rparr>"
    unfolding parse_jobs_ok by blast
  then have "fst acc \<noteq> []"
    using expand_nonempty parse_defaults_wf task_array_nonempty unfolding parse_body_Inr by fastforce
  then show ?thesis using True r by simp
next
  case False
  then show ?thesis
    by (auto simp: parse_jobs_def job_failure_def split: sum.splits prod.splits)
qed

text \<open>
  Property C10. The tasks are the entries of the file in order, each expanded in place: an
  entry with \<open>repeat\<close> n above 1 becomes n copies named \<open>name[1]\<close> to \<open>name[n]\<close> and otherwise
  equal. A document with a valid head and valid defaults is accepted exactly when every
  entry is valid and the expanded tasks have distinct names and are at most 100000.
\<close>

theorem tasks_are_expanded_entries:
  assumes "parse txt = Some doc" "parse_head doc = Inr nm" "parse_defaults doc = Inr dflt"
    and "task_array doc = Some vs"
  shows "parse_jobs parse txt = \<lparr>job = \<lparr>job_name = nm, job_tasks = out\<rparr>, error = []\<rparr> \<longleftrightarrow>
    (\<exists>es. list_all2 (accepts dflt) vs es \<and> out = concat (map expand es) \<and>
       distinct (map task_name out) \<and> length out \<le> 100000)"
proof -
  have "parse_jobs parse txt = \<lparr>job = \<lparr>job_name = nm, job_tasks = out\<rparr>, error = []\<rparr> \<longleftrightarrow>
      (\<exists>acc. parse_body doc = Inr acc \<and> out = fst acc)"
    using parse_body_msg [of doc] assms(1,2)
    by (cases "parse_body doc") (auto simp: parse_jobs_def require_def job_failure_def split: prod.splits)
  also have "\<dots> \<longleftrightarrow> (\<exists>es. list_all2 (accepts dflt) vs es \<and> fits (concat (map expand es)) \<and> out = concat (map expand es))"
    unfolding parse_body_Inr using assms(3,4) by auto
  also have "\<dots> \<longleftrightarrow> (\<exists>es. list_all2 (accepts dflt) vs es \<and> out = concat (map expand es) \<and>
      distinct (map task_name out) \<and> length out \<le> 100000)"
    by (auto simp: fits_def names_of_def kMaxTasks_def)
  finally show ?thesis .
qed

lemma demo_tasks_split:
  "parse_head demo_doc = Inr ''nightly''"
  "parse_defaults demo_doc = Inr (default_task\<lparr>retries := 2\<rparr>)"
  "map_option length (task_array demo_doc) = Some 2"
  by code_simp+

theorem tasks_are_expanded_entries_witness:
  "\<exists>es. concat (map expand es) = job_tasks (job (parse_jobs demo_parse ''demo'')) \<and> length es = 2"
proof -
  obtain vs where vs: "task_array demo_doc = Some vs" "length vs = 2"
    using demo_tasks_split(3) by auto
  have p: "demo_parse ''demo'' = Some demo_doc" by (simp add: demo_parse_def)
  obtain out where out: "parse_jobs demo_parse ''demo'' = \<lparr>job = \<lparr>job_name = ''nightly'', job_tasks = out\<rparr>, error = []\<rparr>"
    using demo_accepted(2) demo_tasks_split(1) p unfolding parse_jobs_ok by auto
  then obtain es where "list_all2 (accepts (default_task\<lparr>retries := 2\<rparr>)) vs es" "out = concat (map expand es)"
    using tasks_are_expanded_entries [of demo_parse "''demo''", OF p demo_tasks_split(1,2) vs(1)] by blast
  moreover from this have "length es = 2" using vs(2) by (auto dest: list_all2_lengthD)
  ultimately show ?thesis using out by auto
qed

subsection \<open>Writing a job file\<close>

text \<open>The canonical document of a list of tasks: every field is given, nothing is repeated.\<close>

definition env_json :: "(string, string) omap \<Rightarrow> json" where
  "env_json env = JObject (map (\<lambda>(k, v). (k, JString v)) env)"

definition nat_json :: "int \<Rightarrow> json" where
  "nat_json i = JUInt (word_of_int i)"

definition task_json :: "task \<Rightarrow> json" where
  "task_json t = JObject
     [(''argv'', JArray (map JString (argv t))),
      (''env'', env_json (task_env t)),
      (''name'', JString (task_name t)),
      (''requires'', JArray (map JString (needs t))),
      (''retries'', nat_json (retries t)),
      (''timeout_s'', nat_json (timeout_s t))]"

definition job_json :: "string \<Rightarrow> task list \<Rightarrow> json" where
  "job_json nm ts = JObject [(''name'', JString nm), (''tasks'', JArray (map task_json ts))]"

lemma read_strings_map [simp]: "read_strings (map JString ss) = Some ss"
  by (induction ss) auto

lemma read_string_array_JArray [simp]: "read_string_array (JArray (map JString ss)) = Some ss"
  by (simp add: read_string_array_def)

lemma is_int_in_nat_json:
  assumes "0 \<le> lo" "lo \<le> i" "i \<le> hi" "hi < 2 ^ 63"
  shows "is_int_in (nat_json i) lo hi = Some i"
proof -
  have "sint (word_of_int i :: 64 word) = i"
    using assms by (simp add: sint_sbintrunc' signed_take_bit_int_eq_self)
  then show ?thesis using assms by (simp add: is_int_in_def nat_json_def json_long_def)
qed

lemma read_env_entries_json:
  "list_all (\<lambda>(k, v). k \<noteq> [] \<and> \<not> has_char (CHR ''='') k) m \<Longrightarrow>
     read_env_entries (map (\<lambda>(k, v). (k, JString v)) m) out = Some (omap_merge out m)"
  by (induction m arbitrary: out) (auto simp: omap_merge_def)

lemma read_env_json: "env_wf m \<Longrightarrow> read_env (env_json m) = Some m"
  by (simp add: read_env_def env_json_def env_wf_def read_env_entries_json omap_merge_Nil)

lemma accepts_task_json:
  assumes "task_wf t"
  shows "accepts default_task (task_json t) (t, 1)"
proof -
  have "field (task_json t) ''repeat'' = None" "field (task_json t) ''requires'' = Some (JArray (map JString (needs t)))"
    "field (task_json t) ''name'' = Some (JString (task_name t))"
    "field (task_json t) ''argv'' = Some (JArray (map JString (argv t)))"
    "field (task_json t) ''env'' = Some (env_json (task_env t))"
    "field (task_json t) ''retries'' = Some (nat_json (retries t))"
    "field (task_json t) ''timeout_s'' = Some (nat_json (timeout_s t))"
    by (simp_all add: field_def task_json_def omap_get_def)
  moreover have "\<exists>m. task_json t = JObject m \<and>
      check_keys m [''name'', ''argv'', ''env'', ''timeout_s'', ''retries'', ''requires'', ''repeat''] = None"
    by (simp add: task_json_def check_keys_def)
  moreover have "read_argv (JArray (map JString (argv t))) = Some (argv t)"
    using assms read_string_array_JArray [of "argv t"]
    by (cases "argv t") (auto simp: read_argv_def task_wf_def)
  moreover have "nonempty_string (JString (task_name t)) = Some (task_name t)"
    using assms by (simp add: nonempty_string_def as_string_def task_wf_def name_wf_def)
  ultimately show ?thesis
    using assms unfolding accepts_def parse_entry_Inr
    by (simp add: opt_val_def is_int_in_nat_json task_wf_def name_wf_def read_env_json
        default_task_def omap_merge_Nil env_wf_def [of "task_env t"])
qed

lemma expand_once: "expand (t, 1) = [t]"
  by (simp add: expand_def task_copy_def copy_name_def)

text \<open>
  Property C11. Every list of well-formed tasks with distinct names, up to the limit, can be
  written as a job file: parsing the canonical document of the tasks gives the tasks back.
\<close>

theorem job_round_trip:
  assumes "parse txt = Some (job_json nm ts)" "nm \<noteq> []" "job_tasks_wf ts"
  shows "parse_jobs parse txt = \<lparr>job = \<lparr>job_name = nm, job_tasks = ts\<rparr>, error = []\<rparr>"
proof -
  have "parse_head (job_json nm ts) = Inr nm"
    using assms(2) unfolding parse_head_def parse_name_def step_Inr
    by (simp add: job_json_def check_keys_def opt_val_def field_def omap_get_def nonempty_string_def as_string_def)
  moreover have "parse_defaults (job_json nm ts) = Inr default_task"
    by (simp add: parse_defaults_def job_json_def field_def omap_get_def)
  moreover have "task_array (job_json nm ts) = Some (map task_json ts)"
    using assms(3) by (cases ts) (auto simp: task_array_def job_json_def field_def omap_get_def job_tasks_wf_def)
  moreover have "list_all2 (accepts default_task) (map task_json ts) (map (\<lambda>t. (t, 1)) ts)"
    using assms(3) by (auto simp: list_all2_conv_all_nth job_tasks_wf_def list_all_length accepts_task_json)
  moreover have "concat (map expand (map (\<lambda>t. (t, 1)) ts)) = ts"
    by (simp add: comp_def expand_once)
  ultimately have "parse_body (job_json nm ts) = Inr (ts, set (names_of ts))"
    using assms(3) unfolding parse_body_Inr job_tasks_wf_def by metis
  then show ?thesis
    using \<open>parse_head (job_json nm ts) = Inr nm\<close> assms(1) by (simp add: parse_jobs_def require_def)
qed

theorem job_round_trip_witness:
  "parse_jobs (\<lambda>_. Some (job_json ''j'' [default_task\<lparr>task_name := ''a'', argv := [''/bin/true'']\<rparr>])) [] =
     \<lparr>job = \<lparr>job_name = ''j'', job_tasks = [default_task\<lparr>task_name := ''a'', argv := [''/bin/true'']\<rparr>]\<rparr>, error = []\<rparr>"
proof -
  let ?t = "default_task\<lparr>task_name := ''a'', argv := [''/bin/true'']\<rparr>"
  have "job_tasks_wf [?t]"
    by (simp add: job_tasks_wf_def task_wf_def fits_def names_of_def name_wf_def control_char_def env_wf_def
        default_task_def kMaxTasks_def)
  then show ?thesis using job_round_trip [of "\<lambda>_. Some (job_json ''j'' [?t])"] by simp
qed

end
