(* ===== verification/Process_Properties.thy ===== *)
theory Process_Properties
  imports Process
begin

section \<open>What \<open>run_process\<close> guarantees\<close>

text \<open>
  Captured output is an exact prefix of what the drains of all turns read, the timeout is enforced as long as the pipes run
  empty now and then, and the wait status is decoded as the kernel encodes it.
\<close>

lemma drain_total:
  assumes "\<exists>k \<ge> i. \<not> goes_on (reads k)"
  shows "drain reads limit i into tr \<noteq> None"
proof -
  obtain k where "stop_at reads i k" using stop_at_exists assms by blast
  then show ?thesis
  proof (induction "k - i" arbitrary: i into tr)
    case 0
    then show ?case by (simp add: stop_at_def drain_stop)
  next
    case (Suc n)
    then have g: "goes_on (reads i)" and k: "stop_at reads (Suc i) k" by (auto simp: stop_at_def)
    from Suc.hyps(1) [OF _ k] Suc.hyps(2) g show ?case
      by (subst drain.simps) (auto simp: goes_on_def Let_def split: read_result.splits)
  qed
qed

text \<open>
  Draining a pipe: the call returns as soon as a read finds the pipe empty, at its end or failing,
  and then holds exactly the first \<open>limit\<close> bytes of everything read so far, says whether the pipe is still
  open, and flags truncation exactly when bytes were dropped.
\<close>

theorem drain_captures:
  assumes "stop_at reads i k" "clipped limit (bytes_read reads i) \<longrightarrow> tr"
  shows "drain reads limit i (take limit (bytes_read reads i)) tr =
    Some (would_block (reads k), Suc k, take limit (bytes_read reads (Suc k)), tr \<or> clipped limit (bytes_read reads (Suc k)))"
  using assms by (intro drain_result) (auto simp: stop_at_def)

definition demo_reads :: "nat \<Rightarrow> read_result" where
  "demo_reads i = (if i = 0 then Got ''hello '' else if i = 1 then ReadError EINTR
     else if i = 2 then Got ''world'' else if i = 3 then ReadError EAGAIN else Got [])"

theorem drain_captures_witness: "drain demo_reads 8 0 [] False = Some (True, 4, ''hello wo'', True)"
proof -
  have s: "stop_at demo_reads 0 3"
    by (auto simp: stop_at_def goes_on_def demo_reads_def split: if_splits)
  have b: "bytes_read demo_reads (Suc 3) = ''hello world''" by (simp add: bytes_read_def demo_reads_def data_of_def upt_rec)
  from drain_captures [OF s, of 8 False] show ?thesis
    unfolding b by (simp add: bytes_read_def clipped_def would_block_def demo_reads_def)
qed

text \<open>
  Property C13. Draining returns exactly when some read finds no data: against a child that keeps the pipe
  full it never returns, and the deadline, which is only checked between two drains, is never looked at.
\<close>

theorem drain_returns_iff:
  "drain reads limit i into tr \<noteq> None \<longleftrightarrow> (\<exists>k \<ge> i. \<not> goes_on (reads k))"
  using drain_returned drain_total by blast

subsection \<open>The capture of a run\<close>

definition capture_ok :: "world \<Rightarrow> nat \<Rightarrow> capture \<Rightarrow> bool" where
  "capture_ok w limit c \<longleftrightarrow>
     c_out c = take limit (bytes_read (out_reads w) (out_pos c)) \<and>
     c_err c = take limit (bytes_read (err_reads w) (err_pos c)) \<and>
     (c_truncated c \<longleftrightarrow> clipped limit (bytes_read (out_reads w) (out_pos c)) \<or>
        clipped limit (bytes_read (err_reads w) (err_pos c)))"

lemma capture_ok_empty: "capture_ok w limit empty_capture"
  by (simp add: capture_ok_def empty_capture_def bytes_read_def clipped_def)

lemma drain_out_ok:
  assumes "capture_ok w limit c" "drain_out w limit c = Some c'"
  shows "capture_ok w limit c'"
proof (cases "out_open c")
  case True
  then obtain r where r: "drain (out_reads w) limit (out_pos c) (c_out c) (c_truncated c) = Some r"
    using assms(2) by (auto simp: drain_out_def)
  then obtain k where k: "stop_at (out_reads w) (out_pos c) k"
    using drain_returned stop_at_exists by blast
  have "clipped limit (bytes_read (out_reads w) (out_pos c)) \<longrightarrow> c_truncated c"
    using assms(1) by (simp add: capture_ok_def)
  note d = drain_result [of "out_pos c" k "out_reads w", OF _ _ _ this]
  have "out_pos c \<le> Suc k" using k by (simp add: stop_at_def)
  from clipped_mono [OF this] show ?thesis
    using assms True d k by (auto simp: drain_out_def capture_ok_def stop_at_def)
qed (use assms in \<open>simp add: drain_out_def\<close>)

lemma drain_err_ok:
  assumes "capture_ok w limit c" "drain_err w limit c = Some c'"
  shows "capture_ok w limit c'"
proof (cases "err_open c")
  case True
  then obtain r where r: "drain (err_reads w) limit (err_pos c) (c_err c) (c_truncated c) = Some r"
    using assms(2) by (auto simp: drain_err_def)
  then obtain k where k: "stop_at (err_reads w) (err_pos c) k"
    using drain_returned stop_at_exists by blast
  have "clipped limit (bytes_read (err_reads w) (err_pos c)) \<longrightarrow> c_truncated c"
    using assms(1) by (simp add: capture_ok_def)
  note d = drain_result [of "err_pos c" k "err_reads w", OF _ _ _ this]
  have "err_pos c \<le> Suc k" using k by (simp add: stop_at_def)
  from clipped_mono [OF this] show ?thesis
    using assms True d k by (auto simp: drain_err_def capture_ok_def stop_at_def)
qed (use assms in \<open>simp add: drain_err_def\<close>)

lemma read_ready_ok: "capture_ok w limit c \<Longrightarrow> read_ready w limit c = Some c' \<Longrightarrow> capture_ok w limit c'"
  by (auto simp: read_ready_def bind_eq_Some_conv intro: drain_out_ok drain_err_ok)

subsection \<open>How often a pipe is drained\<close>

text \<open>
  The reads that \<open>r\<close> drains of a pipe make: they go on to a read that stops a drain, every drain before the
  last stops at an empty pipe that is still open, and there are fewer drains than \<open>r\<close> only when the stream ended.
\<close>

definition reads_made :: "(nat \<Rightarrow> read_result) \<Rightarrow> nat \<Rightarrow> nat \<Rightarrow> bool" where
  "reads_made reads r n \<longleftrightarrow> 0 < n \<and> \<not> goes_on (reads (n - 1)) \<and>
     (\<forall>j < n - 1. goes_on (reads j) \<or> would_block (reads j)) \<and>
     card {j. j < n \<and> \<not> goes_on (reads j)} \<le> r \<and>
     (would_block (reads (n - 1)) \<longrightarrow> card {j. j < n \<and> \<not> goes_on (reads j)} = r)"

text \<open>
  The turns of the waiting loops: the first loop stops in the first turn \<open>n\<close> that sees the process gone
  or the deadline passed; only in the second case the grace loop follows, up to the turn that sees the process
  gone or to the end of the grace period. \<open>t\<close> is the number of turns of both.
\<close>

definition turns_made :: "world \<Rightarrow> nat \<Rightarrow> bool" where
  "turns_made w t \<longleftrightarrow> (\<exists>n < t. (\<forall>j < n. \<not> has_exited w j \<and> \<not> past_deadline w j) \<and>
     (if has_exited w n then t = Suc n
      else past_deadline w n \<and> (\<forall>j. n < j \<and> j < t \<longrightarrow> in_grace w j) \<and>
        (\<forall>j. n < j \<and> Suc j < t \<longrightarrow> \<not> has_exited w j) \<and>
        (\<not> in_grace w t \<or> Suc n < t \<and> has_exited w (t - 1))))"

definition drained :: "(nat \<Rightarrow> read_result) \<Rightarrow> nat \<Rightarrow> bool \<Rightarrow> nat \<Rightarrow> bool" where
  "drained reads r open n \<longleftrightarrow>
     (if r = 0 then open \<and> n = 0 else reads_made reads r n \<and> (open \<longleftrightarrow> would_block (reads (n - 1))))"

lemma stops_up_to:
  assumes "stop_at reads i k"
  shows "{j. j < Suc k \<and> \<not> goes_on (reads j)} = insert k {j. j < i \<and> \<not> goes_on (reads j)}"
  using assms by (auto simp: stop_at_def less_Suc_eq) (meson not_le)

lemma drained_closed: "drained reads r False n \<Longrightarrow> drained reads (Suc r) False n"
  by (auto simp: drained_def reads_made_def split: if_splits)

lemma drained_open:
  assumes "drained reads r True n" "stop_at reads n k"
  shows "drained reads (Suc r) (would_block (reads k)) (Suc k)"
proof -
  have "k \<notin> {j. j < n \<and> \<not> goes_on (reads j)}" using assms(2) by (auto simp: stop_at_def)
  then have c: "card {j. j < Suc k \<and> \<not> goes_on (reads j)} = Suc (card {j. j < n \<and> \<not> goes_on (reads j)})"
    unfolding stops_up_to [OF assms(2)] by simp
  have "card {j. j < n \<and> \<not> goes_on (reads j)} = r"
    using assms(1) by (auto simp: drained_def reads_made_def split: if_splits)
  moreover have "goes_on (reads j) \<or> would_block (reads j)" if "j < k" for j
  proof (cases "n \<le> j")
    case True
    then show ?thesis using assms(2) \<open>j < k\<close> by (auto simp: stop_at_def)
  next
    case False
    then have "0 < r" using assms(1) by (auto simp: drained_def split: if_splits)
    moreover have "j < n - 1 \<or> j = n - 1" using False by linarith
    ultimately show ?thesis using assms(1) by (auto simp: drained_def reads_made_def)
  qed
  ultimately show ?thesis using assms(2) by (simp add: drained_def reads_made_def c stop_at_def)
qed

text \<open>A capture after \<open>r\<close> rounds.\<close>

definition capture_at :: "world \<Rightarrow> nat \<Rightarrow> nat \<Rightarrow> capture \<Rightarrow> bool" where
  "capture_at w limit r c \<longleftrightarrow> capture_ok w limit c \<and>
     drained (out_reads w) r (out_open c) (out_pos c) \<and> drained (err_reads w) r (err_open c) (err_pos c)"

lemma capture_at_empty: "capture_at w limit 0 empty_capture"
  using capture_ok_empty by (simp add: capture_at_def drained_def empty_capture_def)

lemma drain_position:
  assumes "drain reads limit i into tr = Some (go, n, s, tr')"
    and "into = take limit (bytes_read reads i)" "clipped limit (bytes_read reads i) \<longrightarrow> tr"
  obtains k where "stop_at reads i k" "n = Suc k" "go = would_block (reads k)"
proof -
  obtain k where k: "stop_at reads i k" using drain_returned [OF assms(1)] stop_at_exists by blast
  from drain_captures [OF this assms(3)] assms(1,2) k that show thesis by simp
qed

lemma drain_out_pos:
  assumes "capture_ok w limit c" "drained (out_reads w) r (out_open c) (out_pos c)" "drain_out w limit c = Some c'"
  shows "drained (out_reads w) (Suc r) (out_open c') (out_pos c') \<and>
    err_open c' = err_open c \<and> err_pos c' = err_pos c"
proof (cases "out_open c")
  case True
  then obtain go n s tr where d: "drain (out_reads w) limit (out_pos c) (c_out c) (c_truncated c) = Some (go, n, s, tr)"
    and c': "c' = c\<lparr>out_open := go, out_pos := n, c_out := s, c_truncated := tr\<rparr>"
    using assms(3) by (auto simp: drain_out_def)
  have "c_out c = take limit (bytes_read (out_reads w) (out_pos c))"
    "clipped limit (bytes_read (out_reads w) (out_pos c)) \<longrightarrow> c_truncated c"
    using assms(1) by (auto simp: capture_ok_def)
  from drain_position [OF d this] drained_open assms(2) True show ?thesis unfolding c' by simp metis
qed (use assms drained_closed in \<open>auto simp: drain_out_def\<close>)

lemma drain_err_pos:
  assumes "capture_ok w limit c" "drained (err_reads w) r (err_open c) (err_pos c)" "drain_err w limit c = Some c'"
  shows "drained (err_reads w) (Suc r) (err_open c') (err_pos c') \<and>
    out_open c' = out_open c \<and> out_pos c' = out_pos c"
proof (cases "err_open c")
  case True
  then obtain go n s tr where d: "drain (err_reads w) limit (err_pos c) (c_err c) (c_truncated c) = Some (go, n, s, tr)"
    and c': "c' = c\<lparr>err_open := go, err_pos := n, c_err := s, c_truncated := tr\<rparr>"
    using assms(3) by (auto simp: drain_err_def)
  have "c_err c = take limit (bytes_read (err_reads w) (err_pos c))"
    "clipped limit (bytes_read (err_reads w) (err_pos c)) \<longrightarrow> c_truncated c"
    using assms(1) by (auto simp: capture_ok_def)
  from drain_position [OF d this] drained_open assms(2) True show ?thesis unfolding c' by simp metis
qed (use assms drained_closed in \<open>auto simp: drain_err_def\<close>)

lemma read_ready_at:
  assumes "capture_at w limit r c" "read_ready w limit c = Some c'"
  shows "capture_at w limit (Suc r) c'"
proof -
  obtain d where d: "drain_out w limit c = Some d" "drain_err w limit d = Some c'"
    using assms(2) by (auto simp: read_ready_def bind_eq_Some_conv)
  have ok: "capture_ok w limit c" using assms(1) by (simp add: capture_at_def)
  note 1 = drain_out_ok [OF ok d(1)]
  note 2 = drain_out_pos [OF ok _ d(1), of r]
  show ?thesis
    using assms(1) 2 drain_err_ok [OF 1 d(2)] drain_err_pos [OF 1 _ d(2), of r]
    by (auto simp: capture_at_def)
qed

text \<open>What the two loops do, by induction over their turns.\<close>

lemma watch_turns:
  assumes "watch w limit i c = Some (late, t, c')" "capture_at w limit i c"
    and "\<And>j. j < i \<Longrightarrow> \<not> has_exited w j \<and> \<not> past_deadline w j"
  shows "capture_at w limit t c' \<and> 0 < t \<and> (\<forall>j < t - 1. \<not> has_exited w j \<and> \<not> past_deadline w j) \<and>
    (if late then \<not> has_exited w (t - 1) \<and> past_deadline w (t - 1) else has_exited w (t - 1))"
proof -
  let ?goal = "\<lambda>w limit i c r. capture_at w limit i c \<longrightarrow>
    (\<forall>j < i. \<not> has_exited w j \<and> \<not> past_deadline w j) \<longrightarrow>
    (case r of (late, t, c') \<Rightarrow> capture_at w limit t c' \<and> 0 < t \<and>
      (\<forall>j < t - 1. \<not> has_exited w j \<and> \<not> past_deadline w j) \<and>
      (if late then \<not> has_exited w (t - 1) \<and> past_deadline w (t - 1) else has_exited w (t - 1)))"
  have "?goal w limit i c (late, t, c')"
  proof (rule watch.raw_induct [OF _ assms(1), where P = ?goal])
    fix f :: "world \<Rightarrow> nat \<Rightarrow> nat \<Rightarrow> capture \<Rightarrow> (bool \<times> nat \<times> capture) option" and w limit i c r
    assume IH: "\<And>w limit i c r. f w limit i c = Some r \<Longrightarrow> ?goal w limit i c r"
      and eq: "Option.bind (read_ready w limit c) (\<lambda>c'.
       if has_exited w i then Some (False, Suc i, c')
       else if past_deadline w i then Some (True, Suc i, c')
       else f w limit (Suc i) c') = Some r"
    then obtain d where d: "read_ready w limit c = Some d" by (auto simp: bind_eq_Some_conv)
    show "?goal w limit i c r"
      using IH [of w limit "Suc i" d r] eq d read_ready_at [of w limit i c d]
      by (auto simp: less_Suc_eq split: if_splits)
  qed
  then show ?thesis using assms(2,3) by (cases late) auto
qed

lemma grace_wait_turns:
  assumes "grace_wait w limit i c = Some c'" "capture_at w limit i c"
  shows "\<exists>t \<ge> i. capture_at w limit t c' \<and> (\<forall>j. i \<le> j \<and> j < t \<longrightarrow> in_grace w j) \<and>
    (\<forall>j. i \<le> j \<and> Suc j < t \<longrightarrow> \<not> has_exited w j) \<and> (\<not> in_grace w t \<or> i < t \<and> has_exited w (t - 1))"
proof -
  let ?goal = "\<lambda>w limit i c c'. capture_at w limit i c \<longrightarrow>
    (\<exists>t \<ge> i. capture_at w limit t c' \<and> (\<forall>j. i \<le> j \<and> j < t \<longrightarrow> in_grace w j) \<and>
    (\<forall>j. i \<le> j \<and> Suc j < t \<longrightarrow> \<not> has_exited w j) \<and> (\<not> in_grace w t \<or> i < t \<and> has_exited w (t - 1)))"
  have "?goal w limit i c c'"
  proof (rule grace_wait.raw_induct [OF _ assms(1), where P = ?goal], intro impI)
    fix f :: "world \<Rightarrow> nat \<Rightarrow> nat \<Rightarrow> capture \<Rightarrow> capture option" and w limit i c r
    assume IH: "\<And>w limit i c r. f w limit i c = Some r \<Longrightarrow> ?goal w limit i c r"
      and at: "capture_at w limit i c"
      and eq: "(if in_grace w i then
        Option.bind (read_ready w limit c) (\<lambda>c'. if has_exited w i then Some c' else f w limit (Suc i) c')
      else Some c) = Some r"
    let ?ok = "\<lambda>t. i \<le> t \<and> capture_at w limit t r \<and> (\<forall>j. i \<le> j \<and> j < t \<longrightarrow> in_grace w j) \<and>
      (\<forall>j. i \<le> j \<and> Suc j < t \<longrightarrow> \<not> has_exited w j) \<and> (\<not> in_grace w t \<or> i < t \<and> has_exited w (t - 1))"
    consider "\<not> in_grace w i" "r = c"
      | "in_grace w i" "read_ready w limit c = Some r" "has_exited w i"
      | d where "in_grace w i" "read_ready w limit c = Some d" "\<not> has_exited w i" "f w limit (Suc i) d = Some r"
      using eq by (auto simp: bind_eq_Some_conv split: if_splits)
    then show "\<exists>t \<ge> i. capture_at w limit t r \<and> (\<forall>j. i \<le> j \<and> j < t \<longrightarrow> in_grace w j) \<and>
      (\<forall>j. i \<le> j \<and> Suc j < t \<longrightarrow> \<not> has_exited w j) \<and> (\<not> in_grace w t \<or> i < t \<and> has_exited w (t - 1))"
    proof cases
      case 1
      then show ?thesis using at by (intro exI [of _ i]) auto
    next
      case 2
      then show ?thesis using read_ready_at [OF at] by (intro exI [of _ "Suc i"]) (auto simp: less_Suc_eq)
    next
      case 3
      from IH [OF 3(4)] read_ready_at [OF at 3(2)] obtain t where t: "Suc i \<le> t" "capture_at w limit t r"
        "\<forall>j. Suc i \<le> j \<and> j < t \<longrightarrow> in_grace w j" "\<forall>j. Suc i \<le> j \<and> Suc j < t \<longrightarrow> \<not> has_exited w j"
        "\<not> in_grace w t \<or> Suc i < t \<and> has_exited w (t - 1)" by blast
      have a: "\<forall>j. i \<le> j \<and> j < t \<longrightarrow> in_grace w j"
        using t(3) 3(1) by (metis Suc_leI le_neq_implies_less)
      have b: "\<forall>j. i \<le> j \<and> Suc j < t \<longrightarrow> \<not> has_exited w j"
        using t(4) 3(3) by (metis Suc_leI le_neq_implies_less)
      have e: "\<not> in_grace w t \<or> i < t \<and> has_exited w (t - 1)" using t(5) by linarith
      show ?thesis using Suc_leD [OF t(1)] t(2) a b e by (intro exI [of _ t] conjI)
    qed
  qed
  then show ?thesis using assms(2) by blast
qed

lemma collect_turns:
  assumes "collect w limit = Some (late, c)"
  shows "\<exists>t. turns_made w t \<and> capture_at w limit (Suc t) c"
proof -
  obtain i c1 c2 where c1: "watch w limit 0 empty_capture = Some (late, i, c1)"
    and c2: "(if late then grace_wait w limit i c1 else Some c1) = Some c2"
    and c: "read_ready w limit c2 = Some c"
    using assms by (auto simp: collect_def bind_eq_Some_conv split: prod.splits)
  have w: "capture_at w limit i c1 \<and> 0 < i \<and> (\<forall>j < i - 1. \<not> has_exited w j \<and> \<not> past_deadline w j) \<and>
    (if late then \<not> has_exited w (i - 1) \<and> past_deadline w (i - 1) else has_exited w (i - 1))"
    by (rule watch_turns [OF c1 capture_at_empty]) simp
  then obtain n where i: "i = Suc n" by (cases i) simp_all
  note w' = w [unfolded i diff_Suc_1]
  note n = conjunct1 [OF w'] conjunct2 [OF conjunct2 [OF w']]
  show ?thesis
  proof (cases late)
    case True
    then have g: "grace_wait w limit (Suc n) c1 = Some c2" using c2 i by simp
    from grace_wait_turns [OF g n(1)]
    obtain t where t: "Suc n \<le> t" "capture_at w limit t c2" "\<forall>j. Suc n \<le> j \<and> j < t \<longrightarrow> in_grace w j"
      "\<forall>j. Suc n \<le> j \<and> Suc j < t \<longrightarrow> \<not> has_exited w j" "\<not> in_grace w t \<or> Suc n < t \<and> has_exited w (t - 1)"
      by (elim exE conjE)
    have "turns_made w t"
      unfolding turns_made_def using True t n(2) by (intro exI [of _ n]) (auto simp: Suc_le_eq)
    then show ?thesis using read_ready_at [OF t(2) c] by blast
  next
    case False
    then have "turns_made w (Suc n)" using n(2) unfolding turns_made_def by (intro exI [of _ n]) auto
    then show ?thesis using read_ready_at [OF _ c] n(1) c2 False by auto
  qed
qed

text \<open>The turns and the reads are determined by what the operating system answers.\<close>

lemma reads_made_unique:
  assumes "reads_made reads r n" "reads_made reads r m" "0 < r"
  shows "n = m"
proof -
  have less: False if r: "reads_made reads r n" "reads_made reads r m" "n < m" for n m
  proof -
    let ?S = "\<lambda>n. {j. j < n \<and> \<not> goes_on (reads j)}"
    have g: "\<not> goes_on (reads (n - 1))" "0 < n" using r(1) by (auto simp: reads_made_def)
    have "n - 1 < m - 1" using r(3) g(2) by linarith
    then have "would_block (reads (n - 1))" using r(2) g(1) unfolding reads_made_def by blast
    then have c: "card (?S n) = r" using r(1) by (auto simp: reads_made_def)
    have "m - 1 \<in> ?S m" "m - 1 \<notin> ?S n" using r(2,3) by (auto simp: reads_made_def)
    moreover have "?S n \<subseteq> ?S m" using r(3) by (simp add: Collect_mono order.strict_trans)
    ultimately have "?S n \<subset> ?S m" by blast
    then have "card (?S n) < card (?S m)" using psubset_card_mono [of "?S m" "?S n"] by simp
    then show False using r(2) c by (simp add: reads_made_def)
  qed
  show ?thesis using less [OF assms(1,2)] less [OF assms(2,1)] by (meson linorder_neqE_nat)
qed

lemma classify_fields:
  "ro_out (classify late t s r) = ro_out r" "ro_err (classify late t s r) = ro_err r"
  "ro_truncated (classify late t s r) = ro_truncated r"
  by (simp_all add: classify_def)

text \<open>
  Property C14. Whatever the process writes and however it ends, the captured streams are exactly the
  first \<open>max_output_bytes\<close> bytes of all that the pipes delivered, and the output is flagged as truncated
  exactly when one of them delivered more. All that they delivered are the reads of one drain of each pipe in
  every turn of the two waiting loops and of one drain after the process is gone: each drain reads on until the
  pipe is empty, so of a stream that ended nothing is missing.
\<close>

theorem captured_output_exact:
  assumes "run_process w spec = Some r" "launched w = Started"
    and "rs_argv spec \<noteq> [] \<and> hd (rs_argv spec) \<noteq> []"
  shows "\<exists>t n m. turns_made w t \<and> reads_made (out_reads w) (Suc t) n \<and> reads_made (err_reads w) (Suc t) m \<and>
    ro_out r = take (max_output_bytes spec) (bytes_read (out_reads w) n) \<and>
    ro_err r = take (max_output_bytes spec) (bytes_read (err_reads w) m) \<and>
    (ro_truncated r \<longleftrightarrow> max_output_bytes spec < length (bytes_read (out_reads w) n) \<or>
       max_output_bytes spec < length (bytes_read (err_reads w) m))"
proof -
  obtain late c where c: "collect w (max_output_bytes spec) = Some (late, c)"
    and r: "r = classify late (rs_timeout spec) (wait_status w)
      (empty_output\<lparr>ro_out := c_out c, ro_err := c_err c, ro_truncated := c_truncated c\<rparr>)\<lparr>ro_duration := elapsed w\<rparr>"
    using assms by (auto simp: run_process_def Let_def bind_eq_Some_conv)
  obtain t where "turns_made w t" "capture_at w (max_output_bytes spec) (Suc t) c"
    using collect_turns [OF c] by blast
  then show ?thesis
    by (intro exI [of _ t] exI [of _ "out_pos c"] exI [of _ "err_pos c"])
      (auto simp: r classify_fields capture_at_def capture_ok_def drained_def clipped_def)
qed

subsection \<open>The timeout\<close>

text \<open>Both pipes run empty (or end) again and again.\<close>

definition quiescent :: "(nat \<Rightarrow> read_result) \<Rightarrow> bool" where
  "quiescent reads \<longleftrightarrow> (\<forall>i. \<exists>k \<ge> i. \<not> goes_on (reads k))"

lemma read_ready_returns:
  assumes "quiescent (out_reads w)" "quiescent (err_reads w)"
  obtains c' where "read_ready w limit c = Some c'"
proof -
  have "drain_out w limit c \<noteq> None"
    using assms(1) drain_total [of "out_pos c" "out_reads w"]
    by (auto simp: drain_out_def quiescent_def)
  then obtain c1 where c1: "drain_out w limit c = Some c1" by blast
  have "drain_err w limit c1 \<noteq> None"
    using assms(2) drain_total [of "err_pos c1" "err_reads w"]
    by (auto simp: drain_err_def quiescent_def)
  with c1 show thesis using that by (auto simp: read_ready_def)
qed

lemma watch_returns:
  assumes "quiescent (out_reads w)" "quiescent (err_reads w)" "has_exited w n \<or> past_deadline w n" "i \<le> n"
    and "\<And>j. j < n \<Longrightarrow> \<not> has_exited w j \<and> \<not> past_deadline w j"
  shows "\<exists>c'. watch w limit i c = Some (\<not> has_exited w n, Suc n, c')"
  using assms(4)
proof (induction "n - i" arbitrary: i c)
  case 0
  then have "i = n" by simp
  obtain c' where "read_ready w limit c = Some c'" using assms(1,2) by (rule read_ready_returns)
  then show ?case using assms(3) \<open>i = n\<close> by (subst watch.simps) auto
next
  case (Suc m)
  obtain c' where c': "read_ready w limit c = Some c'" using assms(1,2) by (rule read_ready_returns)
  have "i < n" using Suc.hyps(2) by simp
  then have "watch w limit i c = watch w limit (Suc i) c'"
    using c' assms(5) by (subst watch.simps) auto
  then show ?case using Suc.hyps(1) [of "Suc i" c'] Suc.hyps(2) \<open>i < n\<close> by auto
qed

lemma grace_wait_returns:
  assumes "quiescent (out_reads w)" "quiescent (err_reads w)" "\<not> in_grace w n" "i \<le> n"
  shows "\<exists>c'. grace_wait w limit i c = Some c'"
  using assms(4)
proof (induction "n - i" arbitrary: i c)
  case 0
  then have "i = n" by simp
  then show ?case using assms(3) by (subst grace_wait.simps) auto
next
  case (Suc m)
  obtain c' where c': "read_ready w limit c = Some c'" using assms(1,2) by (rule read_ready_returns)
  have "i < n" using Suc.hyps(2) by simp
  moreover have "m = n - Suc i" using Suc.hyps(2) by simp
  ultimately obtain c2 where "grace_wait w limit (Suc i) c' = Some c2"
    using Suc.hyps(1) [of "Suc i" c'] by auto
  then show ?case using c' by (subst grace_wait.simps) auto
qed

lemma run_process_returns:
  assumes "launched w = Started" "rs_argv spec \<noteq> [] \<and> hd (rs_argv spec) \<noteq> []"
    and "quiescent (out_reads w)" "quiescent (err_reads w)"
    and "has_exited w n \<or> past_deadline w n" "\<And>j. j < n \<Longrightarrow> \<not> has_exited w j \<and> \<not> past_deadline w j"
    and "n < m" "\<not> in_grace w m"
  shows "\<exists>r. run_process w spec = Some r \<and> (ro_outcome r = PTimedOut \<longleftrightarrow> \<not> has_exited w n)"
proof -
  let ?max = "max_output_bytes spec"
  obtain c where c: "watch w ?max 0 empty_capture = Some (\<not> has_exited w n, Suc n, c)"
    using watch_returns [OF assms(3-5) le0 assms(6)] by blast
  obtain c1 where c1: "grace_wait w ?max (Suc n) c = Some c1"
    using grace_wait_returns [OF assms(3,4,8)] assms(7) by (metis Suc_leI)
  obtain c2 c3 where "read_ready w ?max c = Some c2" "read_ready w ?max c1 = Some c3"
    using assms(3,4) read_ready_returns by metis
  with c c1 obtain c' where "collect w ?max = Some (\<not> has_exited w n, c')"
    by (cases "has_exited w n") (auto simp: collect_def)
  then show ?thesis
    using assms(1,2) by (auto simp: run_process_def Let_def classify_def empty_output_def)
qed

text \<open>
  Property C15. The timeout is enforced: if the pipes keep running empty, the first turn that sees
  the process gone or the deadline passed is turn \<open>n\<close>, and the grace period ends, then \<open>run_process\<close> returns,
  and its outcome is timed-out exactly if the process was still there in that turn.
\<close>

theorem timeout_enforced:
  assumes "launched w = Started" "rs_argv spec \<noteq> [] \<and> hd (rs_argv spec) \<noteq> []"
    and "quiescent (out_reads w)" "quiescent (err_reads w)"
    and "has_exited w n \<or> past_deadline w n" "\<And>j. j < n \<Longrightarrow> \<not> has_exited w j \<and> \<not> past_deadline w j"
    and "n < m" "\<not> in_grace w m"
  shows "\<exists>r. run_process w spec = Some r \<and> (ro_outcome r = PTimedOut \<longleftrightarrow> \<not> has_exited w n)"
  using assms by (rule run_process_returns)

definition demo_world :: world where
  "demo_world = \<lparr>launched = Started, out_reads = demo_reads, err_reads = (\<lambda>i. Got []),
     has_exited = (\<lambda>i. False), past_deadline = (\<lambda>i. 1 \<le> i), in_grace = (\<lambda>i. False),
     wait_status = 9, elapsed = 1010\<rparr>"

definition demo_spec :: run_spec where
  "demo_spec = \<lparr>rs_argv = [''/bin/cat''], rs_env = [], rs_timeout = 1000, max_output_bytes = 8\<rparr>"

lemma demo_world_ok:
  "launched demo_world = Started" "rs_argv demo_spec \<noteq> [] \<and> hd (rs_argv demo_spec) \<noteq> []"
  "quiescent (out_reads demo_world)" "quiescent (err_reads demo_world)"
  "has_exited demo_world 1 \<or> past_deadline demo_world 1"
  "j < 1 \<Longrightarrow> \<not> has_exited demo_world j \<and> \<not> past_deadline demo_world j"
  "\<not> in_grace demo_world 2" "max_output_bytes demo_spec = 8"
proof -
  have "\<exists>k \<ge> i. \<not> goes_on (demo_reads k)" for i
    by (intro exI [of _ "i + 4"]) (simp add: demo_reads_def goes_on_def)
  then show "quiescent (out_reads demo_world)" by (simp add: quiescent_def demo_world_def)
qed (auto simp: demo_world_def demo_spec_def quiescent_def goes_on_def)

theorem timeout_enforced_witness: "\<exists>r. run_process demo_world demo_spec = Some r \<and> ro_outcome r = PTimedOut"
  using timeout_enforced [OF demo_world_ok(1-6), of 2] demo_world_ok(7) by (simp add: demo_world_def)

theorem captured_output_exact_witness:
  "\<exists>r n. run_process demo_world demo_spec = Some r \<and> ro_out r = take 8 (bytes_read (out_reads demo_world) n)"
proof -
  obtain r where "run_process demo_world demo_spec = Some r"
    using run_process_returns [OF demo_world_ok(1-6), of 2] demo_world_ok(7) by auto
  then show ?thesis
    using captured_output_exact [OF _ demo_world_ok(1,2)] demo_world_ok(8) by metis
qed

subsection \<open>The wait status\<close>

text \<open>How the kernel encodes the end of a process: by exit code, or by signal with a core-dump flag.\<close>

definition exit_status :: "8 word \<Rightarrow> 32 word" where
  "exit_status c = push_bit 8 (ucast c)"

definition signal_status :: "bool \<Rightarrow> 32 word \<Rightarrow> 32 word" where
  "signal_status core sig = (if core then sig OR 0x80 else sig)"

lemma status_masks: "(0x7f :: 32 word) = mask 7" "(0xff00 :: 32 word) = push_bit 8 (mask 8)" "(0x80 :: 32 word) = push_bit 7 1"
  by (simp_all add: mask_eq_exp_minus_1 push_bit_eq_mult)

lemma exit_status_decode:
  "wtermsig (exit_status c) = 0" "wexitstatus (exit_status c) = ucast c"
  unfolding wtermsig_def wexitstatus_def exit_status_def status_masks
  by (rule bit_word_eqI; auto simp: bit_simps dest: bit_imp_le_length)+

lemma signal_status_decode:
  assumes "sig < 0x7f"
  shows "wtermsig (signal_status core sig) = sig"
proof -
  have "uint sig < 127" using assms by (simp add: word_less_def)
  then have "sig = take_bit 7 sig"
    by (intro word_uint_eqI) (simp add: unsigned_take_bit_eq take_bit_int_eq_self)
  moreover have "(sig OR push_bit 7 1) AND mask 7 = take_bit 7 sig"
    unfolding take_bit_eq_mask [symmetric] take_bit_or take_bit_push_bit by simp
  ultimately show ?thesis
    unfolding wtermsig_def signal_status_def status_masks by (simp add: take_bit_eq_mask)
qed

text \<open>
  Exit codes and signals are reported as the kernel encodes them: a process that exits
  with code \<open>c\<close> (one byte) is reported as exited with that code, and one killed by signal 1..126, with or
  without a core dump, as killed by that signal.
\<close>

theorem wait_status_decoded:
  assumes "0 < sig" "sig < 0x7f"
  shows "classify False t (exit_status c) r = r\<lparr>ro_outcome := PExited, ro_exit_code := uint c\<rparr> \<and>
    classify False t (signal_status core sig) r = r\<lparr>ro_outcome := PSignaled, ro_term_signal := uint sig\<rparr>"
proof
  have c: "- (2 ^ 31) \<le> uint c" "uint c < 2 ^ 31" "uint c < 2 ^ 32"
    using uint_lt2p [of c] order_trans [OF _ uint_ge_0, of "- (2 ^ 31)" c] by simp_all
  have "sint (ucast c :: 32 word) = uint c"
    using signed_take_bit_int_eq_self [OF c(1,2)] c(3)
    by (simp add: sint_uint unsigned_ucast_eq take_bit_int_eq_self)
  then show "classify False t (exit_status c) r = r\<lparr>ro_outcome := PExited, ro_exit_code := uint c\<rparr>"
    by (simp add: classify_def wifexited_def exit_status_decode)
  have u: "0 < uint sig" "uint sig < 127"
    using assms by (simp_all add: word_less_def)
  have s1: "uint (sig + 1) = uint sig + 1"
    using u by (simp add: uint_word_ariths)
  have "sint (ucast (sig + 1) :: 8 word) = uint sig + 1"
    using u by (simp add: sint_uint unsigned_ucast_eq s1 take_bit_int_eq_self signed_take_bit_int_eq_self)
  moreover have "sint sig = uint sig"
    using u by (simp add: sint_uint signed_take_bit_int_eq_self)
  moreover have "sig \<noteq> 0" using assms(1) by auto
  ultimately show "classify False t (signal_status core sig) r = r\<lparr>ro_outcome := PSignaled, ro_term_signal := uint sig\<rparr>"
    using u by (simp add: classify_def wifexited_def wifsignaled_def signal_status_decode [OF assms(2)])
qed

theorem wait_status_decoded_witness:
  "classify False 5 (signal_status True 9) empty_output = empty_output\<lparr>ro_outcome := PSignaled, ro_term_signal := 9\<rparr>"
  using wait_status_decoded [of 9 5 0 empty_output True] by simp

end
