(* ===== verification/Scheduler_Tasks.thy ===== *)
theory Scheduler_Tasks
  imports Scheduler
begin

section \<open>What one run keeps true of its tasks and agents\<close>

text \<open>
  The retry policy as a function of the history of a task (\<open>verdict\<close>), the invariant that
  relates every \<open>TaskState\<close>, the live agents, the retirement list and \<open>remaining_\<close> to it, and
  the lemmas that every operation of \<open>Run\<close> keeps it.
\<close>

named_theorems run_simps

subsection \<open>The retry policy on histories\<close>

text \<open>
  The first decisive attempt of a task with \<open>r\<close> retries: a pass, or the failure that exceeds
  the budget (\<open>n\<close> failures were already counted). Agent errors are free.
\<close>

fun verdict :: "int \<Rightarrow> int \<Rightarrow> attempt_status list \<Rightarrow> final_status option" where
  "verdict r n [] = None"
| "verdict r n (APassed # xs) = Some FPassed"
| "verdict r n (AgentError # xs) = verdict r n xs"
| "verdict r n (AFailed # xs) = (if n + 1 > r then Some FFailed else verdict r (n + 1) xs)"
| "verdict r n (ATimedOut # xs) = (if n + 1 > r then Some FTimedOut else verdict r (n + 1) xs)"

definition failures_in :: "attempt_status list \<Rightarrow> int" where
  "failures_in xs = int (length (filter is_failure xs))"

lemma failures_in_simps [simp]:
  "failures_in [] = 0"
  "failures_in (x # xs) = (if is_failure x then 1 else 0) + failures_in xs"
  "failures_in (xs @ ys) = failures_in xs + failures_in ys"
  by (auto simp: failures_in_def)

lemma is_failure_simps [simp]:
  "is_failure AFailed" "is_failure ATimedOut" "\<not> is_failure APassed" "\<not> is_failure AgentError"
  by (auto simp: is_failure_def)

lemma verdict_snoc:
  "verdict r n (xs @ [x]) =
     (case verdict r n xs of Some f \<Rightarrow> Some f | None \<Rightarrow> verdict r (n + failures_in xs) [x])"
  by (induction r n xs rule: verdict.induct) (auto simp: algebra_simps split: option.splits)

lemma verdict_not_unschedulable: "verdict r n xs \<noteq> Some FUnschedulable"
  by (induction r n xs rule: verdict.induct) auto

lemma verdict_None_budget:
  "verdict r n xs = None \<Longrightarrow> failures_in xs = 0 \<or> n + failures_in xs \<le> r"
  by (induction r n xs rule: verdict.induct) (auto split: if_splits)

lemma verdict_None_no_pass: "verdict r n xs = None \<Longrightarrow> APassed \<notin> set xs"
  by (induction r n xs rule: verdict.induct) (auto split: if_splits)

definition statuses :: "'d attempt_record list \<Rightarrow> attempt_status list" where
  "statuses recs = map (\<lambda>a. ar_status (rec_result a)) recs"

lemma statuses_simps [simp]:
  "statuses [] = []" "statuses (xs @ ys) = statuses xs @ statuses ys"
  "statuses (x # xs) = ar_status (rec_result x) # statuses xs"
  by (auto simp: statuses_def)

lemma statuses_butlast: "statuses (butlast xs) = butlast (statuses xs)"
  by (simp add: statuses_def map_butlast)

subsection \<open>The invariant\<close>

definition live_able :: "config \<Rightarrow> bool list \<Rightarrow> nat \<Rightarrow> bool" where
  "live_able cfg al t \<longleftrightarrow> (\<exists>a < length (agents cfg). able cfg a t \<and> al ! a)"

definition ever_able :: "config \<Rightarrow> nat \<Rightarrow> bool" where
  "ever_able cfg t \<longleftrightarrow> (\<exists>a < length (agents cfg). able cfg a t)"

definition settled :: "'d task_state \<Rightarrow> bool" where
  "settled x \<longleftrightarrow> ts_done x \<and> ts_final x \<noteq> FUnschedulable"

text \<open>The history of a task agrees with its verdict, failure count and flags.\<close>

definition history_ok :: "int \<Rightarrow> 'd task_state \<Rightarrow> bool" where
  "history_ok r x \<longleftrightarrow>
     ts_failures x = failures_in (statuses (ts_attempts x)) \<and>
     verdict r 0 (statuses (ts_attempts x)) = (if settled x then Some (ts_final x) else None) \<and>
     (settled x \<longrightarrow> verdict r 0 (butlast (statuses (ts_attempts x))) = None \<and> ts_message x = []) \<and>
     (\<not> ts_done x \<longrightarrow> ts_final x = FUnschedulable \<and> ts_message x = [])"

text \<open>Every attempt was made on an agent with the required labels.\<close>

definition routed_ok :: "config \<Rightarrow> nat \<Rightarrow> 'd task_state \<Rightarrow> bool" where
  "routed_ok cfg t x \<longleftrightarrow>
     ts_tried x \<subseteq> {a. a < length (agents cfg) \<and> able cfg a t} \<and>
     rec_agent ` set (ts_attempts x) = (\<lambda>a. address (agents cfg ! a)) ` ts_tried x"

text \<open>A task is declared unschedulable only when no live agent can run it.\<close>

definition unsched_ok :: "config \<Rightarrow> bool list \<Rightarrow> nat \<Rightarrow> 'd task_state \<Rightarrow> bool" where
  "unsched_ok cfg al t x \<longleftrightarrow>
     (ts_done x \<and> ts_final x = FUnschedulable \<longrightarrow>
        \<not> live_able cfg al t \<and>
        ts_message x = unschedulable_message (ever_able cfg t) (needs (tasks cfg ! t)))"

definition task_ok :: "config \<Rightarrow> bool list \<Rightarrow> nat \<Rightarrow> 'd task_state \<Rightarrow> bool" where
  "task_ok cfg al t x \<longleftrightarrow>
     history_ok (retries (tasks cfg ! t)) x \<and> routed_ok cfg t x \<and> unsched_ok cfg al t x \<and>
     (ts_done x \<longrightarrow> \<not> ts_running x)"

definition count_ok :: "config \<Rightarrow> 'd run_state \<Rightarrow> bool" where
  "count_ok cfg s \<longleftrightarrow>
     length (st s) = length (tasks cfg) \<and> length (alive s) = length (agents cfg) \<and>
     remaining s = int (length (filter (\<lambda>x. \<not> ts_done x) (st s)))"

text \<open>Every retired agent is recorded exactly once.\<close>

definition dead_ok :: "config \<Rightarrow> 'd run_state \<Rightarrow> bool" where
  "dead_ok cfg s \<longleftrightarrow>
     mset (dead s) =
       image_mset (\<lambda>a. address (agents cfg ! a)) (mset_set {a. a < length (agents cfg) \<and> \<not> alive s ! a})"

definition tasks_ok :: "config \<Rightarrow> 'd run_state \<Rightarrow> bool" where
  "tasks_ok cfg s \<longleftrightarrow> (\<forall>t < length (tasks cfg). task_ok cfg (alive s) t (st s ! t))"

definition run_ok :: "config \<Rightarrow> 'd run_state \<Rightarrow> bool" where
  "run_ok cfg s \<longleftrightarrow> count_ok cfg s \<and> dead_ok cfg s \<and> tasks_ok cfg s"

subsection \<open>Updating one task\<close>

lemma upd_task_fields [run_simps]:
  "alive (upd_task t f s) = alive s" "dead (upd_task t f s) = dead s"
  "remaining (upd_task t f s) = remaining s" "length (st (upd_task t f s)) = length (st s)"
  "st (upd_task t f s) = (st s)[t := f (st s ! t)]"
  by (simp_all add: upd_task_def)

lemma finish_fields [run_simps]:
  "alive (finish t f msg s) = alive s" "dead (finish t f msg s) = dead s"
  "remaining (finish t f msg s) = remaining s - 1" "length (st (finish t f msg s)) = length (st s)"
  "st (finish t f msg s) = (st s)[t := (st s ! t)\<lparr>ts_done := True, ts_final := f, ts_message := msg\<rparr>]"
  by (simp_all add: finish_def upd_task_def)

lemma upd_task_upd_task:
  "t < length (st s) \<Longrightarrow> upd_task t f (upd_task t g s) = upd_task t (f \<circ> g) s"
  by (simp add: upd_task_def)

lemma count_ok_upd:
  assumes "count_ok cfg s" "t < length (tasks cfg)" "ts_done (f (st s ! t)) = ts_done (st s ! t)"
  shows "count_ok cfg (upd_task t f s)"
  using assms by (auto simp: count_ok_def run_simps filter_length_update_same)

lemma count_ok_finish:
  assumes "count_ok cfg s" "t < length (tasks cfg)" "\<not> ts_done (st s ! t)"
  shows "count_ok cfg (finish t f msg s)"
proof -
  have "Suc (length (filter (\<lambda>x. \<not> ts_done x) (st (finish t f msg s)))) = length (filter (\<lambda>x. \<not> ts_done x) (st s))"
    using assms unfolding finish_fields by (intro filter_length_update) (auto simp: count_ok_def)
  with assms(1) show ?thesis by (auto simp: count_ok_def run_simps)
qed

lemma dead_ok_cong:
  "alive s' = alive s \<Longrightarrow> dead s' = dead s \<Longrightarrow> dead_ok cfg s' = dead_ok cfg s"
  by (simp add: dead_ok_def)

lemma dead_ok_retire:
  assumes "dead_ok cfg s" "a < length (agents cfg)" "length (alive s) = length (agents cfg)" "alive s ! a"
  shows "dead_ok cfg (s\<lparr>alive := (alive s)[a := False], dead := dead s @ [address (agents cfg ! a)]\<rparr>)"
proof -
  have "{b. b < length (agents cfg) \<and> \<not> (alive s)[a := False] ! b} =
        insert a {b. b < length (agents cfg) \<and> \<not> alive s ! b}"
    using assms by (auto simp: nth_list_update split: if_splits)
  with assms show ?thesis by (simp add: dead_ok_def)
qed

lemma tasks_ok_upd:
  assumes "tasks_ok cfg s" "t < length (tasks cfg)" "length (st s) = length (tasks cfg)"
    "task_ok cfg (alive s) t (f (st s ! t))"
  shows "tasks_ok cfg (upd_task t f s)"
  using assms by (auto simp: tasks_ok_def run_simps nth_list_update)

text \<open>Retiring agents keeps what is known of the tasks.\<close>

definition fewer_alive :: "config \<Rightarrow> bool list \<Rightarrow> bool list \<Rightarrow> bool" where
  "fewer_alive cfg al al' \<longleftrightarrow> (\<forall>a < length (agents cfg). al' ! a \<longrightarrow> al ! a)"

lemma fewer_alive_refl [simp]: "fewer_alive cfg al al"
  by (simp add: fewer_alive_def)

lemma fewer_alive_update: "fewer_alive cfg al (al[a := False])"
  by (cases "a < length al") (auto simp: fewer_alive_def nth_list_update list_update_beyond split: if_splits)

lemma live_able_fewer: "fewer_alive cfg al al' \<Longrightarrow> live_able cfg al' t \<Longrightarrow> live_able cfg al t"
  by (auto simp: live_able_def fewer_alive_def)

lemma task_ok_fewer: "fewer_alive cfg al al' \<Longrightarrow> task_ok cfg al t x \<Longrightarrow> task_ok cfg al' t x"
  by (auto simp: task_ok_def unsched_ok_def dest: live_able_fewer)

subsection \<open>\<open>resolve_unschedulable\<close>\<close>

definition resolve_task :: "config \<Rightarrow> bool list \<Rightarrow> nat \<Rightarrow> 'd task_state \<Rightarrow> 'd task_state" where
  "resolve_task cfg al t x =
     (if ts_done x \<or> ts_running x \<or> live_able cfg al t then x
      else x\<lparr>ts_done := True, ts_final := FUnschedulable,
             ts_message := unschedulable_message (ever_able cfg t) (needs (tasks cfg ! t))\<rparr>)"

lemma resolve_one_eq:
  "resolve_one cfg t s =
     (if ts_done (st s ! t) \<or> ts_running (st s ! t) \<or> live_able cfg (alive s) t then s
      else finish t FUnschedulable (unschedulable_message (ever_able cfg t) (needs (tasks cfg ! t))) s)"
  unfolding resolve_one_def list_ex_upt Let_def live_able_def [symmetric] ever_able_def [symmetric] by simp

lemma resolve_one_fields [run_simps]:
  "alive (resolve_one cfg t s) = alive s" "dead (resolve_one cfg t s) = dead s"
  "length (st (resolve_one cfg t s)) = length (st s)"
  "st (resolve_one cfg t s) = (st s)[t := resolve_task cfg (alive s) t (st s ! t)]"
  by (auto simp: resolve_one_eq resolve_task_def run_simps)

lemma resolve_one_remaining: "remaining (resolve_one cfg t s) \<le> remaining s"
  by (simp add: resolve_one_eq run_simps)

lemma resolve_upto:
  assumes "k \<le> length (st s)"
  shows "alive (fold (resolve_one cfg) [0..<k] s) = alive s"
    and "dead (fold (resolve_one cfg) [0..<k] s) = dead s"
    and "length (st (fold (resolve_one cfg) [0..<k] s)) = length (st s)"
    and "\<forall>t < length (st s). st (fold (resolve_one cfg) [0..<k] s) ! t =
           (if t < k then resolve_task cfg (alive s) t (st s ! t) else st s ! t)"
    and "remaining (fold (resolve_one cfg) [0..<k] s) \<le> remaining s"
  using assms
proof (induction k)
  case (Suc k)
  {
    case 1
    with Suc.IH(1) show ?case by (simp add: run_simps)
  next
    case 2
    with Suc.IH(2) show ?case by (simp add: run_simps)
  next
    case 3
    with Suc.IH(3) show ?case by (simp add: run_simps)
  next
    case 4
    with Suc.IH(1,3,4) show ?case
      by (auto simp: run_simps nth_list_update less_Suc_eq)
  next
    case 5
    with Suc.IH(5) resolve_one_remaining [of cfg k "fold (resolve_one cfg) [0..<k] s"] show ?case
      by simp
  }
qed simp_all

lemma resolve_fields:
  assumes "length (st s) = length (tasks cfg)"
  shows "alive (resolve_unschedulable cfg s) = alive s"
    and "dead (resolve_unschedulable cfg s) = dead s"
    and "length (st (resolve_unschedulable cfg s)) = length (st s)"
    and "t < length (tasks cfg) \<Longrightarrow>
           st (resolve_unschedulable cfg s) ! t = resolve_task cfg (alive s) t (st s ! t)"
    and "remaining (resolve_unschedulable cfg s) \<le> remaining s"
  using resolve_upto [of "length (tasks cfg)" s cfg] assms
  by (auto simp: resolve_unschedulable_def)

lemma task_ok_resolve: "task_ok cfg al t x \<Longrightarrow> task_ok cfg al t (resolve_task cfg al t x)"
  by (auto simp: resolve_task_def task_ok_def history_ok_def routed_ok_def unsched_ok_def settled_def)

lemma count_ok_resolve_one: "count_ok cfg s \<Longrightarrow> t < length (tasks cfg) \<Longrightarrow> count_ok cfg (resolve_one cfg t s)"
  by (simp add: resolve_one_eq count_ok_finish)

lemma count_ok_resolve:
  assumes "count_ok cfg s"
  shows "count_ok cfg (resolve_unschedulable cfg s)"
proof -
  have "k \<le> length (tasks cfg) \<Longrightarrow> count_ok cfg (fold (resolve_one cfg) [0..<k] s)" for k
    by (induction k) (use assms in \<open>auto intro: count_ok_resolve_one\<close>)
  then show ?thesis by (simp add: resolve_unschedulable_def)
qed

lemma run_ok_resolve:
  assumes "run_ok cfg s"
  shows "run_ok cfg (resolve_unschedulable cfg s)"
proof -
  have len: "length (st s) = length (tasks cfg)" using assms by (simp add: run_ok_def count_ok_def)
  then have "tasks_ok cfg (resolve_unschedulable cfg s)"
    using assms by (auto simp: run_ok_def tasks_ok_def resolve_fields task_ok_resolve)
  moreover have "dead_ok cfg (resolve_unschedulable cfg s)"
    using assms len dead_ok_cong [OF resolve_fields(1,2)] by (auto simp: run_ok_def)
  ultimately show ?thesis using assms by (auto simp: run_ok_def count_ok_resolve)
qed

lemma run_ok_initial: "run_ok cfg (initial_run cfg)"
proof -
  have none: "{a. a < length (agents cfg) \<and> \<not> replicate (length (agents cfg)) True ! a} = {}" by auto
  show ?thesis
    unfolding run_ok_def
    by (auto simp: initial_run_def count_ok_def dead_ok_def none tasks_ok_def task_ok_def history_ok_def
        routed_ok_def unsched_ok_def settled_def initial_task_state_def)
qed

end
