(* ===== verification/Scheduler_Safety.thy ===== *)
theory Scheduler_Safety
  imports Scheduler_Tasks
begin

section \<open>Every step of a run keeps the invariant\<close>

text \<open>
  \<open>complete\<close> (a worker coming back from the executor) keeps \<open>run_ok\<close>; on top of it stands the
  invariant of the whole system, which says how the threads and the shared state agree: a task is
  marked running exactly while one thread executes it, a waiting thread has nothing to pick, an
  exited thread had a reason to. It is proved for every start and step, and the locale of
  transition systems then gives it for every reachable state.
\<close>

subsection \<open>\<open>complete\<close> keeps the invariant of the shared state\<close>

lemma run_ok_finish:
  assumes "count_ok cfg s" "dead_ok cfg s" "t < length (tasks cfg)" "\<not> ts_done (st s ! t)"
    and "\<And>u. u < length (tasks cfg) \<Longrightarrow> u \<noteq> t \<Longrightarrow> task_ok cfg (alive s) u (st s ! u)"
    and "task_ok cfg (alive s) t ((st s ! t)\<lparr>ts_done := True, ts_final := f, ts_message := msg\<rparr>)"
  shows "run_ok cfg (finish t f msg s)"
proof -
  have "tasks_ok cfg (finish t f msg s)"
    unfolding tasks_ok_def run_simps using assms by (auto simp: nth_list_update count_ok_def)
  moreover have "dead_ok cfg (finish t f msg s)"
    using assms(2) by (simp add: dead_ok_def run_simps)
  ultimately show ?thesis using assms by (simp add: run_ok_def count_ok_finish)
qed

lemma run_ok_upd:
  assumes "run_ok cfg s" "t < length (tasks cfg)" "ts_done (f (st s ! t)) = ts_done (st s ! t)"
    "task_ok cfg (alive s) t (f (st s ! t))"
  shows "run_ok cfg (upd_task t f s)"
proof -
  have "dead_ok cfg (upd_task t f s)"
    using assms(1) by (simp add: run_ok_def dead_ok_def run_simps)
  moreover have "length (st s) = length (tasks cfg)"
    using assms(1) by (simp add: run_ok_def count_ok_def)
  ultimately show ?thesis
    using assms by (simp add: run_ok_def count_ok_upd tasks_ok_upd)
qed

lemma run_ok_retire:
  assumes ok: "run_ok cfg s" and a: "a < length (agents cfg)"
  shows "run_ok cfg (retire cfg a s)"
proof (cases "alive s ! a")
  case True
  let ?s = "s\<lparr>alive := (alive s)[a := False], dead := dead s @ [address (agents cfg ! a)]\<rparr>"
  have "dead_ok cfg ?s"
    using ok a True by (intro dead_ok_retire) (auto simp: run_ok_def count_ok_def)
  moreover have "tasks_ok cfg ?s"
    using ok by (auto simp: run_ok_def tasks_ok_def intro: task_ok_fewer [OF fewer_alive_update])
  ultimately have "run_ok cfg ?s"
    using ok by (auto simp: run_ok_def count_ok_def)
  with True show ?thesis by (simp add: retire_def run_ok_resolve)
qed (use ok in \<open>simp add: retire_def\<close>)

text \<open>What one attempt does to the history of an undecided task.\<close>

lemma task_ok_undone:
  assumes "task_ok cfg al t x" "\<not> ts_done x"
  shows "verdict (retries (tasks cfg ! t)) 0 (statuses (ts_attempts x)) = None"
    and "ts_failures x = failures_in (statuses (ts_attempts x))"
    and "ts_final x = FUnschedulable" and "ts_message x = []"
  using assms by (auto simp: task_ok_def history_ok_def settled_def)

lemma routed_ok_record:
  assumes "routed_ok cfg t x" "a < length (agents cfg)" "able cfg a t"
  shows "routed_ok cfg t (record_attempt cfg a res x)"
  using assms by (auto simp: routed_ok_def record_attempt_def)

lemma record_attempt_fields [run_simps]:
  "ts_done (record_attempt cfg a res x) = ts_done x"
  "ts_running (record_attempt cfg a res x) = False"
  "ts_failures (record_attempt cfg a res x) = ts_failures x"
  "ts_final (record_attempt cfg a res x) = ts_final x"
  "ts_message (record_attempt cfg a res x) = ts_message x"
  "statuses (ts_attempts (record_attempt cfg a res x)) = statuses (ts_attempts x) @ [ar_status res]"
  by (simp_all add: record_attempt_def)

lemma routed_ok_cong:
  "ts_tried x = ts_tried y \<Longrightarrow> ts_attempts x = ts_attempts y \<Longrightarrow> routed_ok cfg t x = routed_ok cfg t y"
  by (simp add: routed_ok_def)

text \<open>An attempt that does not decide the task: an agent error, or a failure within the budget.\<close>

lemma task_ok_record_error:
  assumes "task_ok cfg al t x" "\<not> ts_done x" "a < length (agents cfg)" "able cfg a t"
    "ar_status res = AgentError"
  shows "task_ok cfg al t (record_attempt cfg a res x)"
proof -
  have "routed_ok cfg t (record_attempt cfg a res x)"
    using assms by (intro routed_ok_record) (auto simp: task_ok_def)
  moreover have "history_ok (retries (tasks cfg ! t)) (record_attempt cfg a res x)"
    using task_ok_undone [OF assms(1,2)] assms(2,5)
    unfolding history_ok_def settled_def by (simp add: run_simps verdict_snoc)
  ultimately show ?thesis using assms(2) by (simp add: task_ok_def unsched_ok_def run_simps)
qed

lemma task_ok_record_failure:
  assumes "task_ok cfg al t x" "\<not> ts_done x" "a < length (agents cfg)" "able cfg a t"
    "is_failure (ar_status res)" "\<not> ts_failures x + 1 > retries (tasks cfg ! t)"
  shows "task_ok cfg al t ((record_attempt cfg a res x)\<lparr>ts_failures := ts_failures x + 1\<rparr>)"
proof -
  let ?y = "(record_attempt cfg a res x)\<lparr>ts_failures := ts_failures x + 1\<rparr>"
  have "routed_ok cfg t (record_attempt cfg a res x)"
    using assms by (intro routed_ok_record) (auto simp: task_ok_def)
  then have "routed_ok cfg t ?y" by (simp add: routed_ok_def)
  moreover have "verdict (retries (tasks cfg ! t)) (ts_failures x) [ar_status res] = None"
    using assms(5,6) by (cases "ar_status res") auto
  then have "history_ok (retries (tasks cfg ! t)) ?y"
    using task_ok_undone [OF assms(1,2)] assms(2,5)
    unfolding history_ok_def settled_def by (simp add: run_simps verdict_snoc)
  ultimately show ?thesis using assms(2) by (simp add: task_ok_def unsched_ok_def run_simps)
qed

text \<open>An attempt that decides it.\<close>

lemma task_ok_record_final:
  assumes "task_ok cfg al t x" "\<not> ts_done x" "a < length (agents cfg)" "able cfg a t"
    and "verdict (retries (tasks cfg ! t)) (ts_failures x) [ar_status res] = Some f"
    and "n = ts_failures x + (if is_failure (ar_status res) then 1 else 0)"
  shows "task_ok cfg al t ((record_attempt cfg a res x)
           \<lparr>ts_failures := n, ts_done := True, ts_final := f, ts_message := []\<rparr>)"
proof -
  let ?y = "(record_attempt cfg a res x)\<lparr>ts_failures := n, ts_done := True, ts_final := f, ts_message := []\<rparr>"
  have f: "f \<noteq> FUnschedulable" using assms(5) verdict_not_unschedulable by metis
  have "routed_ok cfg t (record_attempt cfg a res x)"
    using assms by (intro routed_ok_record) (auto simp: task_ok_def)
  then have "routed_ok cfg t ?y" by (simp add: routed_ok_def)
  moreover have "history_ok (retries (tasks cfg ! t)) ?y"
    using task_ok_undone [OF assms(1,2)] assms(5,6) f
    unfolding history_ok_def settled_def by (simp add: run_simps verdict_snoc)
  ultimately show ?thesis using f by (simp add: task_ok_def unsched_ok_def run_simps)
qed

text \<open>The whole critical section, with its composed updates made explicit.\<close>

lemma complete_cases:
  assumes "t < length (st s)"
  obtains
    (passed) "ar_status res = APassed"
      "complete cfg a t res s = finish t FPassed [] (upd_task t (record_attempt cfg a res) s)"
  | (final) "is_failure (ar_status res)" "ts_failures (st s ! t) + 1 > retries (tasks cfg ! t)"
      "complete cfg a t res s = finish t (if ar_status res = ATimedOut then FTimedOut else FFailed) []
         (upd_task t (\<lambda>x. (record_attempt cfg a res x)\<lparr>ts_failures := ts_failures x + 1\<rparr>) s)"
  | (retry) "is_failure (ar_status res)" "\<not> ts_failures (st s ! t) + 1 > retries (tasks cfg ! t)"
      "complete cfg a t res s =
         upd_task t (\<lambda>x. (record_attempt cfg a res x)\<lparr>ts_failures := ts_failures x + 1\<rparr>) s"
  | (error) "ar_status res = AgentError"
      "complete cfg a t res s = retire cfg a (upd_task t (record_attempt cfg a res) s)"
proof -
  have upd: "upd_task t (\<lambda>x. x\<lparr>ts_failures := ts_failures x + 1\<rparr>) (upd_task t (record_attempt cfg a res) s) =
      upd_task t (\<lambda>x. (record_attempt cfg a res x)\<lparr>ts_failures := ts_failures x + 1\<rparr>) s"
    using assms by (simp add: upd_task_upd_task comp_def run_simps)
  have n: "ts_failures (st (upd_task t (\<lambda>x. (record_attempt cfg a res x)\<lparr>ts_failures := ts_failures x + 1\<rparr>) s) ! t)
      = ts_failures (st s ! t) + 1"
    using assms by (simp add: run_simps)
  show thesis
    by (cases "ar_status res"; cases "ts_failures (st s ! t) + 1 > retries (tasks cfg ! t)")
      (use upd n in \<open>auto intro: passed final retry error simp: complete_def Let_def\<close>)
qed

lemma run_ok_complete:
  assumes ok: "run_ok cfg s" and t: "t < length (tasks cfg)" and a: "a < length (agents cfg)"
    and undone: "\<not> ts_done (st s ! t)" and able: "able cfg a t"
  shows "run_ok cfg (complete cfg a t res s)"
proof -
  have len: "length (st s) = length (tasks cfg)" and tok: "task_ok cfg (alive s) t (st s ! t)"
    and others: "\<And>u. u < length (tasks cfg) \<Longrightarrow> task_ok cfg (alive s) u (st s ! u)"
    using ok t by (auto simp: run_ok_def count_ok_def tasks_ok_def)
  have fin: "run_ok cfg (finish t f [] (upd_task t g s))"
    if "ts_done (g (st s ! t)) = ts_done (st s ! t)"
      "task_ok cfg (alive s) t ((g (st s ! t))\<lparr>ts_done := True, ts_final := f, ts_message := []\<rparr>)" for f g
    using that ok t undone others len
    by (intro run_ok_finish) (auto simp: run_ok_def run_simps count_ok_upd dead_ok_def)
  have t': "t < length (st s)" using t len by simp
  show ?thesis
  proof (rule complete_cases [OF t', of res cfg a])
    assume 1: "ar_status res = APassed"
      "complete cfg a t res s = finish t FPassed [] (upd_task t (record_attempt cfg a res) s)"
    have "task_ok cfg (alive s) t ((record_attempt cfg a res (st s ! t))
        \<lparr>ts_failures := ts_failures (st s ! t), ts_done := True, ts_final := FPassed, ts_message := []\<rparr>)"
      using 1 by (intro task_ok_record_final [OF tok undone a able]) auto
    then show ?thesis using 1 by (auto intro!: fin simp: run_simps record_attempt_def)
  next
    assume 2: "is_failure (ar_status res)" "ts_failures (st s ! t) + 1 > retries (tasks cfg ! t)"
      "complete cfg a t res s = finish t (if ar_status res = ATimedOut then FTimedOut else FFailed) []
         (upd_task t (\<lambda>x. (record_attempt cfg a res x)\<lparr>ts_failures := ts_failures x + 1\<rparr>) s)"
    show ?thesis unfolding 2(3)
      by (rule fin, simp add: run_simps)
        (use 2 in \<open>auto intro!: task_ok_record_final [OF tok undone a able] simp: is_failure_def\<close>)
  next
    assume 3: "is_failure (ar_status res)" "\<not> ts_failures (st s ! t) + 1 > retries (tasks cfg ! t)"
      "complete cfg a t res s =
         upd_task t (\<lambda>x. (record_attempt cfg a res x)\<lparr>ts_failures := ts_failures x + 1\<rparr>) s"
    then show ?thesis using task_ok_record_failure [OF tok undone a able] ok t
      by (auto intro!: run_ok_upd simp: run_simps)
  next
    assume 4: "ar_status res = AgentError"
      "complete cfg a t res s = retire cfg a (upd_task t (record_attempt cfg a res) s)"
    then show ?thesis using task_ok_record_error [OF tok undone a able] ok t a
      by (auto intro!: run_ok_retire run_ok_upd simp: run_simps)
  qed
qed

end
