(* ===== verification/Scheduler_Threads.thy ===== *)
theory Scheduler_Threads
  imports Scheduler_Safety
begin

section \<open>The invariant of the whole system: threads and shared state\<close>

text \<open>
  The workers' invariant. It is stated so that one thread can be taken out of it (the one
  inside the critical section): \<open>hold_ok cfg s ths w\<close> speaks of every thread but \<open>w\<close>, and
  \<open>resume\<close>, which puts \<open>w\<close> back, turns it into \<open>sys_ok\<close>.
\<close>

definition thread_ok :: "config \<Rightarrow> 'd run_state \<Rightarrow> thread \<Rightarrow> bool" where
  "thread_ok cfg s th =
     (case th of (a, p) \<Rightarrow> a < length (agents cfg) \<and>
       (case p of
          Ready \<Rightarrow> True
        | Waiting \<Rightarrow> remaining s > 0 \<and> alive s ! a \<and> pick cfg s a = None
        | Busy t \<Rightarrow> t < length (tasks cfg) \<and> ts_running (st s ! t) \<and> \<not> ts_done (st s ! t) \<and> able cfg a t
        | Exited \<Rightarrow> remaining s \<le> 0 \<or> \<not> alive s ! a))"

definition busy_on :: "thread list \<Rightarrow> nat \<Rightarrow> nat \<Rightarrow> bool" where
  "busy_on ths w t \<longleftrightarrow> w < length ths \<and> snd (ths ! w) = Busy t"

definition hold_ok :: "config \<Rightarrow> 'd run_state \<Rightarrow> thread list \<Rightarrow> nat \<Rightarrow> bool" where
  "hold_ok cfg s ths w \<longleftrightarrow>
     run_ok cfg s \<and> map fst ths = map fst (spawn_threads cfg) \<and>
     (\<forall>v < length ths. v \<noteq> w \<longrightarrow> thread_ok cfg s (ths ! v)) \<and>
     (\<forall>v v' t. v \<noteq> w \<longrightarrow> v' \<noteq> w \<longrightarrow> busy_on ths v t \<longrightarrow> busy_on ths v' t \<longrightarrow> v = v') \<and>
     (\<forall>t < length (tasks cfg). ts_running (st s ! t) \<longrightarrow> (\<exists>v. v \<noteq> w \<and> busy_on ths v t))"

definition sys_ok :: "config \<Rightarrow> 'd sys \<Rightarrow> bool" where
  "sys_ok cfg c \<longleftrightarrow> hold_ok cfg (shared c) (threads c) (length (threads c))"

text \<open>The owner of every thread is one of the agents.\<close>

lemma spawn_threads_owner: "th \<in> set (spawn_threads cfg) \<Longrightarrow> fst th < length (agents cfg) \<and> snd th = Ready"
  by (auto simp: spawn_threads_def)

lemma spawn_threads_count:
  "a < length (agents cfg) \<Longrightarrow> length (filter (\<lambda>b. b = a) (map fst (spawn_threads cfg))) = slots (agents cfg ! a)"
proof -
  have "length (filter (\<lambda>b. b = a) (map fst (concat (map (\<lambda>a. replicate (f a) (a, Ready)) [0..<n])))) =
      (if a < n then f a else 0)" for f and n :: nat
    by (induction n) (auto simp: filter_replicate less_Suc_eq)
  then show "a < length (agents cfg) \<Longrightarrow> ?thesis" by (simp add: spawn_threads_def)
qed

lemma owner_lt:
  assumes "map fst ths = map fst (spawn_threads cfg)" "v < length ths"
  shows "fst (ths ! v) < length (agents cfg)"
proof -
  have "fst (ths ! v) \<in> set (map fst (spawn_threads cfg))"
    using assms by (metis length_map nth_map nth_mem)
  then show ?thesis using spawn_threads_owner by auto
qed

subsection \<open>Waking threads up\<close>

lemma notify_all_length [run_simps]: "length (notify_all ths) = length ths"
  by (simp add: notify_all_def)

lemma notify_all_owners [run_simps]: "map fst (notify_all ths) = map fst ths"
  by (simp add: notify_all_def case_prod_beta)

lemma notify_all_nth:
  "v < length ths \<Longrightarrow> notify_all ths ! v =
     (fst (ths ! v), if snd (ths ! v) = Waiting then Ready else snd (ths ! v))"
  by (simp add: notify_all_def case_prod_beta)

lemma busy_on_notify [run_simps]: "busy_on (notify_all ths) v t \<longleftrightarrow> busy_on ths v t"
  by (auto simp: busy_on_def run_simps notify_all_nth split: if_splits)

lemma thread_ok_Ready: "thread_ok cfg s (a, p) \<Longrightarrow> thread_ok cfg s (a, Ready)"
  by (simp add: thread_ok_def)

lemma thread_ok_notify:
  "v < length ths \<Longrightarrow> thread_ok cfg s (ths ! v) \<Longrightarrow> thread_ok cfg s (notify_all ths ! v)"
  by (cases "ths ! v") (auto simp: notify_all_nth thread_ok_Ready)

lemma hold_ok_notify: "hold_ok cfg s ths w \<Longrightarrow> hold_ok cfg s (notify_all ths) w"
  unfolding hold_ok_def by (auto simp: run_simps thread_ok_notify)

subsection \<open>\<open>pick\<close> and the loop head\<close>

lemma may_pick_simps:
  "may_pick cfg s a t \<longleftrightarrow>
     \<not> ts_done (st s ! t) \<and> \<not> ts_running (st s ! t) \<and> able cfg a t \<and>
     \<not> (a \<in> ts_tried (st s ! t) \<and> has_fresh_candidate cfg s t a)"
  by (auto simp: may_pick_def)

lemma pick_Some:
  assumes "pick cfg s a = Some t"
  shows "t < length (tasks cfg)" "may_pick cfg s a t"
  using assms by (auto simp: pick_def dest: find_upt_Some)

lemma pick_None: "pick cfg s a = None \<longleftrightarrow> (\<forall>t < length (tasks cfg). \<not> may_pick cfg s a t)"
  by (simp add: pick_def find_upt_None)

text \<open>Marking a task as running takes no choice from nobody: it only removes that task.\<close>

definition mark_running :: "'d task_state \<Rightarrow> 'd task_state" where
  "mark_running x = x\<lparr>ts_running := True\<rparr>"

lemma has_fresh_mark:
  assumes "length (st s) = length (tasks cfg)"
  shows "has_fresh_candidate cfg (upd_task t mark_running s) u a = has_fresh_candidate cfg s u a"
  using assms by (cases "t < length (st s)")
    (auto simp: has_fresh_candidate_def run_simps nth_list_update mark_running_def list_update_beyond)

lemma pick_None_mark:
  assumes "pick cfg s a = None" "length (st s) = length (tasks cfg)"
  shows "pick cfg (upd_task t mark_running s) a = None"
proof -
  have "\<not> may_pick cfg (upd_task t mark_running s) a u" if "u < length (tasks cfg)" for u
    using assms that unfolding pick_None may_pick_simps has_fresh_mark [OF assms(2)]
    by (cases "u = t") (auto simp: run_simps mark_running_def)
  then show ?thesis by (simp add: pick_None)
qed

lemma run_ok_mark:
  assumes "run_ok cfg s" "t < length (tasks cfg)" "\<not> ts_done (st s ! t)"
  shows "run_ok cfg (upd_task t mark_running s)"
proof (rule run_ok_upd)
  have "task_ok cfg (alive s) t (st s ! t)" using assms by (simp add: run_ok_def tasks_ok_def)
  then show "task_ok cfg (alive s) t (mark_running (st s ! t))"
    using assms(3)
    by (simp add: task_ok_def history_ok_def routed_ok_def unsched_ok_def settled_def mark_running_def)
qed (use assms in \<open>simp_all add: mark_running_def\<close>)

lemma thread_ok_mark:
  assumes "thread_ok cfg s th" "length (st s) = length (tasks cfg)" "t < length (tasks cfg)"
    "\<not> ts_running (st s ! t)"
  shows "thread_ok cfg (upd_task t mark_running s) th"
  using assms
  by (cases th; cases "snd th")
    (auto simp: thread_ok_def pick_None_mark run_simps nth_list_update mark_running_def)

lemma loop_head_cases:
  obtains
    (exit) "loop_head cfg a s = (s, Exited)" "remaining s \<le> 0 \<or> \<not> alive s ! a"
  | (wait) "loop_head cfg a s = (s, Waiting)" "remaining s > 0" "alive s ! a" "pick cfg s a = None"
  | (start) t where "loop_head cfg a s = (upd_task t mark_running s, Busy t)" "remaining s > 0" "alive s ! a"
      "t < length (tasks cfg)" "may_pick cfg s a t"
  by (cases "remaining s > 0 \<and> alive s ! a"; cases "pick cfg s a")
    (auto simp: loop_head_def mark_running_def [abs_def] dest: pick_Some)

subsection \<open>Putting the thread back\<close>

lemma busy_on_update:
  "busy_on (ths[w := (a, p)]) v t \<longleftrightarrow> (if v = w then w < length ths \<and> p = Busy t else busy_on ths v t)"
  by (auto simp: busy_on_def nth_list_update)

lemma owners_update:
  assumes "map fst ths = map fst (spawn_threads cfg)" "w < length ths" "fst (ths ! w) = a"
  shows "map fst (ths[w := (a, p)]) = map fst (spawn_threads cfg)"
  using assms by (metis fst_conv length_map list_update_id map_update nth_map)

text \<open>Thread \<open>w\<close> returns in a state that does not claim a task.\<close>

lemma hold_ok_idle:
  assumes "hold_ok cfg s ths w" "w < length ths" "fst (ths ! w) = a"
    "thread_ok cfg s (a, p)" "\<And>t. p \<noteq> Busy t"
  shows "hold_ok cfg s (ths[w := (a, p)]) (length ths)"
  using assms unfolding hold_ok_def busy_on_update
  by (auto simp: owners_update nth_list_update) (metis busy_on_def less_irrefl)+

lemma hold_ok_start:
  assumes "hold_ok cfg s ths w" "w < length ths" "fst (ths ! w) = a"
    and t: "t < length (tasks cfg)" "may_pick cfg s a t"
  shows "hold_ok cfg (upd_task t mark_running s) (ths[w := (a, Busy t)]) (length ths)"
proof -
  have h: "run_ok cfg s" "map fst ths = map fst (spawn_threads cfg)"
      "\<And>v. v < length ths \<Longrightarrow> v \<noteq> w \<Longrightarrow> thread_ok cfg s (ths ! v)"
      "\<And>v v' u. v \<noteq> w \<Longrightarrow> v' \<noteq> w \<Longrightarrow> busy_on ths v u \<Longrightarrow> busy_on ths v' u \<Longrightarrow> v = v'"
      "\<And>u. u < length (tasks cfg) \<Longrightarrow> ts_running (st s ! u) \<Longrightarrow> \<exists>v. v \<noteq> w \<and> busy_on ths v u"
    using assms(1) unfolding hold_ok_def by blast+
  have free: "\<not> ts_running (st s ! t)" "\<not> ts_done (st s ! t)" "able cfg a t"
    using t by (auto simp: may_pick_simps)
  have len: "length (st s) = length (tasks cfg)" using h(1) by (simp add: run_ok_def count_ok_def)
  have a: "a < length (agents cfg)" using owner_lt [OF h(2) assms(2)] assms(3) by simp
  have no: "\<not> busy_on ths v t" if "v \<noteq> w" for v
    using h(3) [OF _ that] free by (cases "ths ! v") (auto simp: busy_on_def thread_ok_def)
  have "thread_ok cfg (upd_task t mark_running s) ((ths[w := (a, Busy t)]) ! v)" if "v < length ths" for v
    using that h(3) a t free len
    by (cases "v = w") (auto simp: nth_list_update thread_ok_mark, auto simp: thread_ok_def run_simps mark_running_def)
  moreover have "\<exists>v. v \<noteq> length ths \<and> busy_on (ths[w := (a, Busy t)]) v u"
    if u: "u < length (tasks cfg)" "ts_running (st (upd_task t mark_running s) ! u)" for u
  proof (cases "u = t")
    case True
    then show ?thesis using assms(2) by (auto simp: busy_on_update intro!: exI [of _ w])
  next
    case False
    then obtain v where "v \<noteq> w" "busy_on ths v u"
      using u h(5) [of u] by (auto simp: run_simps)
    then have "busy_on (ths[w := (a, Busy t)]) v u" "v < length ths"
      by (simp_all add: busy_on_update) (simp add: busy_on_def)
    then show ?thesis by (metis less_irrefl)
  qed
  moreover have "v = v'" if "busy_on (ths[w := (a, Busy t)]) v u" "busy_on (ths[w := (a, Busy t)]) v' u" for v v' u
    using that h(4) no by (auto simp: busy_on_update split: if_splits)
  ultimately show ?thesis
    unfolding hold_ok_def using h(1,2) assms(2,3) t free
    by (auto simp: owners_update run_ok_mark)
qed

lemma resume_ok:
  assumes "hold_ok cfg s ths w" "w < length ths" "fst (ths ! w) = a"
  shows "sys_ok cfg (resume cfg w a s ths)"
proof -
  have own: "map fst ths = map fst (spawn_threads cfg)" using assms(1) by (simp add: hold_ok_def)
  have a: "a < length (agents cfg)" using owner_lt [OF own assms(2)] assms(3) by simp
  show ?thesis
  proof (rule loop_head_cases [of cfg a s])
    assume "loop_head cfg a s = (s, Exited)" "remaining s \<le> 0 \<or> \<not> alive s ! a"
    then show ?thesis
      using hold_ok_notify [OF hold_ok_idle [OF assms, of Exited]] a
      by (simp add: sys_ok_def resume_def run_simps thread_ok_def)
  next
    assume "loop_head cfg a s = (s, Waiting)" "remaining s > 0" "alive s ! a" "pick cfg s a = None"
    then show ?thesis
      using hold_ok_idle [OF assms, of Waiting] a by (simp add: sys_ok_def resume_def thread_ok_def)
  next
    fix t
    assume "loop_head cfg a s = (upd_task t mark_running s, Busy t)" "t < length (tasks cfg)" "may_pick cfg s a t"
    then show ?thesis
      using hold_ok_start [OF assms] by (simp add: sys_ok_def resume_def)
  qed
qed

subsection \<open>Coming back from the executor\<close>

text \<open>What \<open>complete\<close> leaves alone: other running tasks, and it only ever retires agents.\<close>

lemma resolve_frame:
  assumes "length (st s) = length (tasks cfg)" "u < length (tasks cfg)"
  shows "ts_running (st (resolve_unschedulable cfg s) ! u) = ts_running (st s ! u)"
    and "ts_running (st s ! u) \<Longrightarrow> st (resolve_unschedulable cfg s) ! u = st s ! u"
  using assms by (simp_all add: resolve_fields resolve_task_def)

lemma retire_frame:
  assumes "length (st s) = length (tasks cfg)"
  shows "remaining (retire cfg a s) \<le> remaining s"
    and "fewer_alive cfg (alive s) (alive (retire cfg a s))"
    and "u < length (tasks cfg) \<Longrightarrow> ts_running (st (retire cfg a s) ! u) = ts_running (st s ! u)"
    and "u < length (tasks cfg) \<Longrightarrow> ts_running (st s ! u) \<Longrightarrow> st (retire cfg a s) ! u = st s ! u"
proof -
  let ?s = "s\<lparr>alive := (alive s)[a := False], dead := dead s @ [address (agents cfg ! a)]\<rparr>"
  have len: "length (st ?s) = length (tasks cfg)" using assms by simp
  show "remaining (retire cfg a s) \<le> remaining s"
    using resolve_fields(5) [OF len] by (simp add: retire_def)
  show "fewer_alive cfg (alive s) (alive (retire cfg a s))"
    using resolve_fields(1) [OF len] by (simp add: retire_def fewer_alive_update)
  show "u < length (tasks cfg) \<Longrightarrow> ts_running (st (retire cfg a s) ! u) = ts_running (st s ! u)"
    using resolve_frame(1) [OF len, of u] by (simp add: retire_def)
  show "u < length (tasks cfg) \<Longrightarrow> ts_running (st s ! u) \<Longrightarrow> st (retire cfg a s) ! u = st s ! u"
    using resolve_frame(2) [OF len, of u] by (simp add: retire_def)
qed

lemma complete_frame:
  assumes "length (st s) = length (tasks cfg)" "t < length (tasks cfg)"
  shows "remaining (complete cfg a t res s) \<le> remaining s"
    and "fewer_alive cfg (alive s) (alive (complete cfg a t res s))"
    and "u < length (tasks cfg) \<Longrightarrow>
           ts_running (st (complete cfg a t res s) ! u) = (u \<noteq> t \<and> ts_running (st s ! u))"
    and "u < length (tasks cfg) \<Longrightarrow> u \<noteq> t \<Longrightarrow> ts_running (st s ! u) \<Longrightarrow>
           st (complete cfg a t res s) ! u = st s ! u"
proof -
  have t: "t < length (st s)" using assms by simp
  let ?s = "upd_task t (record_attempt cfg a res) s"
  have len: "length (st ?s) = length (tasks cfg)" using assms by (simp add: run_simps)
  have run: "ts_running (st ?s ! u) = (u \<noteq> t \<and> ts_running (st s ! u))"
    using t by (cases "u = t") (auto simp: run_simps)
  have same: "u \<noteq> t \<Longrightarrow> st ?s ! u = st s ! u" by (simp add: run_simps)
  show "remaining (complete cfg a t res s) \<le> remaining s"
    by (rule complete_cases [OF t, of res cfg a]) (use retire_frame(1) [OF len, of a] in \<open>auto simp: run_simps\<close>)
  show "fewer_alive cfg (alive s) (alive (complete cfg a t res s))"
    by (rule complete_cases [OF t, of res cfg a]) (use retire_frame(2) [OF len, of a] in \<open>auto simp: run_simps\<close>)
  show "u < length (tasks cfg) \<Longrightarrow>
           ts_running (st (complete cfg a t res s) ! u) = (u \<noteq> t \<and> ts_running (st s ! u))"
    by (rule complete_cases [OF t, of res cfg a])
      (use t retire_frame(3) [OF len, of u a] run in \<open>auto simp: run_simps nth_list_update\<close>)
  show "u < length (tasks cfg) \<Longrightarrow> u \<noteq> t \<Longrightarrow> ts_running (st s ! u) \<Longrightarrow>
           st (complete cfg a t res s) ! u = st s ! u"
    by (rule complete_cases [OF t, of res cfg a])
      (use t retire_frame(4) [OF len, of u a] run same in \<open>auto simp: run_simps\<close>)
qed

text \<open>A thread that is not waiting keeps its invariant while another thread completes.\<close>

lemma thread_ok_complete:
  assumes "thread_ok cfg s (b, p)" "p \<noteq> Waiting" "p \<noteq> Busy t"
    and "length (st s) = length (tasks cfg)" "t < length (tasks cfg)"
  shows "thread_ok cfg (complete cfg a t res s) (b, p)"
proof (cases p)
  case (Busy u)
  with assms complete_frame(3,4) [OF assms(4,5), of u a res] show ?thesis
    by (auto simp: thread_ok_def)
next
  case Exited
  with assms complete_frame(1,2) [OF assms(4,5), of a res] show ?thesis
    by (auto simp: thread_ok_def fewer_alive_def)
qed (use assms in \<open>auto simp: thread_ok_def\<close>)

lemma sys_ok_holds:
  assumes "sys_ok cfg c"
  shows "run_ok cfg (shared c)" "map fst (threads c) = map fst (spawn_threads cfg)"
    and "v < length (threads c) \<Longrightarrow> thread_ok cfg (shared c) (threads c ! v)"
    and "busy_on (threads c) v t \<Longrightarrow> busy_on (threads c) v' t \<Longrightarrow> v = v'"
    and "t < length (tasks cfg) \<Longrightarrow> ts_running (st (shared c) ! t) \<Longrightarrow> \<exists>v. busy_on (threads c) v t"
    and "length (st (shared c)) = length (tasks cfg)" "length (alive (shared c)) = length (agents cfg)"
proof -
  have ok: "hold_ok cfg (shared c) (threads c) (length (threads c))"
    using assms by (simp add: sys_ok_def)
  then show "run_ok cfg (shared c)" "map fst (threads c) = map fst (spawn_threads cfg)"
      "v < length (threads c) \<Longrightarrow> thread_ok cfg (shared c) (threads c ! v)"
    by (auto simp: hold_ok_def)
  show "busy_on (threads c) v t \<Longrightarrow> busy_on (threads c) v' t \<Longrightarrow> v = v'"
    using ok unfolding hold_ok_def by (metis busy_on_def less_irrefl)
  show "t < length (tasks cfg) \<Longrightarrow> ts_running (st (shared c) ! t) \<Longrightarrow> \<exists>v. busy_on (threads c) v t"
    using ok unfolding hold_ok_def by blast
  show "length (st (shared c)) = length (tasks cfg)" "length (alive (shared c)) = length (agents cfg)"
    using ok by (auto simp: hold_ok_def run_ok_def count_ok_def)
qed

lemma hold_ok_complete:
  assumes ok: "sys_ok cfg c" and w: "w < length (threads c)" "threads c ! w = (a, Busy t)"
  shows "hold_ok cfg (complete cfg a t res (shared c)) (notify_all (threads c)) w"
proof -
  note h = sys_ok_holds [OF ok]
  have tok: "thread_ok cfg (shared c) (a, Busy t)" using h(3) [OF w(1)] w(2) by simp
  then have t: "t < length (tasks cfg)" "ts_running (st (shared c) ! t)" "\<not> ts_done (st (shared c) ! t)"
      "able cfg a t" "a < length (agents cfg)"
    by (auto simp: thread_ok_def)
  have busy_w: "busy_on (threads c) w t" using w by (simp add: busy_on_def)
  let ?s = "complete cfg a t res (shared c)"
  have "thread_ok cfg ?s (notify_all (threads c) ! v)" if v: "v < length (threads c)" "v \<noteq> w" for v
  proof -
    have "notify_all (threads c) ! v = (fst (threads c ! v), if snd (threads c ! v) = Waiting then Ready else snd (threads c ! v))"
      using v by (simp add: notify_all_nth)
    moreover have "snd (threads c ! v) \<noteq> Busy t"
      using h(4) [OF busy_w, of v] v by (auto simp: busy_on_def)
    ultimately show ?thesis
      using thread_ok_notify [OF v(1) h(3) [OF v(1)]] h(6) t(1)
      by (cases "threads c ! v") (auto intro!: thread_ok_complete)
  qed
  moreover have "\<exists>v. v \<noteq> w \<and> busy_on (threads c) v u"
    if "u < length (tasks cfg)" "ts_running (st ?s ! u)" for u
    using that complete_frame(3) [OF h(6) t(1), of u a res] h(5) [of u] w(2)
    by (auto simp: busy_on_def) (metis pc.inject snd_conv)
  ultimately show ?thesis
    unfolding hold_ok_def run_simps
    using h(1,2,4) t by (auto intro: run_ok_complete)
qed

text \<open>What a thread that has just started a task went through.\<close>

lemma resume_busy:
  assumes "w < length ths" "threads (resume cfg w a s ths) ! w = (b, Busy t)"
  shows "b = a" "shared (resume cfg w a s ths) = upd_task t mark_running s"
    and "may_pick cfg s a t" "alive s ! a" "t < length (tasks cfg)"
proof -
  have "loop_head cfg a s = (upd_task t mark_running s, Busy t) \<and> b = a \<and> may_pick cfg s a t \<and>
      alive s ! a \<and> t < length (tasks cfg)"
  proof (rule loop_head_cases [of cfg a s])
    assume "loop_head cfg a s = (s, Exited)"
    then show ?thesis using assms by (simp add: resume_def notify_all_nth)
  next
    assume "loop_head cfg a s = (s, Waiting)"
    then show ?thesis using assms by (simp add: resume_def)
  next
    fix u
    assume "loop_head cfg a s = (upd_task u mark_running s, Busy u)" "may_pick cfg s a u" "alive s ! a"
      "u < length (tasks cfg)"
    then show ?thesis using assms by (simp add: resume_def)
  qed
  then show "b = a" "shared (resume cfg w a s ths) = upd_task t mark_running s"
      "may_pick cfg s a t" "alive s ! a" "t < length (tasks cfg)"
    by (simp_all add: resume_def)
qed

lemma step_resumes:
  assumes "sched_step cfg c e c'" "e = Enter w \<or> e = Complete w res"
  obtains a s ths where "c' = resume cfg w a s ths" "w < length ths"
  using assms(1)
proof cases
  case (enter v a)
  with assms(2) show thesis by (intro that [of a "shared c" "threads c"]) auto
next
  case (complete v a t r)
  with assms(2) show thesis
    by (intro that [of a "complete cfg a t r (shared c)" "notify_all (threads c)"]) (auto simp: run_simps)
qed (use assms(2) in auto)

subsection \<open>Every reachable state satisfies the invariant\<close>

lemma sys_ok_initial: "sys_ok cfg (initial_sys cfg)"
proof -
  let ?s = "resolve_unschedulable cfg (initial_run cfg)"
  have len: "length (st (initial_run cfg)) = length (tasks cfg)" by (simp add: initial_run_def)
  have idle: "snd (spawn_threads cfg ! v) = Ready" "fst (spawn_threads cfg ! v) < length (agents cfg)"
    if "v < length (spawn_threads cfg)" for v
    using that spawn_threads_owner nth_mem by metis+
  have "thread_ok cfg ?s (spawn_threads cfg ! v)" if "v < length (spawn_threads cfg)" for v
    using idle [OF that] by (cases "spawn_threads cfg ! v") (simp add: thread_ok_def)
  moreover have "\<not> busy_on (spawn_threads cfg) v t" for v t
    using idle by (auto simp: busy_on_def)
  moreover have "\<not> ts_running (st ?s ! t)" if "t < length (tasks cfg)" for t
    using that resolve_frame(1) [OF len that] by (simp add: initial_run_def initial_task_state_def)
  ultimately show ?thesis
    unfolding sys_ok_def hold_ok_def initial_sys_def sys.simps
    by (blast intro: run_ok_resolve run_ok_initial)
qed

lemma sys_ok_step:
  assumes ok: "sys_ok cfg c" and step: "sched_step cfg c e c'"
  shows "sys_ok cfg c'"
  using step
proof cases
  case (enter w a)
  have "hold_ok cfg (shared c) (threads c) w"
    using sys_ok_holds [OF ok] enter unfolding hold_ok_def
    by (auto simp: busy_on_def) (metis pc.distinct(3) snd_conv)
  with enter show ?thesis by (simp add: resume_ok)
next
  case (complete w a t res)
  then have "hold_ok cfg (complete cfg a t res (shared c)) (notify_all (threads c)) w"
    by (intro hold_ok_complete [OF ok])
  moreover have "fst (notify_all (threads c) ! w) = a" "w < length (notify_all (threads c))"
    using complete by (simp_all add: notify_all_nth run_simps)
  ultimately show ?thesis using complete by (simp add: resume_ok)
next
  case (spurious w a)
  have "hold_ok cfg (shared c) (threads c) w"
    using sys_ok_holds [OF ok] spurious unfolding hold_ok_def
    by (auto simp: busy_on_def) (metis pc.distinct(7) snd_conv)
  moreover have "thread_ok cfg (shared c) (a, Ready)"
    using sys_ok_holds(3) [OF ok spurious(3)] spurious by (auto intro: thread_ok_Ready)
  ultimately have "hold_ok cfg (shared c) ((threads c)[w := (a, Ready)]) (length (threads c))"
    using spurious by (intro hold_ok_idle) auto
  with spurious show ?thesis by (simp add: sys_ok_def)
qed

interpretation sched: transition_system "\<lambda>c. c = initial_sys cfg" "sched_step cfg" "sys_ok cfg" for cfg
  by unfold_locales (auto simp: sys_ok_initial intro: sys_ok_step)

end
