(* ===== verification/Scheduler_Progress.thy ===== *)
theory Scheduler_Progress
  imports Scheduler_Liveness
begin

section \<open>Progress: who can be left behind\<close>

text \<open>
  A pending task is orphaned when no live agent can run it any more. Without orphans the system
  is never stuck and stops only when every task is decided. \<open>calm_step\<close> restricts the runs to
  those where an agent error never finds another task in flight on the same agent; no orphan
  exists in such a run. The last section is the run that shows what happens otherwise: a task
  that comes back from an agent already retired by another slot is put back in the queue
  unconditionally, nobody resolves it, and \<open>run\<close> never returns.
\<close>

definition orphan :: "config \<Rightarrow> 'd run_state \<Rightarrow> nat \<Rightarrow> bool" where
  "orphan cfg s t \<longleftrightarrow>
     t < length (tasks cfg) \<and> \<not> ts_done (st s ! t) \<and> \<not> ts_running (st s ! t) \<and> \<not> live_able cfg (alive s) t"

definition no_orphans :: "config \<Rightarrow> 'd run_state \<Rightarrow> bool" where
  "no_orphans cfg s \<longleftrightarrow> (\<forall>t < length (tasks cfg). \<not> orphan cfg s t)"

text \<open>What the constructor guarantees: every agent has a slot.\<close>

definition slots_pos :: "config \<Rightarrow> bool" where
  "slots_pos cfg \<longleftrightarrow> list_all (\<lambda>a. slots a > 0) (agents cfg)"

lemma slots_pos_make: "slots_pos (make_config as ts)"
  by (auto simp: slots_pos_def make_config_def normalize_agents_def list_all_iff)

text \<open>Some thread can take a step of its own: it is about to enter, or its executor call returns.\<close>

definition active :: "'d sys \<Rightarrow> bool" where
  "active c \<longleftrightarrow> list_ex (\<lambda>th. snd th \<noteq> Waiting \<and> snd th \<noteq> Exited) (threads c)"

lemma active_enabled:
  assumes "active c"
  shows "\<exists>e c'. \<not> is_spurious e \<and> sched_step cfg c e c'"
proof -
  obtain w where w: "w < length (threads c)" "snd (threads c ! w) \<noteq> Waiting" "snd (threads c ! w) \<noteq> Exited"
    using assms by (auto simp: active_def list_ex_iff in_set_conv_nth)
  show ?thesis
  proof (cases "threads c ! w")
    case (Pair a p)
    show ?thesis
    proof (cases p)
      case Ready
      with w Pair show ?thesis by (metis is_spurious.simps(2) sched_step.enter)
    next
      case (Busy t)
      with w Pair show ?thesis by (metis is_spurious.simps(3) sched_step.complete)
    qed (use w Pair in auto)
  qed
qed

lemma enabled_active:
  assumes "sched_step cfg c e c'" "\<not> is_spurious e"
  shows "active c"
  using assms by (cases rule: sched_stepE) (force simp: active_def list_ex_iff in_set_conv_nth)+

subsection \<open>Progress without orphans\<close>

lemma thread_of_agent:
  assumes "slots_pos cfg" "map fst ths = map fst (spawn_threads cfg)" "a < length (agents cfg)"
  obtains w where "w < length ths" "fst (ths ! w) = a"
proof -
  have "0 < length (filter (\<lambda>b. b = a) (map fst ths))"
    using spawn_threads_count [OF assms(3)] assms by (auto simp: slots_pos_def list_all_length)
  then have "a \<in> set (map fst ths)" by (auto simp: filter_empty_conv)
  then show thesis using that by (auto simp: in_set_conv_nth)
qed

lemma undone_exists:
  assumes "run_ok cfg s" "remaining s > 0"
  obtains t where "t < length (tasks cfg)" "\<not> ts_done (st s ! t)"
proof -
  have "filter (\<lambda>x. \<not> ts_done x) (st s) \<noteq> []"
    using assms by (auto simp: run_ok_def count_ok_def)
  then obtain x where "x \<in> set (st s)" "\<not> ts_done x" by (auto simp: filter_empty_conv)
  then show thesis using that assms(1) by (auto simp: run_ok_def count_ok_def in_set_conv_nth)
qed

lemma none_undone:
  assumes "run_ok cfg s" "remaining s \<le> 0" "t < length (tasks cfg)"
  shows "ts_done (st s ! t)"
proof -
  have "filter (\<lambda>x. \<not> ts_done x) (st s) = []" using assms by (auto simp: run_ok_def count_ok_def)
  then show ?thesis using assms by (auto simp: filter_empty_conv run_ok_def count_ok_def)
qed

text \<open>A live agent that could run a pending task has a thread that would pick it or another's would.\<close>

lemma waiting_not_able:
  assumes ok: "sys_ok cfg c" and quiet: "\<not> active c" and pos: "slots_pos cfg"
    and t: "t < length (tasks cfg)" "\<not> ts_done (st (shared c) ! t)" "\<not> ts_running (st (shared c) ! t)"
    and rem: "remaining (shared c) > 0"
  shows "\<not> live_able cfg (alive (shared c)) t"
proof
  note h = sys_ok_holds [OF ok]
  have picked: "pick cfg (shared c) a = None" if a: "a < length (agents cfg)" "alive (shared c) ! a" for a
  proof -
    obtain w where w: "w < length (threads c)" "fst (threads c ! w) = a"
      using thread_of_agent [OF pos h(2) a(1)] .
    then have "snd (threads c ! w) = Waiting \<or> snd (threads c ! w) = Exited"
      using quiet nth_mem [OF w(1)] by (auto simp: active_def list_ex_iff)
    with h(3) [OF w(1)] w(2) a(2) rem show ?thesis
      by (cases "threads c ! w") (auto simp: thread_ok_def)
  qed
  assume "live_able cfg (alive (shared c)) t"
  then obtain b where b: "b < length (agents cfg)" "able cfg b t" "alive (shared c) ! b"
    by (auto simp: live_able_def)
  then have "has_fresh_candidate cfg (shared c) t b"
    using picked [OF b(1,3)] t by (auto simp: pick_None may_pick_simps)
  then obtain a where "a < length (agents cfg)" "alive (shared c) ! a" "able cfg a t"
      "a \<notin> ts_tried (st (shared c) ! t)"
    by (auto simp: has_fresh_candidate_def list_ex_iff)
  then show False using picked t by (auto simp: pick_None may_pick_simps)
qed

lemma quiet_no_running:
  assumes "sys_ok cfg c" "\<not> active c" "t < length (tasks cfg)"
  shows "\<not> ts_running (st (shared c) ! t)"
proof
  assume "ts_running (st (shared c) ! t)"
  then obtain v where "busy_on (threads c) v t" using sys_ok_holds(5) [OF assms(1,3)] by blast
  then show False using assms(2) by (force simp: active_def busy_on_def list_ex_iff in_set_conv_nth)
qed

text \<open>A system with nothing left to do has decided every task but the orphans.\<close>

lemma quiet_done:
  assumes ok: "sys_ok cfg c" and quiet: "\<not> active c" and pos: "slots_pos cfg"
    and t: "t < length (tasks cfg)" "\<not> orphan cfg (shared c) t"
  shows "ts_done (st (shared c) ! t)"
proof (rule ccontr)
  assume undone: "\<not> ts_done (st (shared c) ! t)"
  have "remaining (shared c) > 0"
    using none_undone [OF sys_ok_holds(1) [OF ok] _ t(1)] undone by force
  with waiting_not_able [OF ok quiet pos t(1) undone quiet_no_running [OF ok quiet t(1)]] undone t
  show False using quiet_no_running [OF ok quiet t(1)] by (simp add: orphan_def)
qed

lemma quiet_exited:
  assumes ok: "sys_ok cfg c" and quiet: "\<not> active c" and pos: "slots_pos cfg"
    and no: "no_orphans cfg (shared c)"
  shows "all_exited c"
proof -
  have "remaining (shared c) \<le> 0"
    using undone_exists [OF sys_ok_holds(1) [OF ok]] quiet_done [OF ok quiet pos] no
    by (metis no_orphans_def not_less)
  then have "snd (threads c ! w) = Exited" if "w < length (threads c)" for w
    using sys_ok_holds(3) [OF ok that] quiet that
    by (cases "threads c ! w"; cases "snd (threads c ! w)")
      (force simp: thread_ok_def active_def list_ex_iff in_set_conv_nth)+
  then show ?thesis by (simp add: all_exited_def list_all_length)
qed

subsection \<open>Calm runs\<close>

text \<open>An agent error never finds another task in flight on the agent it retires.\<close>

definition calm_event :: "'d sys \<Rightarrow> 'd event \<Rightarrow> bool" where
  "calm_event c e =
     (case e of
        Complete w res \<Rightarrow>
          (ar_status res = AgentError \<longrightarrow>
             (\<forall>v < length (threads c). \<forall>t. v \<noteq> w \<longrightarrow> threads c ! v \<noteq> (fst (threads c ! w), Busy t)))
      | _ \<Rightarrow> True)"

definition calm_step :: "config \<Rightarrow> 'd sys \<Rightarrow> 'd event \<Rightarrow> 'd sys \<Rightarrow> bool" where
  "calm_step cfg c e c' \<longleftrightarrow> sched_step cfg c e c' \<and> calm_event c e"

definition calm_ok :: "config \<Rightarrow> 'd sys \<Rightarrow> bool" where
  "calm_ok cfg c \<longleftrightarrow> sys_ok cfg c \<and> no_orphans cfg (shared c) \<and>
     (\<forall>w < length (threads c). \<forall>a t. threads c ! w = (a, Busy t) \<longrightarrow> alive (shared c) ! a)"

lemma no_orphans_resolve:
  assumes "length (st s) = length (tasks cfg)"
  shows "no_orphans cfg (resolve_unschedulable cfg s)"
  using resolve_fields [OF assms] by (auto simp: no_orphans_def orphan_def resolve_task_def)

lemma no_orphans_mark:
  assumes "no_orphans cfg s" "length (st s) = length (tasks cfg)"
  shows "no_orphans cfg (upd_task t mark_running s)"
proof -
  have "\<not> orphan cfg (upd_task t mark_running s) u" if "u < length (tasks cfg)" for u
    using assms that by (cases "u = t") (auto simp: no_orphans_def orphan_def run_simps mark_running_def)
  then show ?thesis by (simp add: no_orphans_def)
qed

lemma no_orphans_complete:
  assumes "no_orphans cfg s" "length (st s) = length (tasks cfg)" "t < length (tasks cfg)"
    "a < length (agents cfg)" "alive s ! a" "able cfg a t"
  shows "no_orphans cfg (complete cfg a t res s)"
proof -
  have t: "t < length (st s)" using assms by simp
  have here: "live_able cfg (alive s) t" using assms by (auto simp: live_able_def)
  have old: "orphan cfg s u \<Longrightarrow> False" if "u < length (tasks cfg)" for u
    using assms(1) that by (auto simp: no_orphans_def)
  show ?thesis
  proof (rule complete_cases [OF t, of res cfg a])
    assume *: "complete cfg a t res s = retire cfg a (upd_task t (record_attempt cfg a res) s)"
    have "length (st (upd_task t (record_attempt cfg a res) s \<lparr>alive := al, dead := d\<rparr>)) = length (tasks cfg)"
      for al d using assms(2) by (simp add: run_simps)
    then show ?thesis unfolding * using assms(5) by (simp add: retire_def run_simps no_orphans_resolve)
  qed (use t old here in \<open>auto simp: no_orphans_def orphan_def run_simps nth_list_update split: if_splits\<close>)
qed

text \<open>After the agent error the other agents are as alive as before.\<close>

lemma complete_alive:
  assumes "length (st s) = length (tasks cfg)" "t < length (tasks cfg)" "b \<noteq> a \<or> ar_status res \<noteq> AgentError"
  shows "alive (complete cfg a t res s) ! b = alive s ! b"
proof -
  have t: "t < length (st s)" using assms by simp
  have len: "length (st (upd_task t (record_attempt cfg a res) s \<lparr>alive := al, dead := d\<rparr>)) = length (tasks cfg)"
    for al d using assms(1) by (simp add: run_simps)
  show ?thesis
    by (rule complete_cases [OF t, of res cfg a])
      (use assms(3) resolve_fields(1) [OF len] in \<open>auto simp: run_simps retire_def is_failure_def nth_list_update\<close>)
qed

lemma calm_resume:
  assumes "no_orphans cfg s" "length (st s) = length (tasks cfg)" "w < length ths"
    and "\<And>v b t. v < length ths \<Longrightarrow> v \<noteq> w \<Longrightarrow> ths ! v = (b, Busy t) \<Longrightarrow> alive s ! b"
  shows "no_orphans cfg (shared (resume cfg w a s ths)) \<and>
    (\<forall>v < length (threads (resume cfg w a s ths)). \<forall>b t.
       threads (resume cfg w a s ths) ! v = (b, Busy t) \<longrightarrow> alive (shared (resume cfg w a s ths)) ! b)"
proof (rule loop_head_cases [of cfg a s])
  fix t
  assume "loop_head cfg a s = (upd_task t mark_running s, Busy t)" "alive s ! a"
  then show ?thesis using assms
    by (auto simp: resume_def run_simps nth_list_update no_orphans_mark split: if_splits)
next
  assume "loop_head cfg a s = (s, Exited)"
  then show ?thesis using assms
    by (auto simp: resume_def run_simps notify_all_nth nth_list_update split: if_splits) (metis prod.collapse)+
qed (use assms in \<open>auto simp: resume_def nth_list_update split: if_splits\<close>)

lemma calm_ok_step:
  assumes ok: "calm_ok cfg c" and step: "calm_step cfg c e c'"
  shows "calm_ok cfg c'"
proof -
  have sys: "sys_ok cfg c" and no: "no_orphans cfg (shared c)"
    and busy: "\<And>w a t. w < length (threads c) \<Longrightarrow> threads c ! w = (a, Busy t) \<Longrightarrow> alive (shared c) ! a"
    using ok by (auto simp: calm_ok_def)
  have sched: "sched_step cfg c e c'" and calm: "calm_event c e"
    using step by (auto simp: calm_step_def)
  note h = sys_ok_holds [OF sys]
  have "no_orphans cfg (shared c') \<and>
      (\<forall>v < length (threads c'). \<forall>b t. threads c' ! v = (b, Busy t) \<longrightarrow> alive (shared c') ! b)"
    using sched
  proof cases
    case (enter w a)
    then show ?thesis using calm_resume [OF no h(6), of w "threads c" a] busy by blast
  next
    case (complete w a t res)
    have "thread_ok cfg (shared c) (a, Busy t)" using h(3) [OF complete(3)] complete(4) by simp
    then have t: "t < length (tasks cfg)" "able cfg a t" "a < length (agents cfg)" "\<not> ts_done (st (shared c) ! t)"
      by (auto simp: thread_ok_def)
    let ?s = "complete cfg a t res (shared c)"
    have no': "no_orphans cfg ?s"
      using no h(6) t busy [OF complete(3,4)] by (intro no_orphans_complete)
    have len': "length (st ?s) = length (tasks cfg)"
      using run_ok_complete [OF h(1) t(1,3,4,2), of res] by (simp add: run_ok_def count_ok_def)
    have alive': "alive ?s ! b" if "v < length (threads c)" "v \<noteq> w" "threads c ! v = (b, Busy u)" for v b u
    proof -
      have "b \<noteq> a \<or> ar_status res \<noteq> AgentError"
        using calm complete that by (auto simp: calm_event_def)
      from complete_alive [OF h(6) t(1) this] show ?thesis using busy [OF that(1,3)] by simp
    qed
    have "alive ?s ! b" if "v < length (notify_all (threads c))" "v \<noteq> w" "notify_all (threads c) ! v = (b, Busy u)"
      for v b u
      using that alive' [of v b u] by (cases "threads c ! v") (auto simp: run_simps notify_all_nth split: if_splits)
    then show ?thesis
      unfolding complete(2) using complete(3)
      by (intro calm_resume [OF no' len']) (auto simp: run_simps)
  next
    case (spurious w a)
    then show ?thesis using no busy by (auto simp: nth_list_update split: if_splits)
  qed
  then show ?thesis using sys_ok_step [OF sys sched] by (simp add: calm_ok_def)
qed

lemma calm_ok_initial: "calm_ok cfg (initial_sys cfg :: 'd sys)"
proof -
  let ?c = "initial_sys cfg :: 'd sys"
  have len: "length (threads ?c) = length (spawn_threads cfg)" by (simp add: initial_sys_def)
  have "snd (threads ?c ! w) = Ready" if "w < length (threads ?c)" for w
    using that spawn_threads_owner nth_mem unfolding len by (metis initial_sys_def sys.select_convs(2))
  then have "threads ?c ! w \<noteq> (a, Busy t)" if "w < length (threads ?c)" for w a t
    using that by force
  moreover have "no_orphans cfg (shared ?c)"
    by (simp add: initial_sys_def no_orphans_resolve initial_run_def)
  moreover have "sys_ok cfg ?c" by (rule sys_ok_initial)
  ultimately show ?thesis by (simp add: calm_ok_def)
qed

interpretation calm: transition_system "\<lambda>c. c = initial_sys cfg" "calm_step cfg" "calm_ok cfg" for cfg
  by unfold_locales (auto simp: calm_ok_initial intro: calm_ok_step)

end
