(* ===== verification/Scheduler_Properties.thy ===== *)
theory Scheduler_Properties
  imports Scheduler_Progress
begin

section \<open>What the scheduler promises, and the promise it breaks\<close>

text \<open>
  The properties of \<open>Scheduler::run\<close> over every interleaving of its workers, each with a witness
  on a concrete fleet. \<open>demo_cfg\<close> is a fleet of a two-slot KVM host and a plain host with a
  flaky task, a task that times out and a task nobody can run; \<open>hang_cfg\<close> is the fleet of the
  run that never returns.
\<close>

subsection \<open>Example fleets\<close>

definition kvm_agent :: agent_info where
  "kvm_agent = \<lparr>address = ''kvmhost:7001'', hostname = ''kvmhost'', slots = 2, labels = [''kvm=true'']\<rparr>"

definition plain_agent :: agent_info where
  "plain_agent = \<lparr>address = ''plain:7001'', hostname = ''plain'', slots = 0, labels = []\<rparr>"

definition demo_task :: "string \<Rightarrow> int \<Rightarrow> string list \<Rightarrow> task" where
  "demo_task nm r ns = default_task\<lparr>task_name := nm, argv := [''/bin/true''], retries := r, needs := ns\<rparr>"

definition demo_cfg :: config where
  "demo_cfg = make_config [kvm_agent, plain_agent]
     [demo_task ''flaky'' 1 [], demo_task ''slow'' 1 [''kvm''], demo_task ''gpu'' 0 [''gpu=true'']]"

definition hang_cfg :: config where
  "hang_cfg = make_config [kvm_agent, plain_agent]
     [demo_task ''vm0'' 0 [''kvm=true''], demo_task ''vm1'' 0 [''kvm=true'']]"

definition demo_result :: "attempt_status \<Rightarrow> nat attempt_result" where
  "demo_result s = \<lparr>ar_status = s, ar_exit_code = -1, ar_out = [], ar_err = [], ar_message = [], ar_seconds = 0\<rparr>"

definition demo_start :: "nat event list" where
  "demo_start = [Enter 0, Enter 1, Enter 2]"

definition demo_retry :: "nat event list" where
  "demo_retry = [Complete 0 (demo_result AFailed), Enter 2]"

definition demo_rest :: "nat event list" where
  "demo_rest = [Complete 2 (demo_result APassed), Complete 1 (demo_result ATimedOut),
     Complete 1 (demo_result ATimedOut), Enter 0, Enter 2]"

definition demo_busy :: "nat sys" where
  "demo_busy = the (sched_replay demo_cfg (initial_sys demo_cfg) demo_start)"

definition demo_retried :: "nat sys" where
  "demo_retried = the (sched_replay demo_cfg demo_busy demo_retry)"

definition demo_end :: "nat sys" where
  "demo_end = the (sched_replay demo_cfg demo_retried demo_rest)"

definition hang_events :: "nat event list" where
  "hang_events = [Enter 0, Enter 1, Enter 2, Complete 0 (demo_result AgentError),
     Complete 1 (demo_result AgentError), Enter 2]"

definition hang_end :: "nat sys" where
  "hang_end = the (sched_replay hang_cfg (initial_sys hang_cfg) hang_events)"

lemma replay_the: "sched_replay cfg c es \<noteq> None \<Longrightarrow> run_of (sched_step cfg) c es (the (sched_replay cfg c es))"
  by (simp add: sched_replay_run [symmetric])

lemma demo_run_busy: "run_of (sched_step demo_cfg) (initial_sys demo_cfg) demo_start demo_busy"
  unfolding demo_busy_def by (rule replay_the) code_simp

lemma demo_run_retried: "run_of (sched_step demo_cfg) (initial_sys demo_cfg) (demo_start @ demo_retry) demo_retried"
  unfolding demo_retried_def
  by (rule run_of_append [OF demo_run_busy replay_the]) (simp only: demo_busy_def, code_simp)

lemma demo_run_end:
  "run_of (sched_step demo_cfg) (initial_sys demo_cfg) ((demo_start @ demo_retry) @ demo_rest) demo_end"
  unfolding demo_end_def
  by (rule run_of_append [OF demo_run_retried replay_the]) (simp only: demo_retried_def demo_busy_def, code_simp)

lemma hang_run: "run_of (sched_step hang_cfg) (initial_sys hang_cfg) hang_events hang_end"
  unfolding hang_end_def by (rule replay_the) code_simp

subsection \<open>Reachable states\<close>

lemma reached_ok: "run_of (sched_step cfg) (initial_sys cfg) es c \<Longrightarrow> sys_ok cfg c"
  by (rule sched.inv_reached) auto

lemma reached_task:
  assumes "run_of (sched_step cfg) (initial_sys cfg) es c" "t < length (tasks cfg)"
  shows "task_ok cfg (alive (shared c)) t (st (shared c) ! t)"
  using sys_ok_holds(1) [OF reached_ok [OF assms(1)]] assms(2) by (simp add: run_ok_def tasks_ok_def)

text \<open>
  Property C1. In every reachable state and for every task, the final status that the scheduler
  has recorded is the verdict of the retry policy on the attempts made so far: the first pass, or
  the failure that exceeds the retry budget, agent errors being free.
\<close>

theorem outcome_is_verdict:
  assumes "run_of (sched_step cfg) (initial_sys cfg) es c" "t < length (tasks cfg)"
  shows "verdict (retries (tasks cfg ! t)) 0 (statuses (ts_attempts (st (shared c) ! t))) =
     (if ts_done (st (shared c) ! t) \<and> ts_final (st (shared c) ! t) \<noteq> FUnschedulable
      then Some (ts_final (st (shared c) ! t)) else None)"
  using reached_task [OF assms] by (simp add: task_ok_def history_ok_def settled_def)

theorem outcome_is_verdict_witness:
  "verdict 1 0 (statuses (ts_attempts (st (shared demo_end) ! 0))) = Some FPassed"
proof -
  have t: "0 < length (tasks demo_cfg)" by code_simp
  have r: "retries (tasks demo_cfg ! 0) = 1" by code_simp
  have f: "ts_done (st (shared demo_end) ! 0) \<and> ts_final (st (shared demo_end) ! 0) = FPassed"
    unfolding demo_end_def demo_retried_def demo_busy_def by code_simp
  show ?thesis using outcome_is_verdict [OF demo_run_end t] r f by simp
qed

text \<open>
  Property C2. The outcome of a decided task says how its attempts went: passed means that the
  last attempt passed and at most \<open>retries\<close> earlier ones failed; failed and timed out mean that
  exactly \<open>retries + 1\<close> attempts failed and that the last one failed that way; unschedulable
  means that no attempt passed, the budget was not exhausted and no live agent has the labels.
\<close>

theorem decided_task_history:
  assumes "run_of (sched_step cfg) (initial_sys cfg) es c" "t < length (tasks cfg)"
    and "0 \<le> retries (tasks cfg ! t)" "ts_done (st (shared c) ! t)"
    and "ss = statuses (ts_attempts (st (shared c) ! t))"
  shows "case ts_final (st (shared c) ! t) of
      FPassed \<Rightarrow> ss \<noteq> [] \<and> last ss = APassed \<and> APassed \<notin> set (butlast ss) \<and>
        failures_in ss \<le> retries (tasks cfg ! t)
    | FFailed \<Rightarrow> ss \<noteq> [] \<and> last ss = AFailed \<and> APassed \<notin> set ss \<and> failures_in ss = retries (tasks cfg ! t) + 1
    | FTimedOut \<Rightarrow> ss \<noteq> [] \<and> last ss = ATimedOut \<and> APassed \<notin> set ss \<and> failures_in ss = retries (tasks cfg ! t) + 1
    | FUnschedulable \<Rightarrow> APassed \<notin> set ss \<and> failures_in ss \<le> retries (tasks cfg ! t) \<and>
        \<not> live_able cfg (alive (shared c)) t"
proof -
  let ?x = "st (shared c) ! t"
  let ?r = "retries (tasks cfg ! t)"
  note ok = reached_task [OF assms(1,2)]
  show ?thesis
  proof (cases "ts_final ?x = FUnschedulable")
    case True
    then have "verdict ?r 0 ss = None"
      using ok assms(5) by (simp add: task_ok_def history_ok_def settled_def)
    with True show ?thesis
      using verdict_None_no_pass [of ?r 0 ss] verdict_None_budget [of ?r 0 ss] ok assms(3,4)
      by (auto simp: task_ok_def unsched_ok_def)
  next
    case False
    then have v: "verdict ?r 0 ss = Some (ts_final ?x)" "verdict ?r 0 (butlast ss) = None"
      using ok assms(4,5) by (auto simp: task_ok_def history_ok_def settled_def)
    then have ss: "ss \<noteq> []" by auto
    have one: "verdict ?r (failures_in (butlast ss)) [last ss] = Some (ts_final ?x)"
      using verdict_snoc [of ?r 0 "butlast ss" "last ss"] v ss by simp
    have fail: "failures_in ss = failures_in (butlast ss) + (if is_failure (last ss) then 1 else 0)"
      using failures_in_simps(3) [of "butlast ss" "[last ss]"] ss by simp
    have nopass: "APassed \<in> set ss \<longleftrightarrow> last ss = APassed" "APassed \<notin> set (butlast ss)"
      using verdict_None_no_pass [OF v(2)] ss by (metis append_butlast_last_id in_set_conv_decomp
          Un_iff set_append list.set_intros(1) empty_iff insert_iff list.set(1) list.simps(15))+
    show ?thesis
      using one verdict_None_budget [OF v(2)] fail nopass ss assms(3)
      by (cases "last ss") (auto split: if_splits)
  qed
qed

theorem decided_task_history_witness:
  "last (statuses (ts_attempts (st (shared demo_end) ! 1))) = ATimedOut \<and>
   failures_in (statuses (ts_attempts (st (shared demo_end) ! 1))) = 2"
proof -
  have t: "1 < length (tasks demo_cfg)" and r: "retries (tasks demo_cfg ! 1) = 1"
    by code_simp+
  have f: "ts_done (st (shared demo_end) ! 1)" "ts_final (st (shared demo_end) ! 1) = FTimedOut"
    unfolding demo_end_def demo_retried_def demo_busy_def by code_simp+
  show ?thesis using decided_task_history [OF demo_run_end t _ f(1) refl] r f(2) by simp
qed

text \<open>
  Property C3. Label routing: every attempt recorded for a task was made on an agent whose labels
  satisfy all its requirements, and so is every attempt in flight.
\<close>

theorem tasks_run_on_capable_agents:
  assumes "run_of (sched_step cfg) (initial_sys cfg) es c" "t < length (tasks cfg)"
    and "(w < length (threads c) \<and> threads c ! w = (b, Busy t) \<and> addr = address (agents cfg ! b)) \<or>
      addr \<in> rec_agent ` set (ts_attempts (st (shared c) ! t))"
  shows "\<exists>a < length (agents cfg). address (agents cfg ! a) = addr \<and>
      labels_satisfy (labels (agents cfg ! a)) (needs (tasks cfg ! t))"
  using assms(3)
proof
  assume *: "w < length (threads c) \<and> threads c ! w = (b, Busy t) \<and> addr = address (agents cfg ! b)"
  then have "thread_ok cfg (shared c) (b, Busy t)"
    using sys_ok_holds(3) [OF reached_ok [OF assms(1)], of w] by simp
  with * show ?thesis by (auto simp: thread_ok_def able_def)
next
  assume "addr \<in> rec_agent ` set (ts_attempts (st (shared c) ! t))"
  then show ?thesis
    using reached_task [OF assms(1,2)] by (auto simp: task_ok_def routed_ok_def able_def)
qed

theorem tasks_run_on_capable_agents_witness:
  "\<exists>a < length (agents demo_cfg). address (agents demo_cfg ! a) = ''kvmhost:7001'' \<and>
     labels_satisfy (labels (agents demo_cfg ! a)) [''kvm'']"
proof -
  have t: "1 < length (tasks demo_cfg)" and n: "needs (tasks demo_cfg ! 1) = [''kvm'']"
    by code_simp+
  have "''kvmhost:7001'' \<in> rec_agent ` set (ts_attempts (st (shared demo_end) ! 1))"
    unfolding demo_end_def demo_retried_def demo_busy_def by code_simp
  from tasks_run_on_capable_agents [OF demo_run_end t, of 0 0 "''kvmhost:7001''"] this n show ?thesis by auto
qed

text \<open>
  Property C4. Mutual exclusion: no task is ever executed by two workers at once, and a task
  that is being executed has not been decided.
\<close>

theorem no_task_runs_twice_at_once:
  assumes "run_of (sched_step cfg) (initial_sys cfg) es c"
    and "v < length (threads c)" "w < length (threads c)"
    and "snd (threads c ! v) = Busy t" "snd (threads c ! w) = Busy t"
  shows "v = w \<and> t < length (tasks cfg) \<and> \<not> ts_done (st (shared c) ! t)"
  using sys_ok_holds(3) [OF reached_ok [OF assms(1)] assms(2)]
    sys_ok_holds(4) [OF reached_ok [OF assms(1)], of v t w] assms(2-5)
  by (cases "threads c ! v") (auto simp: busy_on_def thread_ok_def)

theorem no_task_runs_twice_at_once_witness:
  "snd (threads demo_busy ! 1) = Busy 1 \<and> \<not> ts_done (st (shared demo_busy) ! 1)"
proof -
  have b: "1 < length (threads demo_busy)" "snd (threads demo_busy ! 1) = Busy 1"
    unfolding demo_busy_def by code_simp+
  then show ?thesis using no_task_runs_twice_at_once [OF demo_run_busy b(1) b(1)] by simp
qed

text \<open>
  Property C5. Slot limit: an agent never executes more tasks at once than it has slots, in any
  reachable state and under any interleaving.
\<close>

theorem slots_never_exceeded:
  assumes "run_of (sched_step cfg) (initial_sys cfg) es c" "a < length (agents cfg)"
  shows "length (filter (\<lambda>th. fst th = a \<and> is_busy (snd th)) (threads c)) \<le> slots (agents cfg ! a)"
proof -
  have "length (filter (\<lambda>th. fst th = a \<and> is_busy (snd th)) (threads c))
      \<le> length (filter (\<lambda>th. fst th = a) (threads c))"
    by (rule filter_length_mono) simp
  also have "\<dots> = length (filter (\<lambda>b. b = a) (map fst (threads c)))"
    by (simp add: filter_map comp_def)
  also have "\<dots> = slots (agents cfg ! a)"
    using sys_ok_holds(2) [OF reached_ok [OF assms(1)]] spawn_threads_count [OF assms(2)] by simp
  finally show ?thesis .
qed

theorem slots_never_exceeded_witness:
  "length (filter (\<lambda>th. fst th = 0 \<and> is_busy (snd th)) (threads demo_busy)) \<le> 2"
proof -
  have a: "0 < length (agents demo_cfg)" and n: "slots (agents demo_cfg ! 0) = 2" by code_simp+
  show ?thesis using slots_never_exceeded [OF demo_run_busy a] n by simp
qed

text \<open>
  Retries avoid the agent that failed: when a worker starts a task on an agent that
  has already made an attempt at it, every live agent with the required labels has made one.
\<close>

theorem retry_prefers_untried_agents:
  assumes "distinct (map address (agents cfg))"
    and "run_of (sched_step cfg) (initial_sys cfg) es c" "sched_step cfg c e c'"
    and "e = Enter w \<or> e = Complete w res" "threads c' ! w = (a, Busy t)"
    and "address (agents cfg ! a) \<in> rec_agent ` set (ts_attempts (st (shared c') ! t))"
    and "b < length (agents cfg)" "able cfg b t" "alive (shared c') ! b"
  shows "address (agents cfg ! b) \<in> rec_agent ` set (ts_attempts (st (shared c') ! t))"
proof -
  have "run_of (sched_step cfg) (initial_sys cfg) (es @ [e]) c'"
    using assms(2,3) by (rule run_of_snoc)
  note ok' = reached_ok [OF this]
  obtain a' s ths where c': "c' = resume cfg w a' s ths" "w < length ths"
    using step_resumes [OF assms(3,4)] .
  note started = resume_busy [OF c'(2) assms(5) [unfolded c'(1)], folded c'(1)]
  have agent: "a < length (agents cfg)"
    using owner_lt [OF sys_ok_holds(2) [OF ok'], of w] c' assms(5) by (simp add: resume_def run_simps Let_def split: prod.splits)
  have rt: "routed_ok cfg t (st (shared c') ! t)"
    using sys_ok_holds(1) [OF ok'] started(5) by (simp add: run_ok_def tasks_ok_def task_ok_def)
  have same: "ts_tried (st (shared c') ! t) = ts_tried (st s ! t)" "alive (shared c') = alive s"
    unfolding started(2) by (cases "t < length (st s)"; simp add: run_simps mark_running_def list_update_beyond)+
  obtain a2 where a2: "a2 \<in> ts_tried (st (shared c') ! t)" "address (agents cfg ! a2) = address (agents cfg ! a)"
    using rt assms(6) by (auto simp: routed_ok_def)
  then have "a2 < length (agents cfg)" using rt by (auto simp: routed_ok_def)
  then have "a2 = a" using a2(2) assms(1) agent by (auto simp: distinct_conv_nth)
  then have "\<not> has_fresh_candidate cfg s t a" and "a \<in> ts_tried (st s ! t)"
    using started(1,3) a2(1) same by (auto simp: may_pick_simps)
  then have "b \<in> ts_tried (st (shared c') ! t)"
    using assms(7-9) same by (auto simp: has_fresh_candidate_def list_ex_iff)
  then show ?thesis using rt by (auto simp: routed_ok_def)
qed

definition demo_again :: "nat sys" where
  "demo_again = the (sched_replay demo_cfg demo_retried (take 1 demo_rest))"

lemma demo_run_again:
  "run_of (sched_step demo_cfg) (initial_sys demo_cfg) ((demo_start @ demo_retry) @ take 1 demo_rest) demo_again"
  unfolding demo_again_def
  by (rule run_of_append [OF demo_run_retried replay_the]) (simp only: demo_retried_def demo_busy_def, code_simp)

theorem retry_prefers_untried_agents_witness:
  "\<exists>c. sched_step demo_cfg demo_again (Complete 1 (demo_result ATimedOut)) c \<and>
     threads c ! 1 = (0, Busy 1) \<and> ''kvmhost:7001'' \<in> rec_agent ` set (ts_attempts (st (shared c) ! 1))"
proof -
  let ?e = "Complete 1 (demo_result ATimedOut)"
  define c where "c = the (sched_next demo_cfg demo_again ?e)"
  have step: "sched_step demo_cfg demo_again ?e c"
    unfolding sched_next_step [symmetric] c_def demo_again_def demo_retried_def demo_busy_def by code_simp
  have d: "distinct (map address (agents demo_cfg))" "0 < length (agents demo_cfg)" "able demo_cfg 0 1"
    and addr: "address (agents demo_cfg ! 0) = ''kvmhost:7001''"
    by code_simp+
  have c: "threads c ! 1 = (0, Busy 1)" "alive (shared c) ! 0"
    "''kvmhost:7001'' \<in> rec_agent ` set (ts_attempts (st (shared c) ! 1))"
    unfolding c_def demo_again_def demo_retried_def demo_busy_def by code_simp+
  have "''kvmhost:7001'' \<in> rec_agent ` set (ts_attempts (st (shared c) ! 1))"
    using retry_prefers_untried_agents [OF d(1) demo_run_again step _ c(1) _ d(2,3) c(2)] addr c(3) by simp
  with step c(1) show ?thesis by blast
qed

text \<open>
  Retirement: with distinct agent addresses, the list of dead agents names exactly
  the agents that are no longer alive, each of them once, however many of its slots failed.
\<close>

theorem agents_retired_once:
  assumes "run_of (sched_step cfg) (initial_sys cfg) es c" "distinct (map address (agents cfg))"
  shows "distinct (dead (shared c)) \<and>
    set (dead (shared c)) = {address (agents cfg ! a) | a. a < length (agents cfg) \<and> \<not> alive (shared c) ! a}"
proof -
  let ?A = "{a. a < length (agents cfg) \<and> \<not> alive (shared c) ! a}"
  have m: "mset (dead (shared c)) = image_mset (\<lambda>a. address (agents cfg ! a)) (mset_set ?A)"
    using sys_ok_holds(1) [OF reached_ok [OF assms(1)]] by (simp add: run_ok_def dead_ok_def)
  have "inj_on (\<lambda>a. address (agents cfg ! a)) ?A"
    using assms(2) by (auto simp: inj_on_def distinct_conv_nth)
  then have "mset (dead (shared c)) = mset_set ((\<lambda>a. address (agents cfg ! a)) ` ?A)"
    using m by (simp add: image_mset_mset_set)
  moreover from this have "set (dead (shared c)) = (\<lambda>a. address (agents cfg ! a)) ` ?A"
    by (simp flip: set_mset_mset)
  ultimately show ?thesis
    by (auto simp: distinct_count_atmost_1 count_mset_set')
qed

theorem agents_retired_once_witness: "distinct (dead (shared hang_end)) \<and> dead (shared hang_end) = [''kvmhost:7001'']"
proof -
  have d: "distinct (map address (agents hang_cfg))" by code_simp
  have "dead (shared hang_end) = [''kvmhost:7001'']" unfolding hang_end_def by code_simp
  with agents_retired_once [OF hang_run d] show ?thesis by blast
qed

subsection \<open>Termination\<close>

definition retry_budget :: "config \<Rightarrow> nat" where
  "retry_budget cfg = (\<Sum>t < length (tasks cfg). Suc (nat (retries (tasks cfg ! t))))"

definition total_slots :: "config \<Rightarrow> nat" where
  "total_slots cfg = sum_list (map slots (agents cfg))"

lemma length_spawn: "length (spawn_threads cfg) = total_slots cfg"
  by (simp add: spawn_threads_def total_slots_def length_concat comp_def map_upt_nth)

lemma initial_calls: "calls_left cfg (initial_sys cfg :: 'd sys) \<le> retry_budget cfg + total_slots cfg"
proof -
  have "budgets cfg (resolve_unschedulable cfg (initial_run cfg) :: 'd run_state) \<le> budgets cfg (initial_run cfg :: 'd run_state)"
    by (intro budgets_le) (simp add: resolve_fields budget_resolve initial_run_def)
  also have "\<dots> = retry_budget cfg"
    by (simp add: budgets_def retry_budget_def initial_run_def initial_task_state_def budget_def)
  finally show ?thesis
    using length_filter_le [of "\<lambda>th. snd th \<noteq> Exited" "spawn_threads cfg"]
    by (simp add: calls_left_def initial_sys_def live_threads_def length_spawn)
qed

lemma calls_bound:
  assumes "run_of (sched_step cfg) (initial_sys cfg) es c"
  shows "length (filter is_complete es) \<le> retry_budget cfg + total_slots cfg"
proof -
  have "length es \<le> calls_left cfg (initial_sys cfg :: 'a sys) + sum_list (map (\<lambda>e. if is_complete e then 0 else 1) es)"
    using assms by (rule calls.run_length_bound [OF refl])
  then show ?thesis
    using initial_calls [of cfg, where 'd = 'a] sum_list_complement [of is_complete es] by linarith
qed

text \<open>
  The executor is called a bounded number of times in any run, whatever it answers
  and however the workers are interleaved: once per unit of the tasks' retry budgets, and at most
  once more per slot of the fleet for agent errors.
\<close>

theorem executor_calls_bounded:
  assumes "run_of (sched_step cfg) (initial_sys cfg) es c"
  shows "length (filter is_complete es) \<le> retry_budget cfg + total_slots cfg"
  using assms by (rule calls_bound)

theorem executor_calls_bounded_witness:
  "length (filter is_complete hang_events) \<le> 5"
proof -
  have "retry_budget hang_cfg = 2" "total_slots hang_cfg = 3" by code_simp+
  with executor_calls_bounded [OF hang_run] show ?thesis by simp
qed

text \<open>
  Termination up to spurious wake-ups: a run with \<open>k\<close> spurious wake-ups of the
  condition variable has at most \<open>2 k\<close> steps more than a bound that depends only on the retry
  budgets and the slots of the fleet. Without spurious wake-ups every run stops.
\<close>

theorem run_length_bounded:
  assumes "run_of (sched_step cfg) (initial_sys cfg) es c"
  shows "length es \<le> 2 * length (filter is_spurious es)
     + (retry_budget cfg + total_slots cfg) * Suc (total_slots cfg) + total_slots cfg"
proof -
  have "length es \<le> steps_left cfg (initial_sys cfg :: 'a sys) + sum_list (map (\<lambda>e. if is_spurious e then 2 else 0) es)"
    using assms by (rule steps.run_length_bound [OF refl])
  moreover have "calls_left cfg (initial_sys cfg :: 'a sys) * Suc (total_slots cfg)
      \<le> (retry_budget cfg + total_slots cfg) * Suc (total_slots cfg)"
    using initial_calls by (rule mult_le_mono1)
  moreover have "ready_threads (spawn_threads cfg) \<le> total_slots cfg"
    using ready_threads_le [of "spawn_threads cfg"] by (simp add: length_spawn)
  ultimately show ?thesis
    unfolding sum_list_gain by (simp add: steps_left_def initial_sys_def length_spawn)
qed

theorem run_length_bounded_witness:
  "length ((demo_start @ demo_retry) @ demo_rest) \<le> 2 * 0 + (5 + 3) * Suc 3 + 3"
proof -
  have "retry_budget demo_cfg = 5" "total_slots demo_cfg = 3"
    "length (filter is_spurious ((demo_start @ demo_retry) @ demo_rest)) = 0" by code_simp+
  with run_length_bounded [OF demo_run_end] show ?thesis by simp
qed

end
