(* ===== verification/Scheduler_Completion.thy ===== *)
theory Scheduler_Completion
  imports Scheduler_Properties
begin

section \<open>When the scheduler completes a run, and when it does not\<close>

text \<open>
  Progress and completion of \<open>Scheduler::run\<close>: no reachable state without orphans is stuck, calm runs
  and fleets of single-slot agents always complete, and one concrete interleaving shows the run that never
  returns. The last section is about the counts of \<open>RunSummary\<close>.
\<close>

subsection \<open>Progress and completion\<close>

text \<open>
  Property C6. Progress: in a reachable state where no pending task is orphaned, either every
  worker has returned or a step other than a spurious wake-up is possible. No wake-up is lost.
\<close>

theorem never_stuck:
  assumes "run_of (sched_step (make_config as ts)) (initial_sys (make_config as ts)) es c"
    and "no_orphans (make_config as ts) (shared c)" "\<not> all_exited c"
  shows "\<exists>e c'. \<not> is_spurious e \<and> sched_step (make_config as ts) c e c'"
  using active_enabled quiet_exited [OF reached_ok [OF assms(1)] _ slots_pos_make assms(2)] assms(3)
  by blast

theorem never_stuck_witness:
  "\<exists>e c'. \<not> is_spurious e \<and> sched_step demo_cfg demo_busy e c'"
proof -
  have "\<not> all_exited demo_busy" unfolding demo_busy_def by code_simp
  moreover have "list_all (\<lambda>t. \<not> orphan demo_cfg (shared demo_busy) t) [0..<length (tasks demo_cfg)]"
    unfolding demo_busy_def orphan_def live_able_def by code_simp
  then have "no_orphans demo_cfg (shared demo_busy)"
    by (auto simp: no_orphans_def list_all_iff)
  ultimately show ?thesis
    using never_stuck [OF demo_run_busy [unfolded demo_cfg_def], folded demo_cfg_def] by blast
qed

fun error_free :: "'d event \<Rightarrow> bool" where
  "error_free (Complete w res) = (ar_status res \<noteq> AgentError)"
| "error_free e = True"

lemma calm_stopped:
  assumes ok: "calm_ok (make_config as ts) c" and quiet: "\<not> active c"
  shows "all_exited c \<and> list_all ts_done (st (shared c))"
proof -
  let ?cfg = "make_config as ts"
  have c: "sys_ok ?cfg c" "no_orphans ?cfg (shared c)" using ok by (auto simp: calm_ok_def)
  have "length (st (shared c)) = length (tasks ?cfg)"
    using sys_ok_holds(6) [OF c(1)] by simp
  then have "list_all ts_done (st (shared c))"
    using quiet_done [OF c(1) quiet slots_pos_make] c(2) by (auto simp: no_orphans_def list_all_length)
  with quiet_exited [OF c(1) quiet slots_pos_make c(2)] show ?thesis by simp
qed

text \<open>
  Property C7. Completion of calm runs: if no agent error ever finds another task in flight on the
  same agent, then a run in which no step but a spurious wake-up is left has joined all its
  workers and decided every task.
\<close>

theorem calm_runs_complete:
  assumes "run_of (calm_step (make_config as ts)) (initial_sys (make_config as ts)) es c"
    and "\<not> (\<exists>e c'. sched_step (make_config as ts) c e c' \<and> \<not> is_spurious e)"
  shows "all_exited c \<and> list_all ts_done (st (shared c))"
  using calm_stopped [OF calm.inv_reached [OF refl assms(1)]] active_enabled [of c] assms(2) by blast

lemma error_free_calm:
  assumes "run_of (sched_step cfg) c es c'" "list_all error_free es"
  shows "run_of (calm_step cfg) c es c'"
  using assms
proof (induction rule: run_of.induct)
  case (run_cons c e c1 es c2)
  then have "calm_step cfg c e c1" by (cases e) (auto simp: calm_step_def calm_event_def)
  with run_cons show ?case by (simp add: run_of.run_cons)
qed (rule run_of.run_nil)

lemma exited_quiet: "all_exited c \<Longrightarrow> \<not> (\<exists>e c'. sched_step cfg c e c' \<and> \<not> is_spurious e)"
  using enabled_active by (force simp: all_exited_def active_def list_all_iff list_ex_iff)

theorem calm_runs_complete_witness:
  "all_exited demo_end \<and> list_all ts_done (st (shared demo_end))"
proof -
  have "list_all error_free ((demo_start @ demo_retry) @ demo_rest)" by code_simp
  then have run: "run_of (calm_step demo_cfg) (initial_sys demo_cfg) ((demo_start @ demo_retry) @ demo_rest) demo_end"
    using demo_run_end by (intro error_free_calm)
  have "all_exited demo_end"
    unfolding demo_end_def demo_retried_def demo_busy_def by code_simp
  from calm_runs_complete [OF run [unfolded demo_cfg_def] exited_quiet [OF this]] show ?thesis .
qed

definition one_slot :: "config \<Rightarrow> bool" where
  "one_slot cfg \<longleftrightarrow> list_all (\<lambda>a. slots a = 1) (agents cfg)"

lemma one_slot_owner:
  assumes "one_slot cfg" "map fst ths = map fst (spawn_threads cfg)"
    and "v < length ths" "w < length ths" "fst (ths ! v) = fst (ths ! w)"
  shows "v = w"
proof (rule ccontr)
  let ?os = "map fst ths" and ?a = "fst (ths ! w)"
  assume "v \<noteq> w"
  then have "2 \<le> card {i. i < length ?os \<and> ?os ! i = ?a}"
    using card_mono [of "{i. i < length ?os \<and> ?os ! i = ?a}" "{v, w}"] assms(3-5) by simp
  moreover have "card {i. i < length ?os \<and> ?os ! i = ?a} = length (filter (\<lambda>b. b = ?a) ?os)"
    by (simp add: length_filter_conv_card)
  moreover have "length (filter (\<lambda>b. b = ?a) ?os) = 1"
    using spawn_threads_count [OF owner_lt [OF assms(2,4)]] assms(1,2) owner_lt [OF assms(2,4)]
    by (simp add: one_slot_def list_all_length)
  ultimately show False by simp
qed

lemma one_slot_calm:
  assumes "one_slot cfg" "run_of (sched_step cfg) c es c'" "calm_ok cfg c"
  shows "run_of (calm_step cfg) c es c'"
  using assms(2,3)
proof (induction rule: run_of.induct)
  case (run_cons c e c1 es c2)
  have "map fst (threads c) = map fst (spawn_threads cfg)"
    using run_cons.prems sys_ok_holds(2) by (auto simp: calm_ok_def)
  then have "calm_event c e"
    using run_cons.hyps(1) one_slot_owner [OF assms(1), of "threads c"]
    by (cases e) (auto simp: calm_event_def sched_step_Complete)
  then have "calm_step cfg c e c1" using run_cons.hyps(1) by (simp add: calm_step_def)
  then show ?case using run_cons.IH calm_ok_step [OF run_cons.prems] by (blast intro: run_of.run_cons)
qed (rule run_of.run_nil)

text \<open>
  On a fleet whose agents have one slot each (or declare none), every run completes:
  when no step but a spurious wake-up is left, all workers have returned and every task is decided.
\<close>

theorem single_slot_fleet_completes:
  assumes "list_all (\<lambda>a. slots a \<le> 1) as"
    and "run_of (sched_step (make_config as ts)) (initial_sys (make_config as ts)) es c"
    and "\<not> (\<exists>e c'. sched_step (make_config as ts) c e c' \<and> \<not> is_spurious e)"
  shows "all_exited c \<and> list_all ts_done (st (shared c))"
proof -
  have "one_slot (make_config as ts)"
    using assms(1) by (auto simp: one_slot_def make_config_def normalize_agents_def list_all_iff)
  then have "run_of (calm_step (make_config as ts)) (initial_sys (make_config as ts)) es c"
    using assms(2) calm_ok_initial by (rule one_slot_calm)
  then show ?thesis
    using calm_stopped [OF calm.inv_reached [OF refl]] active_enabled [of c] assms(3) by blast
qed

definition solo_cfg :: config where
  "solo_cfg = make_config [plain_agent] [demo_task ''flaky'' 1 []]"

definition solo_events :: "nat event list" where
  "solo_events = [Enter 0, Complete 0 (demo_result AFailed), Complete 0 (demo_result APassed)]"

definition solo_end :: "nat sys" where
  "solo_end = the (sched_replay solo_cfg (initial_sys solo_cfg) solo_events)"

theorem single_slot_fleet_completes_witness: "all_exited solo_end \<and> list_all ts_done (st (shared solo_end))"
proof -
  have run: "run_of (sched_step solo_cfg) (initial_sys solo_cfg) solo_events solo_end"
    unfolding solo_end_def by (rule replay_the) code_simp
  have "list_all (\<lambda>a. slots a \<le> 1) [plain_agent]" "all_exited solo_end"
    unfolding solo_end_def by code_simp+
  then show ?thesis
    using single_slot_fleet_completes [OF _ run [unfolded solo_cfg_def]] exited_quiet by blast
qed

subsection \<open>The run that never returns\<close>

definition hung :: "nat sys \<Rightarrow> bool" where
  "hung c \<longleftrightarrow> shared c = shared hang_end \<and> (threads c = threads hang_end \<or>
     threads c = (threads hang_end)[2 := (1, Ready)])"

lemma hang_threads: "threads hang_end = [(0, Exited), (0, Exited), (1, Waiting)]"
  unfolding hang_end_def by code_simp

lemma hang_head: "loop_head hang_cfg 1 (shared hang_end) = (shared hang_end, Waiting)"
  unfolding hang_end_def by code_simp

lemma hung_step: "hung c \<Longrightarrow> sched_step hang_cfg c e c' \<Longrightarrow> hung c'"
  by (cases e) (auto simp: hung_def sched_step_Enter sched_step_Complete sched_step_Spurious
      hang_threads resume_def hang_head [unfolded One_nat_def] less_Suc_eq nth_Cons' numeral_2_eq_2 split: if_splits)

interpretation hang: transition_system "\<lambda>c. c = hang_end" "sched_step hang_cfg" hung
  by unfold_locales (simp add: hung_def, rule hung_step)

text \<open>
  Property C8. The scheduler can hang: two slots of the only capable agent fail with an agent
  error while another agent without the labels is alive. The second task is put back in the
  queue after the agent has been retired, nothing resolves it, and the remaining worker waits for ever:
  no continuation of the run, whatever the wake-ups, lets all workers return.
\<close>

theorem run_can_hang:
  "\<exists>es c. run_of (sched_step hang_cfg) (initial_sys hang_cfg :: nat sys) es c \<and> \<not> active c \<and>
     remaining (shared c) = 1 \<and> \<not> (\<exists>fs c'. run_of (sched_step hang_cfg) c fs c' \<and> all_exited c')"
proof -
  have "\<not> all_exited c" if "run_of (sched_step hang_cfg) hang_end fs c" for fs c
    using hang.inv_reached [OF refl that] by (auto simp: hung_def all_exited_def hang_threads)
  moreover have "remaining (shared hang_end) = 1" unfolding hang_end_def by code_simp
  moreover have "\<not> active hang_end" by (simp add: active_def hang_threads)
  ultimately show ?thesis using hang_run by blast
qed

definition lost_cfg :: config where
  "lost_cfg = make_config [kvm_agent] [demo_task ''vm0'' 0 [''kvm=true''], demo_task ''vm1'' 0 [''kvm=true'']]"

definition lost_events :: "nat event list" where
  "lost_events = [Enter 0, Enter 1, Complete 0 (demo_result AgentError), Complete 1 (demo_result AgentError)]"

definition lost_end :: "nat sys" where
  "lost_end = the (sched_replay lost_cfg (initial_sys lost_cfg) lost_events)"

text \<open>
  The same cause without another agent: the run returns, but the second task is
  reported unschedulable with an empty message although it was never decided and its attempt ended with an
  agent error; the first one carries the reason.
\<close>

theorem message_can_be_lost:
  "\<exists>es c. run_of (sched_step lost_cfg) (initial_sys lost_cfg :: nat sys) es c \<and> all_exited c \<and>
     map o_status (outcomes (summarize lost_cfg 0 (shared c))) = [FUnschedulable, FUnschedulable] \<and>
     map o_message (outcomes (summarize lost_cfg 0 (shared c))) =
       [''every agent that could run this task became unreachable'', []]"
proof -
  have "run_of (sched_step lost_cfg) (initial_sys lost_cfg) lost_events lost_end"
    unfolding lost_end_def by (rule replay_the) code_simp
  moreover have "all_exited lost_end"
    "map o_status (outcomes (summarize lost_cfg 0 (shared lost_end))) = [FUnschedulable, FUnschedulable]"
    "map o_message (outcomes (summarize lost_cfg 0 (shared lost_end))) =
       [''every agent that could run this task became unreachable'', []]"
    unfolding lost_end_def by code_simp+
  ultimately show ?thesis by (intro exI [of _ lost_events] exI [of _ lost_end]) (intro conjI)
qed

subsection \<open>The summary\<close>

lemma count_status_eq: "count_status rs s = int (length (filter (\<lambda>out. o_status out = s) (outcomes rs)))"
proof -
  have "foldl (\<lambda>n out. n + (if o_status out = s then 1 else 0)) k outs =
      k + int (length (filter (\<lambda>out. o_status out = s) outs))" for k and outs :: "'a task_outcome list"
    by (induction outs arbitrary: k) auto
  then show ?thesis by (simp add: count_status_def)
qed

lemma flaky_count_eq: "flaky_count rs = int (length (filter flaky (outcomes rs)))"
proof -
  have "foldl (\<lambda>n out. n + (if flaky out then 1 else 0)) k outs = k + int (length (filter flaky outs))"
    for k and outs :: "'a task_outcome list"
    by (induction outs arbitrary: k) auto
  then show ?thesis by (simp add: flaky_count_def)
qed

text \<open>
  The counts of a summary add up: the four statuses partition the outcomes, flaky
  outcomes are among the passed ones, and all tasks passed exactly when no other status occurs.
\<close>

theorem summary_counts_partition:
  "count_status rs FPassed + count_status rs FFailed + count_status rs FTimedOut +
     count_status rs FUnschedulable = int (length (outcomes rs)) \<and>
   flaky_count rs \<le> count_status rs FPassed \<and>
   (all_passed rs \<longleftrightarrow> o_status ` set (outcomes rs) \<subseteq> {FPassed})"
proof -
  have "length (filter (\<lambda>out. o_status out = FPassed) outs) + length (filter (\<lambda>out. o_status out = FFailed) outs) +
      length (filter (\<lambda>out. o_status out = FTimedOut) outs) +
      length (filter (\<lambda>out. o_status out = FUnschedulable) outs) = length outs"
    for outs :: "'a task_outcome list"
  proof (induction outs)
    case (Cons out outs)
    then show ?case by (cases "o_status out") auto
  qed simp
  moreover have "length (filter flaky (outcomes rs)) \<le> length (filter (\<lambda>out. o_status out = FPassed) (outcomes rs))"
    by (rule filter_length_mono) (simp add: flaky_def split: if_splits)
  moreover have "all_passed rs \<longleftrightarrow> (\<forall>out \<in> set (outcomes rs). o_status out = FPassed)"
    unfolding all_passed_def count_status_eq
    by (metis (mono_tags, lifting) filter_True length_filter_less less_irrefl of_nat_eq_iff)
  ultimately show ?thesis
    unfolding count_status_eq flaky_count_eq by (auto simp flip: of_nat_add)
qed

end
