(* ===== verification/Dtest_System.thy ===== *)
theory Dtest_System
  imports Executor Agent_Properties Job_Properties Process_Properties Scheduler_Completion
begin

section \<open>The distributed runner as a whole: job file, scheduler, executor, agent\<close>

text \<open>
  Properties that span components: what the parser accepts is what the agent admits, an attempt passes exactly when the
  remote process exits with code 0, and the size of a run is bounded by the limits of the job file.
\<close>

text \<open>How the transport delivers an agent's answer: the default message when there is no reply.\<close>

definition no_reply :: run_task_reply where
  "no_reply = \<lparr>rp_outcome = OUTCOME_UNSPECIFIED, rp_exit_code = 0, rp_term_signal = 0, rp_out = [], rp_err = [],
     rp_truncated = False, rp_duration_ms = 0, rp_message = []\<rparr>"

definition delivers ::
  "('s \<Rightarrow> metadata \<Rightarrow> int \<Rightarrow> run_task_request \<Rightarrow> grpc_status \<times> run_task_reply \<times> 'd) \<Rightarrow> 's \<Rightarrow>
     (metadata \<Rightarrow> run_task_request \<Rightarrow> (grpc_status \<times> run_task_reply option \<times> 32 word) option) \<Rightarrow> bool" where
  "delivers rpc stub service \<longleftrightarrow>
     (\<forall>md deadline req s rep n. service md req = Some (s, rep, n) \<longrightarrow>
        fst (rpc stub md deadline req) = s \<and>
        fst (snd (rpc stub md deadline req)) = (case rep of Some r \<Rightarrow> r | None \<Rightarrow> no_reply))"

lemma delivered:
  assumes "delivers rpc stub service" "service md req = Some (s', rep', n)" "rpc stub md deadline req = (s, rep, secs)"
  shows "s = s' \<and> rep = (case rep' of Some r \<Rightarrow> r | None \<Rightarrow> no_reply)"
  using assms(1) [unfolded delivers_def, rule_format, OF assms(2), of deadline] assms(3) by simp

lemma request_timeout:
  assumes "1 \<le> timeout_s t" "timeout_s t \<le> 86400"
  shows "uint (rq_timeout_ms (request_of_task t)) = 1000 * timeout_s t"
  using assms by (simp add: request_of_task_def uint_word_ariths uint_word_of_int)

lemma accepted_task:
  assumes "error (parse_jobs parse txt) = []" "t \<in> set (job_tasks (job (parse_jobs parse txt)))"
  shows "task_wf t"
  using parsed_wf [OF assms(1)] assms(2) by (auto simp: job_tasks_wf_def list_all_iff)

lemma task_admitted_iff:
  assumes "task_wf t"
  shows "fst (admit canon opts md (request_of_task t)) = OK \<longleftrightarrow>
    fst (authenticate opts md) = OK \<and> check_command canon (op_policy opts) (hd (argv t)) = []"
proof -
  have "1 \<le> timeout_s t" "timeout_s t \<le> 86400" "argv t \<noteq> []" "hd (argv t) \<noteq> []"
    using assms by (auto simp: task_wf_def)
  then show ?thesis
    using request_timeout [of t] by (simp add: admit_iff) (simp add: request_of_task_def)
qed

text \<open>
  Parser and agent agree: a request built from a task of an accepted job file is never rejected as
  invalid; it is admitted exactly when the caller is authenticated and the policy permits the command.
  In particular the timeout in milliseconds does not overflow its 32-bit field.
\<close>

theorem accepted_tasks_admitted:
  assumes "error (parse_jobs parse txt) = []" "t \<in> set (job_tasks (job (parse_jobs parse txt)))"
  shows "fst (admit canon opts md (request_of_task t)) \<noteq> INVALID_ARGUMENT \<and>
    uint (rq_timeout_ms (request_of_task t)) = 1000 * timeout_s t \<and>
    (fst (admit canon opts md (request_of_task t)) = OK \<longleftrightarrow>
       fst (authenticate opts md) = OK \<and> check_command canon (op_policy opts) (hd (argv t)) = [])"
proof -
  have wf: "task_wf t" using accepted_task [OF assms] .
  then have "uint (rq_timeout_ms (request_of_task t)) = 1000 * timeout_s t"
    by (auto simp: task_wf_def intro: request_timeout)
  moreover have "fst (admit canon opts md (request_of_task t)) \<noteq> INVALID_ARGUMENT"
    using wf calculation by (auto simp: admit_invalid task_wf_def) (auto simp: request_of_task_def)
  ultimately show ?thesis using task_admitted_iff [OF wf] by blast
qed

theorem accepted_tasks_admitted_witness:
  "fst (admit id demo_options demo_md (request_of_task (job_tasks (job (parse_jobs demo_parse ''demo'')) ! 2))) \<noteq> INVALID_ARGUMENT"
proof -
  have "2 < length (job_tasks (job (parse_jobs demo_parse ''demo'')))" by code_simp
  from accepted_tasks_admitted [OF demo_accepted(2) nth_mem [OF this]] show ?thesis by blast
qed

text \<open>
  Property C18. End to end: when the transport delivers the agent's answer and a slot is free, the attempt
  at a well-formed task passes exactly when the controller's token is right, the policy permits the program, and the
  process ran and exited with code 0.
\<close>

theorem attempt_passes_end_to_end:
  assumes "task_wf t" "omap_get (stubs ex) (address agent) = Some stub" "n < op_slots opts"
    and "delivers rpc stub (\<lambda>md req. run_task canon opts run md req n)"
    and "run (spec_of_request opts (request_of_task t)) = Some out"
  shows "ar_status (run_on to_seconds zero rpc ex agent t) = APassed \<longleftrightarrow>
    (op_token opts = [] \<or> op_token opts = ex_token ex) \<and>
    check_command canon (op_policy opts) (hd (argv t)) = [] \<and> ro_outcome out = PExited \<and> ro_exit_code out = 0"
proof -
  let ?md = "call_metadata (ex_token ex)" and ?req = "request_of_task t"
  obtain s rep secs where rpc: "rpc stub ?md (timeout_s t + ex_margin ex) ?req = (s, rep, secs)"
    by (metis prod_cases3)
  have auth: "fst (authenticate opts ?md) = OK \<longleftrightarrow> op_token opts = [] \<or> op_token opts = ex_token ex"
    by (auto simp: authenticate_def status_ok_def constant_time_equals_iff call_metadata_def split: option.splits)
  have passed: "ar_status (run_on to_seconds zero rpc ex agent t) = APassed \<longleftrightarrow>
      fst s = OK \<and> rp_outcome rep = EXITED \<and> rp_exit_code rep = 0"
    by (rule run_on_passed [where rpc = rpc, OF assms(2) rpc])
  show ?thesis
  proof (cases "fst (admit canon opts ?md ?req) = OK")
    case True
    have "n < op_slots opts \<Longrightarrow> \<not> op_slots opts \<le> n" by simp
    then have "run_task canon opts run ?md ?req n = Some (status_ok, Some (reply_of_output out), n)"
      using True assms(3,5) by (simp add: run_task_unfold Let_def claim_slot_def release_slot_def)
    from delivered [OF assms(4) this rpc] have "s = status_ok" "rep = reply_of_output out" by simp_all
    then show ?thesis
      using passed True task_admitted_iff [OF assms(1)] auth
      by (cases "ro_outcome out") (auto simp: status_ok_def reply_of_output_def)
  next
    case False
    then have "run_task canon opts run ?md ?req n = Some (admit canon opts ?md ?req, None, n)"
      by (simp add: run_task_unfold Let_def)
    from delivered [OF assms(4) this rpc] have "s = admit canon opts ?md ?req" by simp
    then show ?thesis using passed False task_admitted_iff [OF assms(1)] auth by auto
  qed
qed

definition loop_rpc :: "nat \<Rightarrow> metadata \<Rightarrow> int \<Rightarrow> run_task_request \<Rightarrow> grpc_status \<times> run_task_reply \<times> nat" where
  "loop_rpc stub md deadline req =
     (case run_task id demo_options demo_run md req 0 of
        Some (s, Some r, n) \<Rightarrow> (s, r, 1)
      | Some (s, None, n) \<Rightarrow> (s, no_reply, 1)
      | None \<Rightarrow> ((INTERNAL, []), no_reply, 1))"

definition right_executor :: "nat executor" where
  "right_executor = (make_executor ''s3cret'' 15)\<lparr>stubs := [(''h:7001'', 7)]\<rparr>"

definition demo_task_a :: task where
  "demo_task_a = default_task\<lparr>task_name := ''a'', argv := [''/opt/t/a'']\<rparr>"

theorem attempt_passes_end_to_end_witness:
  "ar_status (run_on unat 0 loop_rpc right_executor demo_agent demo_task_a) = APassed"
proof -
  let ?opts = demo_options and ?req = "request_of_task demo_task_a"
  have t: "task_wf demo_task_a"
    by (simp add: task_wf_def name_wf_def control_char_def env_wf_def demo_task_a_def default_task_def)
  have s: "omap_get (stubs right_executor) (address demo_agent) = Some 7"
    by (simp add: right_executor_def demo_agent_def omap_get_def)
  have n: "0 < op_slots ?opts" by (simp add: demo_options_def)
  have d: "delivers loop_rpc (7::nat) (\<lambda>md req. run_task id ?opts demo_run md req 0)"
    by (auto simp: delivers_def loop_rpc_def split: option.splits)
  have c: "check_command id (op_policy ?opts) (hd (argv demo_task_a)) = []" "op_token ?opts = ex_token right_executor"
    by code_simp+
  show ?thesis
    using attempt_passes_end_to_end [OF t s n d, of "empty_output\<lparr>ro_outcome := PExited, ro_exit_code := 0\<rparr>" unat 0] c
    by (simp add: demo_run_def)
qed

lemma budget_of_job:
  assumes "list_all task_wf ts"
  shows "retry_budget (make_config as ts) \<le> 11 * length ts"
proof -
  have "Suc (nat (retries (ts ! t))) \<le> 11" if "t < length ts" for t
    using assms that by (auto simp: list_all_length task_wf_def)
  then have "(\<Sum>t < length ts. Suc (nat (retries (ts ! t)))) \<le> (\<Sum>t < length ts. 11)"
    by (intro sum_mono) auto
  then show ?thesis by (simp add: retry_budget_def make_config_def)
qed

text \<open>
  The size of a run: with an accepted job file the scheduler calls the executor at most 11 times per
  task (ten retries) plus once per slot of the fleet, hence at most 1100000 times plus the slots, in every interleaving
  and whatever the agents answer.
\<close>

theorem job_run_bounded:
  assumes "error (parse_jobs parse txt) = []"
    and "run_of (sched_step (make_config as (job_tasks (job (parse_jobs parse txt)))))
      (initial_sys (make_config as (job_tasks (job (parse_jobs parse txt))))) es c"
  shows "length (filter is_complete es) \<le> 11 * length (job_tasks (job (parse_jobs parse txt))) + sum_list (map (max 1 \<circ> slots) as) \<and>
    length (job_tasks (job (parse_jobs parse txt))) \<le> 100000"
proof -
  let ?ts = "job_tasks (job (parse_jobs parse txt))"
  have wf: "list_all task_wf ?ts" "int (length ?ts) \<le> 100000"
    using parsed_wf [OF assms(1)] by (auto simp: job_tasks_wf_def fits_def kMaxTasks_def)
  have "total_slots (make_config as ?ts) = sum_list (map (max 1 \<circ> slots) as)"
  proof -
    have "slots (if slots a = 0 then a\<lparr>slots := 1\<rparr> else a) = max 1 (slots a)" for a :: agent_info by simp
    then show ?thesis
      by (simp only: total_slots_def make_config_def normalize_agents_def config.select_convs map_map comp_def)
  qed
  then show ?thesis using calls_bound [OF assms(2)] budget_of_job [OF wf(1), of as] wf(2) by linarith
qed

definition job_cfg :: config where
  "job_cfg = make_config [kvm_agent] (job_tasks (job (parse_jobs demo_parse ''demo'')))"

theorem job_run_bounded_witness:
  "\<exists>c :: nat sys. run_of (sched_step job_cfg) (initial_sys job_cfg) [Enter 0] c \<and> length (filter is_complete ([Enter 0] :: nat event list)) \<le> 33 + 2"
proof -
  let ?c = "the (sched_replay job_cfg (initial_sys job_cfg) [Enter 0]) :: nat sys"
  have r: "run_of (sched_step job_cfg) (initial_sys job_cfg) [Enter 0] ?c"
    by (rule replay_the) code_simp
  have "length (job_tasks (job (parse_jobs demo_parse ''demo''))) = 3" "sum_list (map (max 1 \<circ> slots) [kvm_agent]) = 2"
    by code_simp+
  then show ?thesis
    using job_run_bounded [OF demo_accepted(2) r [unfolded job_cfg_def]] r by auto
qed

end
