(* ===== verification/Command_Line.thy ===== *)
theory Command_Line
  imports Prelude
begin

section \<open>Command lines: numbers, lists in messages, usage texts\<close>

text \<open>
  What the programs' \<open>main\<close> functions share. A usage text is compared with the parser it describes in the theory
  Usage_Texts; \<open>documented\<close> reads the options off the lines of an option list.
\<close>

text \<open>\<open>std::atoi\<close>: blanks, a sign, digits; outside \<open>int\<close> it is undefined and the model keeps the number.\<close>

definition atoi_digits :: "string \<Rightarrow> int" where
  "atoi_digits s = int (read_nat (takeWhile c_digit s))"

definition atoi :: "string \<Rightarrow> int" where
  "atoi s =
     (case dropWhile c_space s of
        [] \<Rightarrow> 0
      | c # r \<Rightarrow> if c = CHR ''-'' then - atoi_digits r else if c = CHR ''+'' then atoi_digits r else atoi_digits (c # r))"

text \<open>\<open>for (i...) std::cout << (i ? "," : "") << xs[i]\<close>\<close>

fun comma_list :: "string list \<Rightarrow> string" where
  "comma_list [] = []"
| "comma_list [x] = x"
| "comma_list (x # y # xs) = x @ '','' @ comma_list (y # xs)"

text \<open>The options a list documents: the words at the start of its lines that begin with a dash, without a comma.\<close>

definition option_words :: "string \<Rightarrow> string list" where
  "option_words line =
     takeWhile (\<lambda>w. starts_with ''-'' w) (map (takeWhile (\<lambda>c. c \<noteq> CHR '','')) (filter (\<lambda>w. w \<noteq> []) (split_on (CHR '' '') line)))"

definition documented :: "string list \<Rightarrow> string list" where
  "documented list_of_lines = concat (map option_words list_of_lines)"

definition option_text :: "string list \<Rightarrow> string" where
  "option_text list_of_lines = concat (map (\<lambda>l. l @ nl) list_of_lines)"

end
