(* ===== verification/Dtest_Mains.thy ===== *)
theory Dtest_Mains
  imports Report Dtest_System Command_Line
begin

section \<open>The program dtest-ctl (dtest/ctl_main.cpp)\<close>

text \<open>
  Command line, job file, connections, run, reports and exit status, with everything that is printed. A parsed
  command line is a value; \<open>Inl (n, e)\<close> is an early \<open>return n\<close> with \<open>e\<close> on the standard error. The files, the
  environment and the run of the scheduler, which depends on the interleaving of its threads, are arguments.
\<close>

subsection \<open>Command line\<close>

definition ctl_option_lines :: "string list" where
  "ctl_option_lines =
     [''  --jobs FILE            job file (JSON), see dtest/examples/jobs.json'',
      ''  --agent HOST:PORT      an agent to use; repeatable'',
      ''  --token TOKEN          shared secret (or set DTEST_TOKEN)'',
      ''  --junit FILE           also write JUnit XML'',
      ''  --connect-timeout S    seconds to wait for each agent at startup (default 5)'',
      ''  --validate             only check the job file and exit'',
      ''  -h, --help             show this help'']"

definition ctl_usage :: "string \<Rightarrow> string" where
  "ctl_usage prog =
     ''Usage: '' @ prog @ '' --jobs FILE --agent HOST:PORT [--agent HOST:PORT ...] [options]'' @ nl @ nl @
     ''Options:'' @ nl @ option_text ctl_option_lines @ nl @
     ''Exit status: 0 all tasks passed, 1 a task failed / timed out / could not be scheduled, 2 usage error.'' @ nl"

record ctl_options =
  co_jobs :: string
  co_agents :: "string list"
  co_token :: string
  co_junit :: string
  co_timeout :: int
  co_validate :: bool

definition ctl_defaults :: "string option \<Rightarrow> ctl_options" where
  "ctl_defaults env_token =
     \<lparr>co_jobs = [], co_agents = [], co_token = (case env_token of Some t \<Rightarrow> t | None \<Rightarrow> []), co_junit = [],
      co_timeout = 5, co_validate = False\<rparr>"

fun ctl_args :: "string \<Rightarrow> ctl_options \<Rightarrow> string list \<Rightarrow> (int \<times> string) + ctl_options" where
  "ctl_args prog ops [] = Inr ops"
| "ctl_args prog ops (a # rest) =
     (if a = ''-h'' \<or> a = ''--help'' then Inl (0, ctl_usage prog)
      else if a = ''--validate'' then ctl_args prog (ops\<lparr>co_validate := True\<rparr>) rest
      else if a = ''--jobs'' \<or> a = ''--agent'' \<or> a = ''--token'' \<or> a = ''--junit'' then
        (case rest of
           [] \<Rightarrow> Inl (2, a @ '' needs a value'' @ nl)
         | v # rest' \<Rightarrow>
             if a = ''--jobs'' then ctl_args prog (ops\<lparr>co_jobs := v\<rparr>) rest'
             else if a = ''--agent'' then ctl_args prog (ops\<lparr>co_agents := co_agents ops @ [v]\<rparr>) rest'
             else if a = ''--token'' then ctl_args prog (ops\<lparr>co_token := v\<rparr>) rest'
             else ctl_args prog (ops\<lparr>co_junit := v\<rparr>) rest')
      else if a = ''--connect-timeout'' then
        (case rest of
           [] \<Rightarrow> Inl (2, ''--connect-timeout needs a positive integer'' @ nl)
         | v # rest' \<Rightarrow>
             if atoi v < 1 then Inl (2, ''--connect-timeout needs a positive integer'' @ nl)
             else ctl_args prog (ops\<lparr>co_timeout := atoi v\<rparr>) rest')
      else Inl (2, ''unknown option: '' @ a @ nl @ ctl_usage prog))"

subsection \<open>Connections\<close>

text \<open>One result per address, in the order of the command line; the failed ones are dropped, with a warning.\<close>

fun connect_all ::
  "(string \<Rightarrow> 's \<times> (metadata \<Rightarrow> grpc_status \<times> info_reply)) \<Rightarrow> string list \<Rightarrow> 's executor \<Rightarrow> 's executor \<times> agent_info list" where
  "connect_all net [] ex = (ex, [])"
| "connect_all net (addr # rest) ex =
     (case connect (fst (net addr)) (snd (net addr)) addr ex of
        Inl err \<Rightarrow> connect_all net rest ex
      | Inr (ex', info) \<Rightarrow> (case connect_all net rest ex' of (ex'', live) \<Rightarrow> (ex'', info # live)))"

definition agent_warning ::
  "(string \<Rightarrow> 's \<times> (metadata \<Rightarrow> grpc_status \<times> info_reply)) \<Rightarrow> 's executor \<Rightarrow> string \<Rightarrow> string" where
  "agent_warning net ex addr =
     (case connect (fst (net addr)) (snd (net addr)) addr ex of
        Inl err \<Rightarrow> ''warning: agent '' @ addr @ '' '' @ err @ nl
      | Inr _ \<Rightarrow> [])"

definition agent_line :: "agent_info \<Rightarrow> string" where
  "agent_line a =
     ''agent '' @ address a @ '' host='' @ hostname a @ '' slots='' @ show_nat (slots a) @ '' labels='' @
     comma_list (labels a) @ nl"

subsection \<open>The program\<close>

record 'd ctl_result =
  ctl_status :: int
  printed :: string
  errors :: string
  junit_file :: "string option"

definition stopped :: "int \<times> string \<Rightarrow> string \<Rightarrow> 'd ctl_result" where
  "stopped ne printed_so_far = \<lparr>ctl_status = fst ne, printed = printed_so_far, errors = snd ne, junit_file = None\<rparr>"

text \<open>
  \<open>env_token\<close>, \<open>read_file\<close>, \<open>writable\<close>: the environment and the files. \<open>parse\<close>: the JSON parser. \<open>net\<close>:
  the stubs. \<open>schedule\<close>: the summary that \<open>Scheduler::run\<close> returns.
\<close>

definition ctl_run ::
  "(string \<Rightarrow> bool) \<Rightarrow> ('d \<Rightarrow> string) \<Rightarrow> ('d \<Rightarrow> string) \<Rightarrow> ('d \<Rightarrow> 'd \<Rightarrow> 'd) \<Rightarrow> 'd
     \<Rightarrow> ctl_options \<Rightarrow> job_file \<Rightarrow> string \<Rightarrow> string \<Rightarrow> 'd run_summary \<Rightarrow> 'd ctl_result" where
  "ctl_run writable fmt1 fmt3 add zero ops jf pre warnings rs =
     (let text = pre @ render_text fmt1 rs in
      if co_junit ops \<noteq> [] \<and> \<not> writable (co_junit ops)
      then stopped (2, warnings @ ''error: cannot write '' @ co_junit ops @ nl) text
      else
        \<lparr>ctl_status = (if all_passed rs then 0 else 1),
         printed = text @ (if co_junit ops \<noteq> [] then ''JUnit report written to '' @ co_junit ops @ nl else []),
         errors = warnings,
         junit_file = (if co_junit ops \<noteq> [] then Some (render_junit fmt3 add zero (job_name jf) rs) else None)\<rparr>)"

definition ctl_main ::
  "string \<Rightarrow> string option \<Rightarrow> (string \<Rightarrow> string option) \<Rightarrow> (string \<Rightarrow> bool) \<Rightarrow> (string \<Rightarrow> json option)
     \<Rightarrow> (string \<Rightarrow> 's \<times> (metadata \<Rightarrow> grpc_status \<times> info_reply))
     \<Rightarrow> ('s executor \<Rightarrow> agent_info list \<Rightarrow> task list \<Rightarrow> 'd run_summary)
     \<Rightarrow> ('d \<Rightarrow> string) \<Rightarrow> ('d \<Rightarrow> string) \<Rightarrow> ('d \<Rightarrow> 'd \<Rightarrow> 'd) \<Rightarrow> 'd \<Rightarrow> string list \<Rightarrow> 'd ctl_result" where
  "ctl_main prog env_token read_file writable parse net schedule fmt1 fmt3 add zero args =
     (case ctl_args prog (ctl_defaults env_token) args of
        Inl ne \<Rightarrow> stopped ne []
      | Inr ops \<Rightarrow>
          if co_jobs ops = [] then stopped (2, ''error: --jobs is required'' @ nl @ nl @ ctl_usage prog) []
          else if co_agents ops = [] \<and> \<not> co_validate ops
          then stopped (2, ''error: at least one --agent is required'' @ nl @ nl @ ctl_usage prog) []
          else case read_file (co_jobs ops) of
            None \<Rightarrow> stopped (2, ''error: cannot read '' @ co_jobs ops @ nl) []
          | Some txt \<Rightarrow>
              (let parsed = parse_jobs parse txt;
                   head = ''job '' @ sq (job_name (job parsed)) @ '': '' @ show_nat (length (job_tasks (job parsed))) @ '' tasks'' @ nl in
               if error parsed \<noteq> [] then stopped (2, ''error: '' @ co_jobs ops @ '': '' @ error parsed @ nl) []
               else if co_validate ops then stopped (0, []) head
               else case connect_all net (co_agents ops) (make_executor (co_token ops) 15) of
                 (ex, live) \<Rightarrow>
                   (let pre = head @ concat (map agent_line live);
                        warnings = concat (map (agent_warning net (make_executor (co_token ops) 15)) (co_agents ops)) in
                    if live = [] then stopped (1, warnings @ ''error: no agent is reachable'' @ nl) pre
                    else ctl_run writable fmt1 fmt3 add zero ops (job parsed) (pre @ nl) warnings
                      (schedule ex live (job_tasks (job parsed))))))"

subsection \<open>Properties\<close>

lemma all_passed_iff: "all_passed rs \<longleftrightarrow> (\<forall>out \<in> set (outcomes rs). o_status out = FPassed)"
  unfolding all_passed_def count_status_eq
  by (metis (mono_tags, lifting) filter_True length_filter_less less_irrefl of_nat_eq_iff)

lemma decided_last:
  assumes "task_ok cfg al t x" "ts_final x \<noteq> FUnschedulable"
  shows "ts_attempts x \<noteq> []" "ts_final x = FPassed \<longleftrightarrow> ar_status (rec_result (last (ts_attempts x))) = APassed"
proof -
  let ?ss = "statuses (ts_attempts x)" and ?r = "retries (tasks cfg ! t)"
  have "settled x" using assms by (auto simp: task_ok_def history_ok_def settled_def)
  then have v: "verdict ?r 0 ?ss = Some (ts_final x)" "verdict ?r 0 (butlast ?ss) = None"
    using assms(1) by (auto simp: task_ok_def history_ok_def)
  then show ne: "ts_attempts x \<noteq> []" by auto
  then have "?ss = statuses (butlast (ts_attempts x) @ [last (ts_attempts x)])" by simp
  then have l: "?ss = butlast ?ss @ [ar_status (rec_result (last (ts_attempts x)))]"
    by (simp add: statuses_butlast)
  then have "verdict ?r (failures_in (butlast ?ss)) [ar_status (rec_result (last (ts_attempts x)))] = Some (ts_final x)"
    using verdict_snoc [of ?r 0 "butlast ?ss"] v by (metis add_0 option.case(1))
  then show "ts_final x = FPassed \<longleftrightarrow> ar_status (rec_result (last (ts_attempts x))) = APassed"
    by (cases "ar_status (rec_result (last (ts_attempts x)))") (auto split: if_splits)
qed

lemma summary_outcome:
  assumes "out \<in> set (outcomes (summarize cfg secs s))"
  obtains t where "t < length (tasks cfg)" "o_status out = ts_final (st s ! t)" "o_attempts out = ts_attempts (st s ! t)"
    "o_task out = tasks cfg ! t"
  using assms by (auto simp: summarize_def)

text \<open>
  The reports never look at a last attempt that does not exist: in the summary of any reachable
  state, an outcome that is not unschedulable has an attempt, so \<open>attempts.back()\<close> is defined where
  \<open>render_text\<close> and \<open>render_junit\<close> use it.
\<close>

theorem reported_outcomes_have_attempts:
  assumes "run_of (sched_step cfg) (initial_sys cfg) es c"
    and "out \<in> set (outcomes (summarize cfg secs (shared c)))" "o_status out \<noteq> FUnschedulable"
  shows "o_attempts out \<noteq> []"
proof -
  obtain t where t: "t < length (tasks cfg)" "o_status out = ts_final (st (shared c) ! t)"
    "o_attempts out = ts_attempts (st (shared c) ! t)"
    using assms(2) by (rule summary_outcome)
  then show ?thesis using decided_last(1) [OF reached_task [OF assms(1) t(1)]] assms(3) by simp
qed

theorem reported_outcomes_have_attempts_witness:
  "o_attempts (outcomes (summarize demo_cfg 0 (shared demo_end)) ! 0) \<noteq> []"
proof -
  have o: "0 < length (outcomes (summarize demo_cfg 0 (shared demo_end)))" by (simp add: summarize_def) code_simp
  have "o_status (outcomes (summarize demo_cfg 0 (shared demo_end)) ! 0) \<noteq> FUnschedulable"
    unfolding demo_end_def demo_retried_def demo_busy_def by code_simp
  then show ?thesis using reported_outcomes_have_attempts [OF demo_run_end nth_mem [OF o]] by blast
qed

text \<open>
  What exit status 0 means: with the agents that answered, a valid job file and a
  completed run of the scheduler, the controller exits with 0 exactly when at least one agent answered, the
  requested report could be written and every task passed; then the last attempt of every task passed.
\<close>

theorem exit_zero_means_passed:
  assumes "ctl_args prog (ctl_defaults env_token) args = Inr ops" "\<not> co_validate ops" "co_jobs ops \<noteq> []" "co_agents ops \<noteq> []"
    and "read_file (co_jobs ops) = Some txt" "error (parse_jobs parse txt) = []"
    and "connect_all net (co_agents ops) (make_executor (co_token ops) 15) = (ex, live)"
    and "cfg = make_config live (job_tasks (job (parse_jobs parse txt)))"
    and "run_of (sched_step cfg) (initial_sys cfg) es c"
    and "schedule ex live (job_tasks (job (parse_jobs parse txt))) = summarize cfg secs (shared c)"
    and "code = ctl_status (ctl_main prog env_token read_file writable parse net schedule fmt1 fmt3 add zero args)"
  shows "(code = 0 \<longleftrightarrow> live \<noteq> [] \<and> (co_junit ops = [] \<or> writable (co_junit ops)) \<and>
      list_all (\<lambda>t. ts_final (st (shared c) ! t) = FPassed) [0..<length (tasks cfg)]) \<and>
    (code = 0 \<longrightarrow> list_all (\<lambda>t. ts_attempts (st (shared c) ! t) \<noteq> [] \<and>
        ar_status (rec_result (last (ts_attempts (st (shared c) ! t)))) = APassed) [0..<length (tasks cfg)])"
proof -
  have passed: "all_passed (summarize cfg secs (shared c)) \<longleftrightarrow>
      list_all (\<lambda>t. ts_final (st (shared c) ! t) = FPassed) [0..<length (tasks cfg)]"
    by (simp add: all_passed_iff list_all_iff summarize_def)
  have code: "code = 0 \<longleftrightarrow> live \<noteq> [] \<and> (co_junit ops = [] \<or> writable (co_junit ops)) \<and>
      all_passed (summarize cfg secs (shared c))"
    unfolding assms(11) ctl_main_def using assms(1-7,10) by (simp add: Let_def ctl_run_def stopped_def)
  have "ts_attempts (st (shared c) ! t) \<noteq> [] \<and> ar_status (rec_result (last (ts_attempts (st (shared c) ! t)))) = APassed"
    if "t < length (tasks cfg)" "ts_final (st (shared c) ! t) = FPassed" for t
    using decided_last [OF reached_task [OF assms(9) that(1)]] that(2) by simp
  then show ?thesis unfolding code passed by (auto simp: list_all_iff)
qed

definition one_doc :: json where
  "one_doc = JObject [(''tasks'', JArray [JObject [(''argv'', JArray [JString ''/bin/true'']), (''name'', JString ''t'')]])]"

definition one_parse :: "string \<Rightarrow> json option" where
  "one_parse txt = Some one_doc"

definition one_net :: "string \<Rightarrow> nat \<times> (metadata \<Rightarrow> grpc_status \<times> info_reply)" where
  "one_net addr = (7, demo_info)"

definition one_live :: "agent_info list" where
  "one_live = [\<lparr>address = ''h'', hostname = ''h'', slots = 1, labels = []\<rparr>]"

definition one_cfg :: config where
  "one_cfg = make_config one_live (job_tasks (job (parse_jobs one_parse [])))"

definition one_end :: "nat sys" where
  "one_end = the (sched_replay one_cfg (initial_sys one_cfg) [Enter 0, Complete 0 (demo_result APassed)])"

definition one_schedule :: "nat executor \<Rightarrow> agent_info list \<Rightarrow> task list \<Rightarrow> nat run_summary" where
  "one_schedule ex live ts = summarize one_cfg 3 (shared one_end)"

definition one_args :: "string list" where
  "one_args = [''--jobs'', ''j'', ''--agent'', ''h'']"

definition one_options :: ctl_options where
  "one_options = \<lparr>co_jobs = ''j'', co_agents = [''h''], co_token = [], co_junit = [], co_timeout = 5, co_validate = False\<rparr>"

theorem exit_zero_means_passed_witness:
  "ctl_status (ctl_main ''dtest-ctl'' None Some (\<lambda>_. True) one_parse one_net one_schedule show_nat show_nat (+) 0 one_args) = 0"
proof -
  have a: "ctl_args ''dtest-ctl'' (ctl_defaults None) one_args = Inr one_options" by code_simp
  have b: "\<not> co_validate one_options" "co_jobs one_options \<noteq> []" "co_agents one_options \<noteq> []" "co_junit one_options = []"
    by (simp_all add: one_options_def)
  have c: "error (parse_jobs one_parse (co_jobs one_options)) = []" by code_simp
  obtain ex where d: "connect_all one_net (co_agents one_options) (make_executor (co_token one_options) 15) = (ex, one_live)"
    by (simp add: one_net_def one_options_def connect_def demo_info_def status_ok_def one_live_def)
  have cfg: "one_cfg = make_config one_live (job_tasks (job (parse_jobs one_parse (co_jobs one_options))))"
    by (simp add: one_cfg_def one_parse_def parse_jobs_def)
  have run: "run_of (sched_step one_cfg) (initial_sys one_cfg) [Enter 0, Complete 0 (demo_result APassed)] one_end"
    unfolding one_end_def by (rule replay_the) code_simp
  have e: "list_all (\<lambda>t. ts_final (st (shared one_end) ! t) = FPassed) [0..<length (tasks one_cfg)]"
    unfolding one_end_def by code_simp
  show ?thesis
    using exit_zero_means_passed [OF a b(1,2,3) _ c d cfg run, of Some one_schedule 3 _ "\<lambda>_. True" show_nat show_nat "(+)" 0] b(4) e
    by (auto simp: one_schedule_def one_live_def)
qed

end
