(* ===== verification/Dtest_End_To_End.thy ===== *)
theory Dtest_End_To_End
  imports Dtest_Mains
begin

section \<open>From the exit status of the controller to the processes on the agents\<close>

text \<open>
  The whole chain: \<open>dtest-ctl\<close> (command line, job file, connections, exit status), the scheduler, the executor, the
  agent service and the process it runs. The attempts the scheduler records are traced back to the events of
  the run, and these to the answers of the agents.
\<close>

subsection \<open>Every recorded attempt is an answer of the executor\<close>

lemma run_of_snocE:
  assumes "run_of step s (es @ [e]) s''"
  obtains s' where "run_of step s es s'" "step s' e s''"
  using assms by (induction es arbitrary: s) (auto simp: run_of_Cons)

text \<open>The event with index \<open>i\<close>: a worker of agent \<open>a\<close> returns from \<open>exec_.run(agents_[a], tasks_[t])\<close> with \<open>res\<close>.\<close>

definition returns_at :: "config \<Rightarrow> 'd event list \<Rightarrow> nat \<Rightarrow> nat \<Rightarrow> nat \<Rightarrow> 'd attempt_result \<Rightarrow> bool" where
  "returns_at cfg es i a t res \<longleftrightarrow>
     i < length es \<and>
     (\<exists>w c. es ! i = Complete w res \<and> run_of (sched_step cfg) (initial_sys cfg) (take i es) c \<and>
        w < length (threads c) \<and> threads c ! w = (a, Busy t))"

lemma returns_at_snoc: "returns_at cfg es i a t res \<Longrightarrow> returns_at cfg (es @ [e]) i a t res"
  by (auto simp: returns_at_def nth_append)

lemma resume_attempts:
  assumes "t < length (tasks cfg)" "length (st s) = length (tasks cfg)"
  shows "ts_attempts (st (shared (resume cfg w a s ths)) ! t) = ts_attempts (st s ! t)"
  using assms
  by (rule_tac loop_head_cases [of cfg a s])
    (auto simp: resume_def run_simps nth_list_update mark_running_def)

lemma complete_attempts:
  assumes "length (st s) = length (tasks cfg)" "t < length (tasks cfg)" "u < length (tasks cfg)"
  shows "ts_attempts (st (complete cfg a t res s) ! u) =
    ts_attempts (st s ! u) @ (if u = t then [\<lparr>rec_agent = address (agents cfg ! a), rec_result = res\<rparr>] else [])"
proof -
  let ?s = "upd_task t (record_attempt cfg a res) s"
  have t: "t < length (st s)" using assms by simp
  have rec: "ts_attempts (st ?s ! u) =
      ts_attempts (st s ! u) @ (if u = t then [\<lparr>rec_agent = address (agents cfg ! a), rec_result = res\<rparr>] else [])"
    using t by (auto simp: run_simps record_attempt_def)
  have "length (st (?s\<lparr>alive := (alive ?s)[a := False], dead := dead ?s @ [address (agents cfg ! a)]\<rparr>)) = length (tasks cfg)"
    using assms(1) by (simp add: run_simps)
  from resolve_fields(4) [OF this assms(3)] have "ts_attempts (st (retire cfg a ?s) ! u) = ts_attempts (st ?s ! u)"
    by (simp add: retire_def resolve_task_def)
  then show ?thesis
    by (rule_tac complete_cases [OF t, of res cfg a]) (use t rec in \<open>auto simp: run_simps nth_list_update record_attempt_def\<close>)
qed

lemma initial_attempts:
  assumes "t < length (tasks cfg)"
  shows "ts_attempts (st (shared (initial_sys cfg :: 'd sys)) ! t) = []"
proof -
  have "length (st (initial_run cfg :: 'd run_state)) = length (tasks cfg)" by (simp add: initial_run_def)
  from resolve_fields(4) [OF this assms] have "ts_attempts (st (resolve_unschedulable cfg (initial_run cfg :: 'd run_state)) ! t) =
      ts_attempts (st (initial_run cfg :: 'd run_state) ! t)"
    by (simp add: resolve_task_def)
  then show ?thesis using assms by (simp add: initial_sys_def) (simp add: initial_run_def initial_task_state_def)
qed

lemma attempts_traced:
  assumes "run_of (sched_step cfg) (initial_sys cfg) es c" "t < length (tasks cfg)" "r \<in> set (ts_attempts (st (shared c) ! t))"
  shows "\<exists>i a. returns_at cfg es i a t (rec_result r) \<and> rec_agent r = address (agents cfg ! a)"
  using assms(1,3)
proof (induction es arbitrary: c rule: rev_induct)
  case Nil
  then have "c = initial_sys cfg" by simp
  then show ?case using Nil.prems(2) by (simp add: initial_attempts [OF assms(2)])
next
  case (snoc e es)
  obtain b where b: "run_of (sched_step cfg) (initial_sys cfg) es b" "sched_step cfg b e c"
    using snoc.prems(1) by (rule run_of_snocE)
  have ok: "sys_ok cfg b" by (rule reached_ok [OF b(1)])
  note len = sys_ok_holds(6) [OF ok]
  have old: ?case if "r \<in> set (ts_attempts (st (shared b) ! t))"
    using snoc.IH [OF b(1) that] returns_at_snoc by blast
  from b(2) show ?case
  proof cases
    case (enter w a)
    then show ?thesis using old snoc.prems(2) resume_attempts [OF assms(2) len] by simp
  next
    case (complete w a u res)
    have u: "u < length (tasks cfg)"
      using sys_ok_holds(3) [OF ok complete(3)] complete(4) by (simp add: thread_ok_def)
    have len': "length (st (complete cfg a u res (shared b))) = length (tasks cfg)"
      using sys_ok_holds(6) [OF reached_ok [OF snoc.prems(1)]] complete
      by (rule_tac loop_head_cases [of cfg a "complete cfg a u res (shared b)"]) (auto simp: resume_def run_simps)
    have "ts_attempts (st (shared c) ! t) = ts_attempts (st (shared b) ! t) @
        (if t = u then [\<lparr>rec_agent = address (agents cfg ! a), rec_result = res\<rparr>] else [])"
      using complete resume_attempts [OF assms(2) len'] complete_attempts [OF len u assms(2)] by simp
    then consider "r \<in> set (ts_attempts (st (shared b) ! t))"
      | "t = u" "r = \<lparr>rec_agent = address (agents cfg ! a), rec_result = res\<rparr>"
      using snoc.prems(2) by (auto split: if_splits)
    then show ?thesis
    proof cases
      case 2
      then have "returns_at cfg (es @ [e]) (length es) a t (rec_result r)"
        using b(1) complete by (auto simp: returns_at_def)
      then show ?thesis using 2 by auto
    qed (rule old)
  next
    case (spurious w a)
    then show ?thesis using old snoc.prems(2) by simp
  qed
qed

subsection \<open>The answers of the agents\<close>

text \<open>
  What happens during event \<open>i\<close> outside the scheduler: \<open>rpc i\<close> is the outcome of the call, \<open>run i\<close> of the
  process that the agent may start. \<open>opts\<close> gives the options of the agent process behind a stub.
\<close>

definition executed ::
  "(32 word \<Rightarrow> 'd) \<Rightarrow> 'd \<Rightarrow> (nat \<Rightarrow> 's \<Rightarrow> metadata \<Rightarrow> int \<Rightarrow> run_task_request \<Rightarrow> grpc_status \<times> run_task_reply \<times> 'd)
     \<Rightarrow> 's executor \<Rightarrow> config \<Rightarrow> 'd event list \<Rightarrow> bool" where
  "executed to_seconds zero rpc ex cfg es \<longleftrightarrow>
     (\<forall>i a t res. returns_at cfg es i a t res \<longrightarrow>
        res = run_on to_seconds zero (rpc i) ex (agents cfg ! a) (tasks cfg ! t))"

text \<open>A call that succeeds has been answered by the service, while some number of other calls was running there.\<close>

definition served ::
  "(string \<Rightarrow> string) \<Rightarrow> ('s \<Rightarrow> agent_options) \<Rightarrow> (nat \<Rightarrow> run_spec \<Rightarrow> run_output option)
     \<Rightarrow> (nat \<Rightarrow> 's \<Rightarrow> metadata \<Rightarrow> int \<Rightarrow> run_task_request \<Rightarrow> grpc_status \<times> run_task_reply \<times> 'd) \<Rightarrow> bool" where
  "served canon opts run rpc \<longleftrightarrow>
     (\<forall>i stub md deadline req gst rep secs. rpc i stub md deadline req = (gst, rep, secs) \<and> fst gst = OK \<longrightarrow>
        (\<exists>n n'. run_task canon (opts stub) (run i) md req n = Some (gst, Some rep, n')))"

lemma connect_all_token:
  assumes "connect_all net addrs ex = (ex', live)"
  shows "ex_token ex' = ex_token ex"
  using assms
proof (induction net addrs ex arbitrary: ex' live rule: connect_all.induct)
  case (2 net addr rest ex)
  show ?case
  proof (cases "connect (fst (net addr)) (snd (net addr)) addr ex")
    case (Inl err)
    then have "connect_all net rest ex = (ex', live)" using 2(3) by simp
    then show ?thesis by (rule 2(1) [OF Inl])
  next
    case (Inr r)
    obtain ex1 info where r: "r = (ex1, info)" by fastforce
    obtain ex2 live2 where all: "connect_all net rest ex1 = (ex2, live2)" by fastforce
    have "ex_token ex2 = ex_token ex1" by (rule 2(2) [OF Inr r [symmetric] all])
    moreover have "ex_token ex1 = ex_token ex"
      using Inr r by (auto simp: connect_def split: if_splits prod.splits)
    ultimately show ?thesis using 2(3) Inr r all by simp
  qed
qed simp

lemma authenticated_caller:
  "fst (authenticate opts (call_metadata token)) = OK \<longleftrightarrow> op_token opts = [] \<or> op_token opts = token"
  by (auto simp: authenticate_def status_ok_def constant_time_equals_iff call_metadata_def split: option.splits)

text \<open>An attempt that passes: there was a connection, and behind it a process ran and exited with code 0.\<close>

lemma passed_ran:
  assumes "served canon opts run rpc" "ar_status (run_on to_seconds zero (rpc i) ex agent t) = APassed"
  obtains stub out where "omap_get (stubs ex) (address agent) = Some stub"
    "op_token (opts stub) = [] \<or> op_token (opts stub) = ex_token ex"
    "check_command canon (op_policy (opts stub)) (hd (argv t)) = []"
    "run i (spec_of_request (opts stub) (request_of_task t)) = Some out" "ro_outcome out = PExited" "ro_exit_code out = 0"
proof (cases "omap_get (stubs ex) (address agent)")
  case None
  then show thesis using assms(2) by (simp add: run_on_def)
next
  case (Some stub)
  let ?md = "call_metadata (ex_token ex)" and ?req = "request_of_task t"
  obtain gst rep secs where rpc: "rpc i stub ?md (timeout_s t + ex_margin ex) ?req = (gst, rep, secs)"
    by (metis prod_cases3)
  have ok: "fst gst = OK" "rp_outcome rep = EXITED" "rp_exit_code rep = 0"
    using run_on_passed [where rpc = "rpc i", OF Some rpc, of to_seconds zero] assms(2) by simp_all
  then obtain n n' where "run_task canon (opts stub) (run i) ?md ?req n = Some (gst, Some rep, n')"
    using assms(1) rpc unfolding served_def by blast
  from run_task_replies [OF this] obtain out where adm: "fst (admit canon (opts stub) ?md ?req) = OK"
    and out: "run i (spec_of_request (opts stub) ?req) = Some out" "rep = reply_of_output out"
    by blast
  show thesis
  proof (rule that [OF Some _ _ out(1)])
    show "op_token (opts stub) = [] \<or> op_token (opts stub) = ex_token ex"
      using adm by (simp add: admit_iff authenticated_caller)
    show "check_command canon (op_policy (opts stub)) (hd (argv t)) = []"
      using adm by (simp add: admit_iff request_of_task_def)
    show "ro_outcome out = PExited" "ro_exit_code out = 0"
      using ok out(2) by (cases "ro_outcome out"; simp add: reply_of_output_def)+
  qed
qed

subsection \<open>The interface between scheduler and executor\<close>

text \<open>
  \<open>Executor\<close> (\<open>scheduler.hpp\<close>) as the scheduler sees it: the attempt at a task on an agent during event \<open>i\<close>
  has a result, and a result that says the task passed is backed by \<open>ran\<close>, whatever an implementation means by it.
\<close>

locale executor_api =
  fixes attempt :: "nat \<Rightarrow> agent_info \<Rightarrow> task \<Rightarrow> 'd attempt_result"
    and ran :: "nat \<Rightarrow> agent_info \<Rightarrow> task \<Rightarrow> bool"
  assumes passed_only_if_ran: "ar_status (attempt i agent t) = APassed \<Longrightarrow> ran i agent t"
begin

lemma passed_task_ran:
  assumes "run_of (sched_step cfg) (initial_sys cfg) es c" "t < length (tasks cfg)"
    and "\<And>i a res. returns_at cfg es i a t res \<Longrightarrow> res = attempt i (agents cfg ! a) (tasks cfg ! t)"
    and "ts_final (st (shared c) ! t) = FPassed"
  obtains i a where "returns_at cfg es i a t (attempt i (agents cfg ! a) (tasks cfg ! t))" "able cfg a t"
    "ran i (agents cfg ! a) (tasks cfg ! t)"
proof -
  let ?x = "st (shared c) ! t"
  have last: "ts_attempts ?x \<noteq> []" "ar_status (rec_result (last (ts_attempts ?x))) = APassed"
    using decided_last [OF reached_task [OF assms(1,2)]] assms(4) by simp_all
  then obtain i a where at: "returns_at cfg es i a t (rec_result (last (ts_attempts ?x)))"
    using attempts_traced [OF assms(1,2) last_in_set] by blast
  then obtain w b where b: "run_of (sched_step cfg) (initial_sys cfg) (take i es) b" "w < length (threads b)"
      "threads b ! w = (a, Busy t)"
    by (auto simp: returns_at_def)
  have "able cfg a t" using sys_ok_holds(3) [OF reached_ok [OF b(1)] b(2)] b(3) by (simp add: thread_ok_def)
  moreover have "rec_result (last (ts_attempts ?x)) = attempt i (agents cfg ! a) (tasks cfg ! t)"
    using assms(3) [OF at] .
  ultimately show thesis using that at last(2) passed_only_if_ran by metis
qed

end

text \<open>
  \<open>GrpcExecutor\<close> implements it: behind a stub is an agent that accepted the token and permits the program, and a process that
  exited with code 0, provided that successful calls were answered by the agents.
\<close>

definition exited_on_agent ::
  "(string \<Rightarrow> string) \<Rightarrow> ('s \<Rightarrow> agent_options) \<Rightarrow> (nat \<Rightarrow> run_spec \<Rightarrow> run_output option) \<Rightarrow> 's executor
     \<Rightarrow> nat \<Rightarrow> agent_info \<Rightarrow> task \<Rightarrow> bool" where
  "exited_on_agent canon opts run ex i agent t \<longleftrightarrow>
     (\<exists>stub out. omap_get (stubs ex) (address agent) = Some stub \<and>
        (op_token (opts stub) = [] \<or> op_token (opts stub) = ex_token ex) \<and>
        check_command canon (op_policy (opts stub)) (hd (argv t)) = [] \<and>
        run i (spec_of_request (opts stub) (request_of_task t)) = Some out \<and>
        ro_outcome out = PExited \<and> ro_exit_code out = 0)"

interpretation grpc: executor_api "\<lambda>i. run_on to_seconds zero (rpc i) ex"
    "\<lambda>i agent t. served canon opts run rpc \<longrightarrow> exited_on_agent canon opts run ex i agent t" for to_seconds zero rpc ex canon opts run
  by unfold_locales (auto simp: exited_on_agent_def elim: passed_ran)

text \<open>
  Property C19. End to end, what exit status 0 of \<open>dtest-ctl\<close> means: with a valid job file and a completed run of the
  scheduler whose attempts are the executor's calls and whose successful calls were answered by the agents, every task of
  the job was given to an agent that has the labels it needs, the agent accepted the controller's token and permits the
  program, and the process it ran for exactly that task's command, environment and timeout exited with code 0.
\<close>

theorem exit_zero_means_exited:
  assumes "ctl_args prog (ctl_defaults env_token) args = Inr ops" "\<not> co_validate ops" "co_jobs ops \<noteq> []" "co_agents ops \<noteq> []"
    and "read_file (co_jobs ops) = Some txt" "error (parse_jobs parse txt) = []"
    and "connect_all net (co_agents ops) (make_executor (co_token ops) 15) = (ex, live)"
    and "cfg = make_config live (job_tasks (job (parse_jobs parse txt)))"
    and "run_of (sched_step cfg) (initial_sys cfg) es c"
    and "schedule ex live (job_tasks (job (parse_jobs parse txt))) = summarize cfg secs (shared c)"
    and "ctl_status (ctl_main prog env_token read_file writable parse net schedule fmt1 fmt3 add zero args) = 0"
    and "executed to_seconds zero rpc ex cfg es" "served canon opts run rpc"
    and "t < length (tasks cfg)"
  shows "\<exists>i a res stub out. returns_at cfg es i a t res \<and> able cfg a t \<and>
    omap_get (stubs ex) (address (agents cfg ! a)) = Some stub \<and>
    (op_token (opts stub) = [] \<or> op_token (opts stub) = co_token ops) \<and>
    check_command canon (op_policy (opts stub)) (hd (argv (tasks cfg ! t))) = [] \<and>
    run i (spec_of_request (opts stub) (request_of_task (tasks cfg ! t))) = Some out \<and>
    ro_outcome out = PExited \<and> ro_exit_code out = 0"
proof -
  have final: "ts_final (st (shared c) ! t) = FPassed"
    using exit_zero_means_passed [OF assms(1-10) assms(11) [symmetric]] assms(14) by (auto simp: list_all_iff)
  obtain i a where at: "returns_at cfg es i a t (run_on to_seconds zero (rpc i) ex (agents cfg ! a) (tasks cfg ! t))" "able cfg a t"
      "exited_on_agent canon opts run ex i (agents cfg ! a) (tasks cfg ! t)"
    using grpc.passed_task_ran [OF assms(9,14) _ final, where rpc = rpc and to_seconds = to_seconds and zero = zero and ex = ex
        and canon = canon and opts = opts and run = run] assms(12,13)
    by (auto simp: executed_def)
  have "ex_token ex = co_token ops" using connect_all_token [OF assms(7)] by (simp add: make_executor_def)
  then show ?thesis using at unfolding exited_on_agent_def by metis
qed

definition true_opts :: agent_options where
  "true_opts = demo_options\<lparr>op_policy := \<lparr>allow = [''/bin/true''], allow_any = False\<rparr>\<rparr>"

definition true_rpc :: "nat \<Rightarrow> nat \<Rightarrow> metadata \<Rightarrow> int \<Rightarrow> run_task_request \<Rightarrow> grpc_status \<times> run_task_reply \<times> nat" where
  "true_rpc i stub md deadline req =
     (case run_task id true_opts demo_run md req 0 of
        Some (s, Some r, n) \<Rightarrow> (s, r, 1)
      | Some (s, None, n) \<Rightarrow> (if fst s = OK then (slot_refused, no_reply, 1) else (s, no_reply, 1))
      | None \<Rightarrow> ((INTERNAL, []), no_reply, 1))"

definition true_args :: "string list" where
  "true_args = one_args @ [''--token'', ''s3cret'']"

definition true_executor :: "nat executor" where
  "true_executor = fst (connect_all one_net [''h''] (make_executor ''s3cret'' 15))"

definition true_result :: "nat attempt_result" where
  "true_result = run_on unat 0 (true_rpc 1) true_executor (agents one_cfg ! 0) (tasks one_cfg ! 0)"

definition true_events :: "nat event list" where
  "true_events = [Enter 0, Complete 0 true_result]"

definition true_end :: "nat sys" where
  "true_end = the (sched_replay one_cfg (initial_sys one_cfg) true_events)"

definition true_schedule :: "nat executor \<Rightarrow> agent_info list \<Rightarrow> task list \<Rightarrow> nat run_summary" where
  "true_schedule ex live ts = summarize one_cfg 3 (shared true_end)"

lemma true_executed: "executed unat 0 true_rpc true_executor one_cfg true_events"
proof -
  have "threads (the (sched_replay one_cfg (initial_sys one_cfg) [Enter 0]) :: nat sys) = [(0, Busy 0)]" by code_simp
  then have "a = 0 \<and> t = 0 \<and> i = 1 \<and> res = true_result" if "returns_at one_cfg true_events i a t res" for i a t res
    using that unfolding returns_at_def sched_replay_run [symmetric]
    by (cases i) (auto simp: true_events_def simp del: sched_replay.simps)
  then show ?thesis by (auto simp: executed_def true_result_def)
qed

lemma true_served: "served id (\<lambda>_. true_opts) (\<lambda>_. demo_run) true_rpc"
  unfolding served_def true_rpc_def slot_refused_def
  by (auto split: option.splits if_splits prod.splits)

theorem exit_zero_means_exited_witness:
  "ro_exit_code (the (demo_run (spec_of_request true_opts (request_of_task (tasks one_cfg ! 0))))) = 0 \<and>
   ctl_status (ctl_main ''dtest-ctl'' None Some (\<lambda>_. True) one_parse one_net true_schedule show_nat show_nat (+) 0 true_args) = 0"
proof -
  let ?ops = "one_options\<lparr>co_token := ''s3cret''\<rparr>"
  have a: "ctl_args ''dtest-ctl'' (ctl_defaults None) true_args = Inr ?ops" by code_simp
  have b: "\<not> co_validate ?ops" "co_jobs ?ops \<noteq> []" "co_agents ?ops \<noteq> []" "co_junit ?ops = []"
    by (simp_all add: one_options_def)
  have c: "error (parse_jobs one_parse (co_jobs ?ops)) = []" by code_simp
  have d: "connect_all one_net (co_agents ?ops) (make_executor (co_token ?ops) 15) = (true_executor, one_live)"
    by (simp add: one_net_def one_options_def connect_def demo_info_def status_ok_def one_live_def true_executor_def)
  have cfg: "one_cfg = make_config one_live (job_tasks (job (parse_jobs one_parse (co_jobs ?ops))))"
    by (simp add: one_cfg_def one_parse_def parse_jobs_def)
  have run: "run_of (sched_step one_cfg) (initial_sys one_cfg) true_events true_end"
    unfolding true_end_def by (rule replay_the) code_simp
  have passed: "list_all (\<lambda>t. ts_final (st (shared true_end) ! t) = FPassed) [0..<length (tasks one_cfg)]"
    by code_simp
  have t: "0 < length (tasks one_cfg)" by code_simp
  let ?main = "ctl_main ''dtest-ctl'' None Some (\<lambda>_. True) one_parse one_net true_schedule show_nat show_nat (+) 0 true_args"
  have s: "true_schedule true_executor one_live (job_tasks (job (parse_jobs one_parse (co_jobs ?ops)))) =
      summarize one_cfg 3 (shared true_end)"
    by (simp add: true_schedule_def)
  have "ctl_status ?main = 0" by code_simp
  moreover from exit_zero_means_exited [OF a b(1-3) refl c d cfg run s this true_executed true_served t]
  have "ro_exit_code (the (demo_run (spec_of_request true_opts (request_of_task (tasks one_cfg ! 0))))) = 0" by auto
  ultimately show ?thesis by blast
qed

end
