(* ===== verification/Dtest_Fleet.thy ===== *)
theory Dtest_Fleet
  imports Dtest_Mains
begin

section \<open>The fleet: one scheduler and the agents it calls\<close>

text \<open>
  The product of the scheduler (Scheduler.thy) and the slot counters of the agents (Agent.thy). Worker \<open>w\<close>
  of the scheduler has at most one call in the hands of the executor; on the agent it is the entry \<open>w\<close> of the list of
  calls. An entry that has no call to show is \<open>Returned OK\<close>. \<open>reaches\<close> says which agent process an address leads to and
  \<open>opts\<close> what options it runs with: both depend on the deployment. Time is not modelled: the executor may give a
  call up at any moment (its deadline, a broken connection), and the agent may still be running it afterwards.
\<close>

subsection \<open>State and steps\<close>

record 'd fleet =
  ctl :: "'d sys"
  servers :: "nat \<Rightarrow> slots_state"

definition server_of :: "config \<Rightarrow> (string \<Rightarrow> nat) \<Rightarrow> nat \<Rightarrow> nat" where
  "server_of cfg reaches a = reaches (address (agents cfg ! a))"

definition set_call :: "nat \<Rightarrow> call \<Rightarrow> slots_state \<Rightarrow> slots_state" where
  "set_call w k s = s\<lparr>calls := (calls s)[w := k]\<rparr>"

text \<open>\<open>exec_.run\<close> is entered when the worker leaves the mutex with a task: the call is on its way.\<close>

definition send_call :: "config \<Rightarrow> (string \<Rightarrow> nat) \<Rightarrow> nat \<Rightarrow> 'd sys \<Rightarrow> (nat \<Rightarrow> slots_state) \<Rightarrow> nat \<Rightarrow> slots_state" where
  "send_call cfg reaches w c sv =
     (case threads c ! w of (a, p) \<Rightarrow>
        if is_busy p then sv(server_of cfg reaches a := set_call w Arrived (sv (server_of cfg reaches a))) else sv)"

text \<open>What \<open>GrpcExecutor::run\<close> may make of a call that was answered with the code (\<open>run_answers\<close> below).\<close>

definition answers :: "grpc_code \<Rightarrow> 'd attempt_result \<Rightarrow> bool" where
  "answers code res \<longleftrightarrow>
     (if code = OK then ar_status res \<noteq> AgentError
      else ar_status res = (if infrastructure_error code then AgentError else AFailed))"

definition rejections :: "grpc_code list" where
  "rejections = [UNAUTHENTICATED, INVALID_ARGUMENT, PERMISSION_DENIED]"

datatype 'd fleet_event =
    Worker "'d event"
  | Lost nat "'d attempt_result"
  | AtAgent nat slot_event
  | Reject nat nat grpc_code

fun worker_of :: "'d event \<Rightarrow> nat" where
  "worker_of (Enter w) = w"
| "worker_of (Complete w res) = w"
| "worker_of (Spurious w) = w"

text \<open>A worker returns from the executor with an answer only when the agent has given that answer.\<close>

fun answered :: "config \<Rightarrow> (string \<Rightarrow> nat) \<Rightarrow> 'd fleet \<Rightarrow> 'd event \<Rightarrow> bool" where
  "answered cfg reaches f (Complete w res) =
     (case calls (servers f (server_of cfg reaches (fst (threads (ctl f) ! w)))) ! w of
        Returned code \<Rightarrow> answers code res
      | _ \<Rightarrow> False)"
| "answered cfg reaches f e = True"

inductive fleet_step ::
  "config \<Rightarrow> (string \<Rightarrow> nat) \<Rightarrow> (nat \<Rightarrow> agent_options) \<Rightarrow> 'd fleet \<Rightarrow> 'd fleet_event \<Rightarrow> 'd fleet \<Rightarrow> bool" for cfg reaches opts where
  worker: "sched_step cfg (ctl f) e c \<Longrightarrow> answered cfg reaches f e \<Longrightarrow>
     fleet_step cfg reaches opts f (Worker e) \<lparr>ctl = c, servers = send_call cfg reaches (worker_of e) c (servers f)\<rparr>"
| lost: "sched_step cfg (ctl f) (Complete w res) c \<Longrightarrow> ar_status res = AgentError \<Longrightarrow>
     fleet_step cfg reaches opts f (Lost w res) \<lparr>ctl = c, servers = send_call cfg reaches w c (servers f)\<rparr>"
| at_agent: "slot_step (opts s) (servers f s) e sv \<Longrightarrow>
     fleet_step cfg reaches opts f (AtAgent s e) (f\<lparr>servers := (servers f)(s := sv)\<rparr>)"
| reject: "w < length (calls (servers f s)) \<Longrightarrow> calls (servers f s) ! w = Arrived \<Longrightarrow> code \<in> set rejections \<Longrightarrow>
     fleet_step cfg reaches opts f (Reject s w code)
       (f\<lparr>servers := (servers f)(s := set_call w (Returned code) (servers f s))\<rparr>)"

inductive_cases fleet_stepE: "fleet_step cfg reaches opts f e f'"

definition initial_fleet :: "config \<Rightarrow> 'd fleet" where
  "initial_fleet cfg = \<lparr>ctl = initial_sys cfg,
     servers = (\<lambda>_. \<lparr>running = 0, calls = replicate (length (spawn_threads cfg)) (Returned OK)\<rparr>)\<rparr>"

text \<open>The same step as a function of the label.\<close>

fun fleet_next ::
  "config \<Rightarrow> (string \<Rightarrow> nat) \<Rightarrow> (nat \<Rightarrow> agent_options) \<Rightarrow> 'd fleet \<Rightarrow> 'd fleet_event \<Rightarrow> 'd fleet option" where
  "fleet_next cfg reaches opts f (Worker e) =
     (case sched_next cfg (ctl f) e of
        None \<Rightarrow> None
      | Some c \<Rightarrow>
          if answered cfg reaches f e
          then Some \<lparr>ctl = c, servers = send_call cfg reaches (worker_of e) c (servers f)\<rparr> else None)"
| "fleet_next cfg reaches opts f (Lost w res) =
     (case sched_next cfg (ctl f) (Complete w res) of
        None \<Rightarrow> None
      | Some c \<Rightarrow>
          if ar_status res = AgentError
          then Some \<lparr>ctl = c, servers = send_call cfg reaches w c (servers f)\<rparr> else None)"
| "fleet_next cfg reaches opts f (AtAgent s e) =
     (case slot_next (opts s) (servers f s) e of
        None \<Rightarrow> None
      | Some sv \<Rightarrow> Some (f\<lparr>servers := (servers f)(s := sv)\<rparr>))"
| "fleet_next cfg reaches opts f (Reject s w code) =
     (if w < length (calls (servers f s)) \<and> calls (servers f s) ! w = Arrived \<and> code \<in> set rejections
      then Some (f\<lparr>servers := (servers f)(s := set_call w (Returned code) (servers f s))\<rparr>) else None)"

fun fleet_replay ::
  "config \<Rightarrow> (string \<Rightarrow> nat) \<Rightarrow> (nat \<Rightarrow> agent_options) \<Rightarrow> 'd fleet \<Rightarrow> 'd fleet_event list \<Rightarrow> 'd fleet option" where
  "fleet_replay cfg reaches opts f [] = Some f"
| "fleet_replay cfg reaches opts f (e # es) =
     (case fleet_next cfg reaches opts f e of None \<Rightarrow> None | Some f' \<Rightarrow> fleet_replay cfg reaches opts f' es)"

lemma fleet_next_step: "fleet_next cfg reaches opts f e = Some f' \<Longrightarrow> fleet_step cfg reaches opts f e f'"
  by (cases e)
    (auto simp: sched_next_step simp del: sched_next.simps intro: fleet_step.intros dest: slot_next_step split: option.splits if_splits)

lemma fleet_replay_run:
  "fleet_replay cfg reaches opts f es = Some f' \<Longrightarrow> run_of (fleet_step cfg reaches opts) f es f'"
  by (induction es arbitrary: f) (auto simp: run_of_Cons dest: fleet_next_step split: option.splits)

lemma fleet_replay_the:
  "fleet_replay cfg reaches opts f es \<noteq> None \<Longrightarrow>
     run_of (fleet_step cfg reaches opts) f es (the (fleet_replay cfg reaches opts f es))"
  by (auto intro: fleet_replay_run)

subsection \<open>The model of a call is what the executor and the agent do\<close>

lemma run_answers:
  assumes "omap_get (stubs ex) (address agent) = Some stub"
    and "rpc stub (call_metadata (ex_token ex)) (timeout_s t + ex_margin ex) (request_of_task t) = (gst, rep, secs)"
  shows "answers (fst gst) (run_on to_seconds zero rpc ex agent t)"
  unfolding answers_def run_on_status [where rpc = rpc, OF assms] by (auto split: reply_outcome.splits)

lemma admit_rejections: "fst (admit canon opts md req) = OK \<or> fst (admit canon opts md req) \<in> set rejections"
  using authenticate_code [of opts md]
  by (auto simp: admit_def Let_def rejections_def status_ok_def)

subsection \<open>The scheduler's part of a run is a run of the scheduler\<close>

fun sched_part :: "'d fleet_event \<Rightarrow> 'd event list" where
  "sched_part (Worker e) = [e]"
| "sched_part (Lost w res) = [Complete w res]"
| "sched_part (AtAgent s e) = []"
| "sched_part (Reject s w code) = []"

lemma fleet_projects:
  "run_of (fleet_step cfg reaches opts) f es f' \<Longrightarrow>
     run_of (sched_step cfg) (ctl f) (concat (map sched_part es)) (ctl f')"
proof (induction rule: run_of.induct)
  case (run_cons f e f' es f'')
  from run_cons.hyps(1) have "run_of (sched_step cfg) (ctl f) (sched_part e) (ctl f')"
    by cases (auto intro: run_of.intros)
  then show ?case using run_cons.IH by (auto intro: run_of_append)
qed simp

end
