(* ===== verification/Dtest_Fleet_Properties.thy ===== *)
theory Dtest_Fleet_Properties
  imports Dtest_Fleet "HOL-Library.Sublist"
begin

section \<open>No call of the fleet is refused for want of a slot\<close>

text \<open>
  The invariant that ties the workers of the scheduler to the calls on the agents, and what follows from it for the
  program \<open>dtest-ctl\<close>: given each agent once, it never meets the concurrency limit of an agent; given one twice, it does.
\<close>

subsection \<open>The invariant of the fleet\<close>

text \<open>
  An open call (on its way or running) belongs to a worker of an agent behind that server, and either that worker is
  still waiting for it or the agent is retired: then the worker makes no more calls. No call is being refused.
\<close>

definition open_call :: "call \<Rightarrow> bool" where
  "open_call k \<longleftrightarrow> k = Arrived \<or> k = Executing"

definition call_ok :: "config \<Rightarrow> (string \<Rightarrow> nat) \<Rightarrow> 'd sys \<Rightarrow> nat \<Rightarrow> nat \<Rightarrow> call \<Rightarrow> bool" where
  "call_ok cfg reaches c s w k \<longleftrightarrow>
     k \<noteq> Refusing \<and> k \<noteq> Returned RESOURCE_EXHAUSTED \<and>
     (open_call k \<longrightarrow> server_of cfg reaches (fst (threads c ! w)) = s \<and>
        (is_busy (snd (threads c ! w)) \<or> \<not> alive (shared c) ! fst (threads c ! w)))"

definition server_ok :: "config \<Rightarrow> (string \<Rightarrow> nat) \<Rightarrow> 'd sys \<Rightarrow> nat \<Rightarrow> slots_state \<Rightarrow> bool" where
  "server_ok cfg reaches c s sv \<longleftrightarrow>
     length (calls sv) = length (threads c) \<and> unat (running sv) = counted sv \<and>
     (\<forall>w < length (threads c). call_ok cfg reaches c s w (calls sv ! w))"

definition fleet_ok :: "config \<Rightarrow> (string \<Rightarrow> nat) \<Rightarrow> 'd fleet \<Rightarrow> bool" where
  "fleet_ok cfg reaches f \<longleftrightarrow> sys_ok cfg (ctl f) \<and> (\<forall>s. server_ok cfg reaches (ctl f) s (servers f s))"

text \<open>The deployment: every agent has its own process, which runs with at least the slots the scheduler counts on.\<close>

definition deployed :: "config \<Rightarrow> (string \<Rightarrow> nat) \<Rightarrow> (nat \<Rightarrow> agent_options) \<Rightarrow> bool" where
  "deployed cfg reaches opts \<longleftrightarrow>
     distinct (map (reaches \<circ> address) (agents cfg)) \<and>
     (\<forall>a < length (agents cfg). slots (agents cfg ! a) \<le> unat (op_slots (opts (server_of cfg reaches a))))"

subsubsection \<open>What a step of the scheduler does to the other workers\<close>

lemma resume_threads:
  assumes "w < length ths"
  shows "length (threads (resume cfg w a s ths)) = length ths"
    and "v < length ths \<Longrightarrow> v \<noteq> w \<Longrightarrow> fst (threads (resume cfg w a s ths) ! v) = fst (ths ! v) \<and>
           is_busy (snd (threads (resume cfg w a s ths) ! v)) = is_busy (snd (ths ! v))"
    and "fst (threads (resume cfg w a s ths) ! w) = a"
    and "alive (shared (resume cfg w a s ths)) = alive s"
  using assms
  by (rule_tac [!] loop_head_cases [of cfg a s])
    (auto simp: resume_def run_simps notify_all_nth is_busy_def split: pc.splits)

text \<open>A worker that is busy after its own step starts on an agent that is still in use.\<close>

lemma busy_alive:
  assumes "w < length ths" "is_busy (snd (threads (resume cfg w a s ths) ! w))"
  shows "alive s ! a"
proof -
  obtain t where "threads (resume cfg w a s ths) ! w = (a, Busy t)"
    using assms(2) resume_threads(3) [OF assms(1), where cfg = cfg and a = a and s = s]
    by (cases "threads (resume cfg w a s ths) ! w") (simp add: is_busy_def split: pc.splits)
  from resume_busy(4) [OF assms(1) this] show ?thesis .
qed

lemma worker_frame:
  assumes ok: "sys_ok cfg c" and step: "sched_step cfg c e c'"
  shows "length (threads c') = length (threads c)"
    and "v < length (threads c) \<Longrightarrow> fst (threads c' ! v) = fst (threads c ! v)"
    and "v < length (threads c) \<Longrightarrow> v \<noteq> worker_of e \<Longrightarrow> is_busy (snd (threads c' ! v)) = is_busy (snd (threads c ! v))"
    and "a < length (agents cfg) \<Longrightarrow> alive (shared c') ! a \<Longrightarrow> alive (shared c) ! a"
    and "worker_of e < length (threads c)"
    and "is_busy (snd (threads c' ! worker_of e)) \<Longrightarrow> alive (shared c') ! fst (threads c ! worker_of e)"
proof -
  have *: "length (threads c') = length (threads c) \<and>
      (\<forall>v < length (threads c). fst (threads c' ! v) = fst (threads c ! v) \<and>
        (v \<noteq> worker_of e \<longrightarrow> is_busy (snd (threads c' ! v)) = is_busy (snd (threads c ! v)))) \<and>
      (\<forall>a < length (agents cfg). alive (shared c') ! a \<longrightarrow> alive (shared c) ! a) \<and>
      worker_of e < length (threads c) \<and>
      (is_busy (snd (threads c' ! worker_of e)) \<longrightarrow> alive (shared c') ! fst (threads c ! worker_of e))"
    using step
  proof cases
    case (enter w a)
    show ?thesis
      using resume_threads [OF enter(3), where cfg = cfg and a = a and s = "shared c"]
        busy_alive [OF enter(3), where cfg = cfg and a = a and s = "shared c"] enter
      by (metis fst_conv worker_of.simps(1))
  next
    case (complete w a t res)
    let ?s = "complete cfg a t res (shared c)" and ?ths = "notify_all (threads c)"
    have w: "w < length ?ths" using complete by (simp add: run_simps)
    have t: "t < length (tasks cfg)" using sys_ok_holds(3) [OF ok complete(3)] complete(4) by (simp add: thread_ok_def)
    have al: "fewer_alive cfg (alive (shared c)) (alive ?s)" by (rule complete_frame(2) [OF sys_ok_holds(6) [OF ok] t])
    have "fst (?ths ! v) = fst (threads c ! v)" "is_busy (snd (?ths ! v)) = is_busy (snd (threads c ! v))"
      if "v < length (threads c)" for v
      using that by (auto simp: notify_all_nth is_busy_def)
    then have "fst (threads c' ! v) = fst (threads c ! v) \<and>
        (v \<noteq> w \<longrightarrow> is_busy (snd (threads c' ! v)) = is_busy (snd (threads c ! v)))" if "v < length (threads c)" for v
      using that resume_threads(2,3) [OF w, where cfg = cfg and a = a and s = ?s] complete(2,4)
      by (cases "v = w") (auto simp: run_simps)
    then show ?thesis
      using resume_threads(1,4) [OF w, where cfg = cfg and a = a and s = ?s] complete al
        busy_alive [OF w, where cfg = cfg and a = a and s = ?s]
      by (auto simp: run_simps fewer_alive_def)
  next
    case (spurious w a)
    then show ?thesis by (auto simp: nth_list_update is_busy_def)
  qed
  show "length (threads c') = length (threads c)"
    "v < length (threads c) \<Longrightarrow> fst (threads c' ! v) = fst (threads c ! v)"
    "v < length (threads c) \<Longrightarrow> v \<noteq> worker_of e \<Longrightarrow> is_busy (snd (threads c' ! v)) = is_busy (snd (threads c ! v))"
    "a < length (agents cfg) \<Longrightarrow> alive (shared c') ! a \<Longrightarrow> alive (shared c) ! a"
    "worker_of e < length (threads c)"
    "is_busy (snd (threads c' ! worker_of e)) \<Longrightarrow> alive (shared c') ! fst (threads c ! worker_of e)"
    using * by blast+
qed

lemma error_retires:
  assumes ok: "sys_ok cfg c" and step: "sched_step cfg c (Complete w res) c'" and res: "ar_status res = AgentError"
  shows "\<not> alive (shared c') ! fst (threads c ! w)"
  using step
proof cases
  case (complete a t)
  note h = sys_ok_holds [OF ok]
  have t: "t < length (tasks cfg)" "a < length (agents cfg)"
    using h(3) [OF complete(2)] complete(3) by (simp_all add: thread_ok_def)
  let ?s = "upd_task t (record_attempt cfg a res) (shared c)"
  have len: "length (st (?s\<lparr>alive := (alive ?s)[a := False], dead := dead ?s @ [address (agents cfg ! a)]\<rparr>)) = length (tasks cfg)"
    using h(6) by (simp add: run_simps)
  have "\<not> alive (retire cfg a ?s) ! a"
    using resolve_fields(1) [OF len] t h(7) by (simp add: retire_def run_simps)
  then show ?thesis
    using complete res resume_threads(4) [of w "notify_all (threads c)", where cfg = cfg and a = a and s = "complete cfg a t res (shared c)"]
    by (simp add: run_simps complete_def)
qed

subsubsection \<open>Steps of the workers\<close>

text \<open>
  A worker that leaves the executor, with an answer or by giving the call up, leaves no call it still waits for; neither
  does a worker that was not in the executor.
\<close>

definition settles :: "config \<Rightarrow> (string \<Rightarrow> nat) \<Rightarrow> 'd fleet \<Rightarrow> nat \<Rightarrow> 'd sys \<Rightarrow> bool" where
  "settles cfg reaches f w c \<longleftrightarrow>
     (\<forall>s. open_call (calls (servers f s) ! w) \<longrightarrow> \<not> alive (shared c) ! fst (threads (ctl f) ! w))"

lemma fleet_ok_holds:
  assumes "fleet_ok cfg reaches f"
  shows "sys_ok cfg (ctl f)" "length (calls (servers f s)) = length (threads (ctl f))"
    and "unat (running (servers f s)) = counted (servers f s)"
    and "w < length (threads (ctl f)) \<Longrightarrow> call_ok cfg reaches (ctl f) s w (calls (servers f s) ! w)"
  using assms by (auto simp: fleet_ok_def server_ok_def)

lemma agent_of_worker:
  assumes "sys_ok cfg c" "w < length (threads c)"
  shows "fst (threads c ! w) < length (agents cfg)"
  using owner_lt [OF sys_ok_holds(2) [OF assms(1)] assms(2)] .

lemma worker_settles:
  assumes ok: "fleet_ok cfg reaches f" and step: "sched_step cfg (ctl f) e c" and ans: "answered cfg reaches f e"
  shows "settles cfg reaches f (worker_of e) c"
proof -
  note sys = fleet_ok_holds(1) [OF ok]
  have w: "worker_of e < length (threads (ctl f))" by (rule worker_frame(5) [OF sys step])
  have idle: "\<not> is_busy (snd (threads (ctl f) ! worker_of e))" if "\<forall>w res. e \<noteq> Complete w res"
    using step that by cases (auto simp: is_busy_def)
  show ?thesis
  proof (unfold settles_def, intro allI impI)
    fix s
    assume o: "open_call (calls (servers f s) ! worker_of e)"
    have call: "call_ok cfg reaches (ctl f) s (worker_of e) (calls (servers f s) ! worker_of e)"
      by (rule fleet_ok_holds(4) [OF ok w])
    have "\<not> (\<exists>w res. e = Complete w res)"
    proof
      assume "\<exists>w res. e = Complete w res"
      then show False using ans o call by (auto simp: call_ok_def open_call_def split: call.splits)
    qed
    then have "\<not> alive (shared (ctl f)) ! fst (threads (ctl f) ! worker_of e)"
      using idle o call by (auto simp: call_ok_def)
    then show "\<not> alive (shared c) ! fst (threads (ctl f) ! worker_of e)"
      using worker_frame(4) [OF sys step agent_of_worker [OF sys w]] by blast
  qed
qed

lemma set_call_fields [run_simps]:
  "running (set_call w k s) = running s" "calls (set_call w k s) = (calls s)[w := k]"
  by (simp_all add: set_call_def)

lemma counted_set_call:
  assumes "w < length (calls s)" "\<not> in_call (calls s ! w)" "\<not> in_call k"
  shows "counted (set_call w k s) = counted s"
  using filter_length_change [OF assms(1), of in_call k] assms(2,3) by (simp add: counted_def run_simps)

lemma call_ok_worker:
  assumes ok: "fleet_ok cfg reaches f" and step: "sched_step cfg (ctl f) e c"
    and quiet: "settles cfg reaches f (worker_of e) c" and v: "v < length (threads (ctl f))"
  shows "call_ok cfg reaches c s v (calls (servers f s) ! v)"
proof -
  note sys = fleet_ok_holds(1) [OF ok] and frame = worker_frame [OF fleet_ok_holds(1) [OF ok] step]
  have "call_ok cfg reaches (ctl f) s v (calls (servers f s) ! v)" by (rule fleet_ok_holds(4) [OF ok v])
  moreover have "alive (shared c) ! fst (threads (ctl f) ! v) \<Longrightarrow> alive (shared (ctl f)) ! fst (threads (ctl f) ! v)"
    by (rule frame(4) [OF agent_of_worker [OF sys v]])
  ultimately show ?thesis
    using frame(2,3) [OF v] quiet by (auto simp: call_ok_def settles_def)
qed

lemma worker_ok:
  assumes ok: "fleet_ok cfg reaches f" and step: "sched_step cfg (ctl f) e c"
    and quiet: "settles cfg reaches f (worker_of e) c"
  shows "fleet_ok cfg reaches \<lparr>ctl = c, servers = send_call cfg reaches (worker_of e) c (servers f)\<rparr>"
proof -
  note sys = fleet_ok_holds(1) [OF ok] and frame = worker_frame [OF fleet_ok_holds(1) [OF ok] step]
  let ?w = "worker_of e"
  obtain a p where th: "threads c ! ?w = (a, p)" by (cases "threads c ! ?w")
  then have a: "a = fst (threads (ctl f) ! ?w)" using frame(2) [OF frame(5)] by simp
  have old: "server_ok cfg reaches c s (servers f s)" for s
    using fleet_ok_holds(2,3) [OF ok, of s] frame(1) call_ok_worker [OF assms]
    by (simp add: server_ok_def)
  have new: "server_ok cfg reaches c (server_of cfg reaches a) (set_call ?w Arrived (servers f (server_of cfg reaches a)))"
    if busy: "is_busy p"
  proof -
    let ?s = "server_of cfg reaches a"
    have "alive (shared c) ! a" using frame(6) th busy a by simp
    then have no: "\<not> open_call (calls (servers f ?s) ! ?w)" using quiet a by (auto simp: settles_def)
    moreover have "calls (servers f ?s) ! ?w \<noteq> Refusing" using fleet_ok_holds(4) [OF ok frame(5)] by (auto simp: call_ok_def)
    ultimately have "\<not> in_call (calls (servers f ?s) ! ?w)" by (auto simp: open_call_def in_call_def)
    moreover have "call_ok cfg reaches c ?s ?w Arrived" using th busy by (simp add: call_ok_def)
    ultimately show ?thesis
      using old [of ?s] frame(5) counted_set_call [of ?w "servers f ?s" Arrived] fleet_ok_holds(2) [OF ok, of ?s]
      by (auto simp: server_ok_def run_simps nth_list_update in_call_def)
  qed
  show ?thesis
    using sys_ok_step [OF sys step] old new th by (auto simp: fleet_ok_def send_call_def)
qed

subsubsection \<open>Steps of the agents\<close>

text \<open>The calls a server counts are made by the workers of one agent, so there are fewer than its slots when one more arrives.\<close>

lemma workers_of_agent:
  assumes "sys_ok cfg c" "a < length (agents cfg)"
  shows "card {v. v < length (threads c) \<and> fst (threads c ! v) = a} = slots (agents cfg ! a)"
proof -
  have "length (filter (\<lambda>b. b = a) (map fst (threads c))) = slots (agents cfg ! a)"
    using spawn_threads_count [OF assms(2)] sys_ok_holds(2) [OF assms(1)] by simp
  then show ?thesis by (simp only: length_filter_conv_card) (simp add: conj_commute cong: conj_cong)
qed

lemma server_has_room:
  assumes ok: "fleet_ok cfg reaches f" and dep: "deployed cfg reaches opts"
    and w: "w < length (threads (ctl f))" "calls (servers f s) ! w = Arrived"
  shows "running (servers f s) < op_slots (opts s)"
proof -
  note sys = fleet_ok_holds(1) [OF ok] and call = fleet_ok_holds(4) [OF ok]
  let ?a = "fst (threads (ctl f) ! w)" and ?k = "calls (servers f s)"
  have a: "?a < length (agents cfg)" by (rule agent_of_worker [OF sys w(1)])
  have s: "server_of cfg reaches ?a = s" using call [OF w(1), of s] w(2) by (auto simp: call_ok_def open_call_def)
  have same: "fst (threads (ctl f) ! v) = ?a" if v: "v < length (threads (ctl f))" "in_call (?k ! v)" for v
  proof -
    have "open_call (?k ! v)" using v(2) call [OF v(1), of s] by (auto simp: in_call_def call_ok_def open_call_def)
    then have "server_of cfg reaches (fst (threads (ctl f) ! v)) = s" using call [OF v(1), of s] by (simp add: call_ok_def)
    then show ?thesis
      using dep s a agent_of_worker [OF sys v(1)]
      by (simp add: deployed_def distinct_conv_nth server_of_def) metis
  qed
  have "counted (servers f s) = card {v. v < length ?k \<and> in_call (?k ! v)}"
    by (simp add: counted_def length_filter_conv_card)
  also have "\<dots> < card {v. v < length (threads (ctl f)) \<and> fst (threads (ctl f) ! v) = ?a}"
  proof (rule psubset_card_mono)
    have "w \<notin> {v. v < length ?k \<and> in_call (?k ! v)}" using w(2) by (simp add: in_call_def)
    then show "{v. v < length ?k \<and> in_call (?k ! v)} \<subset> {v. v < length (threads (ctl f)) \<and> fst (threads (ctl f) ! v) = ?a}"
      using same fleet_ok_holds(2) [OF ok, of s] w(1) by auto
  qed simp
  also have "\<dots> \<le> unat (op_slots (opts s))"
    using workers_of_agent [OF sys a] dep a s by (auto simp: deployed_def)
  finally show ?thesis using fleet_ok_holds(3) [OF ok, of s] by (simp add: word_less_nat_alt)
qed

lemma server_ok_update:
  assumes "server_ok cfg reaches c s sv" "w < length (calls sv)" "call_ok cfg reaches c s w k"
    and "unat r = counted \<lparr>running = r, calls = (calls sv)[w := k]\<rparr>"
  shows "server_ok cfg reaches c s \<lparr>running = r, calls = (calls sv)[w := k]\<rparr>"
  using assms by (auto simp: server_ok_def nth_list_update)

lemma call_ok_same:
  "call_ok cfg reaches c s w k \<Longrightarrow> open_call k \<Longrightarrow> open_call k' \<Longrightarrow> call_ok cfg reaches c s w k'"
  by (auto simp: call_ok_def open_call_def)

lemma call_ok_returned [simp]: "call_ok cfg reaches c s w (Returned code) \<longleftrightarrow> code \<noteq> RESOURCE_EXHAUSTED"
  by (simp add: call_ok_def open_call_def)

lemma server_step_ok:
  assumes ok: "fleet_ok cfg reaches f" and dep: "deployed cfg reaches opts" and step: "slot_step (opts s) (servers f s) e sv"
  shows "server_ok cfg reaches (ctl f) s sv"
proof -
  have sv: "server_ok cfg reaches (ctl f) s (servers f s)" using ok by (simp add: fleet_ok_def)
  note len = fleet_ok_holds(2) [OF ok, of s] and run = fleet_ok_holds(3) [OF ok, of s] and call = fleet_ok_holds(4) [OF ok, of _ s]
  from step show ?thesis
  proof cases
    case (claim w claimed r)
    have room: "running (servers f s) < op_slots (opts s)"
      using server_has_room [OF ok dep _ claim(4)] claim(3) len by simp
    then have c: "claimed" "r = running (servers f s) + 1" using claim(5) by (auto simp: claim_slot_def not_le)
    have "Suc (counted (servers f s)) < 2 ^ 32"
      using room run unsigned_less [of "op_slots (opts s)", where 'a = nat] by (simp add: word_less_nat_alt)
    then have "unat r = Suc (counted (servers f s))" using run c(2) by (simp add: unat_word_ariths)
    then have "unat r = counted \<lparr>running = r, calls = (calls (servers f s))[w := Executing]\<rparr>"
      using counts_after(1) [OF claim(3), of r Executing] claim(4) by (simp add: in_call_def)
    moreover have "call_ok cfg reaches (ctl f) s w Executing"
      using call_ok_same [OF call [of w], of Executing] claim(3,4) len by (simp add: open_call_def)
    ultimately show ?thesis using server_ok_update [OF sv claim(3)] claim(2) c(1) by simp
  next
    case (refuse w)
    then show ?thesis using call [of w] len by (simp add: call_ok_def)
  next
    case (finish w)
    have "unat (release_slot (running (servers f s))) = counted (servers f s) - 1"
      using counted_pos [OF finish(3)] finish(4) run by (intro unat_release) (auto simp: in_call_def)
    then have "unat (release_slot (running (servers f s))) =
        counted \<lparr>running = release_slot (running (servers f s)), calls = (calls (servers f s))[w := Returned OK]\<rparr>"
      using counts_after(1) [OF finish(3), of "release_slot (running (servers f s))" "Returned OK"] finish(4)
      by (simp add: in_call_def)
    then show ?thesis using server_ok_update [OF sv finish(3)] finish(2) by simp
  qed
qed

subsubsection \<open>Every reachable state\<close>

lemma fleet_ok_initial: "fleet_ok cfg reaches (initial_fleet cfg)"
  by (simp add: fleet_ok_def initial_fleet_def sys_ok_initial server_ok_def)
    (simp add: initial_sys_def counted_def in_call_def)

lemma fleet_ok_step:
  assumes ok: "fleet_ok cfg reaches f" and dep: "deployed cfg reaches opts" and step: "fleet_step cfg reaches opts f e f'"
  shows "fleet_ok cfg reaches f'"
  using step
proof cases
  case (worker e c)
  then show ?thesis using worker_ok [OF ok worker(3) worker_settles [OF ok worker(3,4)]] by simp
next
  case (lost w res c)
  have "settles cfg reaches f (worker_of (Complete w res)) c"
    using error_retires [OF fleet_ok_holds(1) [OF ok] lost(3,4)] by (simp add: settles_def)
  then show ?thesis using worker_ok [OF ok lost(3)] lost(2) by simp
next
  case (at_agent s e sv)
  then show ?thesis using ok server_step_ok [OF ok dep at_agent(3)] by (simp add: fleet_ok_def)
next
  case (reject w s code)
  have "set_call w (Returned code) (servers f s) =
      \<lparr>running = running (servers f s), calls = (calls (servers f s))[w := Returned code]\<rparr>"
    by (simp add: set_call_def)
  moreover have "counted (set_call w (Returned code) (servers f s)) = counted (servers f s)"
    using reject by (intro counted_set_call) (simp_all add: in_call_def)
  moreover have "code \<noteq> RESOURCE_EXHAUSTED" using reject(5) by (auto simp: rejections_def)
  ultimately have "server_ok cfg reaches (ctl f) s (set_call w (Returned code) (servers f s))"
    using server_ok_update [of cfg reaches "ctl f" s "servers f s" w "Returned code" "running (servers f s)"]
      ok fleet_ok_holds(3) [OF ok, of s] reject(3) by (simp add: fleet_ok_def)
  then show ?thesis using ok reject(2) by (simp add: fleet_ok_def)
qed

interpretation fleet: transition_system "\<lambda>f. f = initial_fleet cfg" "fleet_step cfg reaches opts"
    "\<lambda>f. deployed cfg reaches opts \<longrightarrow> fleet_ok cfg reaches f" for cfg reaches opts
  by unfold_locales (auto simp: fleet_ok_initial intro: fleet_ok_step)

subsection \<open>Controllers that connect to each agent once\<close>

text \<open>\<open>GetInfo\<close> as the transport delivers it: an agent that answers has answered with \<open>get_info\<close>.\<close>

definition announces ::
  "(string \<Rightarrow> 's \<times> (metadata \<Rightarrow> grpc_status \<times> info_reply)) \<Rightarrow> (string \<Rightarrow> nat) \<Rightarrow> (nat \<Rightarrow> agent_options) \<Rightarrow> bool" where
  "announces net reaches opts \<longleftrightarrow>
     (\<forall>addr md. fst (fst (snd (net addr) md)) = OK \<longrightarrow>
        (\<exists>cpus. get_info (opts (reaches addr)) cpus md = (status_ok, Some (snd (snd (net addr) md)))))"

lemma connect_info:
  assumes "connect (fst (net addr)) (snd (net addr)) addr ex = Inr (ex', info)" "announces net reaches opts"
    and "op_slots (opts (reaches addr)) \<noteq> 0"
  shows "address info = addr" "slots info = unat (op_slots (opts (reaches addr)))"
proof -
  let ?md = "call_metadata (ex_token ex)"
  obtain gst i where r: "snd (net addr) ?md = (gst, i)" by fastforce
  with assms(1) have c: "fst gst = OK" "address info = addr" "slots info = (if in_slots i \<noteq> 0 then unat (in_slots i) else 1)"
    by (auto simp: connect_def split: if_splits)
  then obtain cpus where "get_info (opts (reaches addr)) cpus ?md = (status_ok, Some i)"
    using assms(2) r unfolding announces_def by (metis fst_conv snd_conv)
  then have "in_slots i = op_slots (opts (reaches addr))"
    by (auto simp: get_info_def Let_def split: if_splits)
  then show "address info = addr" "slots info = unat (op_slots (opts (reaches addr)))"
    using c assms(3) by auto
qed

lemma connect_all_live:
  assumes "connect_all net addrs ex = (ex', live)" "announces net reaches opts" "\<forall>s. op_slots (opts s) \<noteq> 0"
  shows "subseq (map address live) addrs \<and> (\<forall>i \<in> set live. slots i = unat (op_slots (opts (reaches (address i)))))"
  using assms
proof (induction net addrs ex arbitrary: ex' live rule: connect_all.induct)
  case (2 net addr rest ex)
  show ?case
  proof (cases "connect (fst (net addr)) (snd (net addr)) addr ex")
    case (Inl err)
    then show ?thesis using 2 by (auto intro: list_emb_Cons)
  next
    case (Inr r)
    obtain ex1 info where r: "r = (ex1, info)" by fastforce
    obtain ex2 live2 where all: "connect_all net rest ex1 = (ex2, live2)" by fastforce
    have "live = info # live2" using 2(3) Inr r all by simp
    moreover have "subseq (map address live2) rest \<and> (\<forall>i \<in> set live2. slots i = unat (op_slots (opts (reaches (address i)))))"
      by (rule 2(2) [OF Inr r [symmetric] all 2(4,5)])
    ultimately show ?thesis
      using connect_info [OF Inr [unfolded r] 2(4)] 2(5) by auto
  qed
qed simp

lemma normalize_positive: "list_all (\<lambda>a. slots a \<noteq> 0) live \<Longrightarrow> normalize_agents live = live"
  by (auto simp: normalize_agents_def list_all_iff intro: map_idI)

lemma connected_deployed:
  assumes "connect_all net addrs ex = (ex', live)" "announces net reaches opts" "\<forall>s. op_slots (opts s) \<noteq> 0"
    and "distinct (map reaches addrs)"
  shows "deployed (make_config live ts) reaches opts"
proof -
  note live = connect_all_live [OF assms(1-3)]
  have "slots i \<noteq> 0" if "i \<in> set live" for i using live that assms(3) by (simp add: unat_eq_zero)
  then have n: "normalize_agents live = live" by (intro normalize_positive) (simp add: list_all_iff)
  have "subseq (map (reaches \<circ> address) live) (map reaches addrs)"
    using subseq_map [OF conjunct1 [OF live], of reaches] by simp
  then have "distinct (map (reaches \<circ> address) live)" using assms(4) by (auto simp: subseq_conv_nths intro: distinct_nthsI)
  then show ?thesis using live by (simp add: deployed_def make_config_def n server_of_def)
qed

text \<open>
  Property C20. Scheduler and agents together: when the controller connects to each agent process once and every agent
  answers \<open>GetInfo\<close> with its own options, no call of the run is refused for want of a slot, whatever the workers, the
  agents and the transport do and in whatever order: every call that arrives is run, calls that the controller has given up
  while the agent still runs them included. What the scheduler does in such a run is a run of the scheduler alone, so all its
  properties hold.
\<close>

theorem fleet_never_refused:
  assumes "connect_all net addrs ex = (ex', live)" "announces net reaches opts" "\<forall>s. op_slots (opts s) \<noteq> 0"
    and "distinct (map reaches addrs)" "cfg = make_config live ts"
    and "run_of (fleet_step cfg reaches opts) (initial_fleet cfg) es f"
  shows "Refusing \<notin> set (calls (servers f s)) \<and> Returned RESOURCE_EXHAUSTED \<notin> set (calls (servers f s)) \<and>
    (\<forall>w sv. slot_step (opts s) (servers f s) (Claim w) sv \<longrightarrow> calls sv ! w = Executing) \<and>
    run_of (sched_step cfg) (initial_sys cfg) (concat (map sched_part es)) (ctl f)"
proof -
  have dep: "deployed cfg reaches opts" using connected_deployed [OF assms(1-4)] assms(5) by simp
  have ok: "fleet_ok cfg reaches f" using fleet.inv_reached [OF refl assms(6)] dep by blast
  have "k \<noteq> Refusing \<and> k \<noteq> Returned RESOURCE_EXHAUSTED" if k: "k \<in> set (calls (servers f s))" for k
    using k fleet_ok_holds(2) [OF ok, of s] fleet_ok_holds(4) [OF ok, of _ s] by (auto simp: in_set_conv_nth call_ok_def)
  moreover have "calls sv ! w = Executing" if step: "slot_step (opts s) (servers f s) (Claim w) sv" for w sv
    using step
  proof cases
    case (claim claimed r)
    have "running (servers f s) < op_slots (opts s)"
      using server_has_room [OF ok dep _ claim(3)] claim(2) fleet_ok_holds(2) [OF ok, of s] by simp
    then show ?thesis using claim by (auto simp: claim_slot_def not_le)
  qed
  ultimately show ?thesis using fleet_projects [OF assms(6)] by (auto simp: initial_fleet_def)
qed

definition pair_reaches :: "string \<Rightarrow> nat" where
  "pair_reaches addr = (if addr = ''a:7001'' then 0 else 1)"

definition pair_opts :: "nat \<Rightarrow> agent_options" where
  "pair_opts s = demo_options\<lparr>op_token := [], op_slots := (if s = 0 then 1 else 2)\<rparr>"

definition pair_net :: "string \<Rightarrow> nat \<times> (metadata \<Rightarrow> grpc_status \<times> info_reply)" where
  "pair_net addr = (7, \<lambda>md. (status_ok, the (snd (get_info (pair_opts (pair_reaches addr)) 4 md))))"

definition pair_live :: "agent_info list" where
  "pair_live = snd (connect_all pair_net [''a:7001'', ''b:7001''] (make_executor [] 15))"

definition pair_cfg :: config where
  "pair_cfg = make_config pair_live [demo_task ''t'' 0 [], demo_task ''u'' 0 []]"

definition pair_events :: "nat fleet_event list" where
  "pair_events = [Worker (Enter 0), Worker (Enter 2), AtAgent 0 (Claim 0), AtAgent 1 (Claim 2), AtAgent 0 (GiveBack 0),
     Worker (Complete 0 (demo_result APassed)), Lost 2 (demo_result AgentError)]"

theorem fleet_never_refused_witness:
  "Refusing \<notin> set (calls (servers (the (fleet_replay pair_cfg pair_reaches pair_opts (initial_fleet pair_cfg) pair_events)) 1))"
proof -
  have c: "connect_all pair_net [''a:7001'', ''b:7001''] (make_executor [] 15) =
      (fst (connect_all pair_net [''a:7001'', ''b:7001''] (make_executor [] 15)), pair_live)"
    by (simp add: pair_live_def)
  have a: "announces pair_net pair_reaches pair_opts"
    by (auto simp: announces_def pair_net_def get_info_def authenticate_def pair_opts_def demo_options_def Let_def status_ok_def)
  have o: "\<forall>s. op_slots (pair_opts s) \<noteq> 0" by (simp add: pair_opts_def)
  have d: "distinct (map pair_reaches [''a:7001'', ''b:7001''])" by (simp add: pair_reaches_def)
  have r: "run_of (fleet_step pair_cfg pair_reaches pair_opts) (initial_fleet pair_cfg) pair_events
      (the (fleet_replay pair_cfg pair_reaches pair_opts (initial_fleet pair_cfg) pair_events))"
    by (rule fleet_replay_the) code_simp
  from fleet_never_refused [OF c a o d pair_cfg_def r] show ?thesis by blast
qed

subsection \<open>A controller that is given the same agent twice\<close>

text \<open>
  \<open>dtest-ctl\<close> does not look for duplicates among its \<open>--agent\<close> options: each becomes an agent of the
  scheduler with all the slots of the process behind it.
\<close>

definition twice_reaches :: "string \<Rightarrow> nat" where
  "twice_reaches addr = 0"

definition twice_args :: "string list" where
  "twice_args = [''--jobs'', ''j'', ''--agent'', ''a:7001'', ''--agent'', ''a:7001'']"

definition twice_live :: "agent_info list" where
  "twice_live = snd (connect_all pair_net [''a:7001'', ''a:7001''] (make_executor [] 15))"

definition twice_cfg :: config where
  "twice_cfg = make_config twice_live [demo_task ''t'' 0 [], demo_task ''u'' 0 []]"

definition twice_events :: "nat fleet_event list" where
  "twice_events = [Worker (Enter 0), Worker (Enter 1), AtAgent 0 (Claim 0), AtAgent 0 (Claim 1), AtAgent 0 (GiveBack 1),
     Worker (Complete 1 (demo_result AFailed))]"

definition twice_end :: "nat fleet" where
  "twice_end = the (fleet_replay twice_cfg twice_reaches pair_opts (initial_fleet twice_cfg) twice_events)"

text \<open>
  The agent's address given twice: both entries are connected, the second worker's call is refused while the
  first one runs, and the task, which no agent has run, is reported as failed: its one attempt was spent on the refusal.
\<close>

theorem same_agent_twice_fails_unrun_task:
  "(\<exists>ops. ctl_args ''dtest-ctl'' (ctl_defaults None) twice_args = Inr ops \<and> map address twice_live = co_agents ops) \<and>
   run_of (fleet_step twice_cfg twice_reaches pair_opts) (initial_fleet twice_cfg) twice_events twice_end \<and>
   calls (servers twice_end 0) = [Executing, Returned RESOURCE_EXHAUSTED] \<and>
   ts_final (st (shared (ctl twice_end)) ! 1) = FFailed \<and> length (ts_attempts (st (shared (ctl twice_end)) ! 1)) = 1"
proof (intro conjI)
  show "run_of (fleet_step twice_cfg twice_reaches pair_opts) (initial_fleet twice_cfg) twice_events twice_end"
    unfolding twice_end_def by (rule fleet_replay_the) code_simp
  show "\<exists>ops. ctl_args ''dtest-ctl'' (ctl_defaults None) twice_args = Inr ops \<and> map address twice_live = co_agents ops"
    by (intro exI [of _ "projr (ctl_args ''dtest-ctl'' (ctl_defaults None) twice_args)"]) code_simp
  show "calls (servers twice_end 0) = [Executing, Returned RESOURCE_EXHAUSTED]" by code_simp
  show "ts_final (st (shared (ctl twice_end)) ! 1) = FFailed" by code_simp
  show "length (ts_attempts (st (shared (ctl twice_end)) ! 1)) = 1" by code_simp
qed

end
