(* ===== verification/Dtest_Fleet_Termination.thy ===== *)
theory Dtest_Fleet_Termination
  imports Dtest_Fleet_Properties
begin

section \<open>Runs of the fleet end\<close>

text \<open>
  A potential for the whole fleet: what the calls that are under way still cost their agents. Together with the bound on
  the scheduler's own steps it bounds every run; and a run that cannot go on has no worker in the executor and no call
  under way. This holds for every deployment, agents shared by several entries included.
\<close>

definition call_weight :: "call \<Rightarrow> nat" where
  "call_weight k = (case k of Arrived \<Rightarrow> 2 | Refusing \<Rightarrow> 1 | Executing \<Rightarrow> 1 | Returned code \<Rightarrow> 0)"

definition home :: "config \<Rightarrow> (string \<Rightarrow> nat) \<Rightarrow> 'd sys \<Rightarrow> nat \<Rightarrow> nat" where
  "home cfg reaches c w = server_of cfg reaches (fst (threads c ! w))"

definition calls_home :: "config \<Rightarrow> (string \<Rightarrow> nat) \<Rightarrow> 'd fleet \<Rightarrow> bool" where
  "calls_home cfg reaches f \<longleftrightarrow>
     sys_ok cfg (ctl f) \<and>
     (\<forall>s. length (calls (servers f s)) = length (threads (ctl f)) \<and>
        (\<forall>w < length (threads (ctl f)). call_weight (calls (servers f s) ! w) \<noteq> 0 \<longrightarrow> home cfg reaches (ctl f) w = s))"

definition calls_open :: "config \<Rightarrow> (string \<Rightarrow> nat) \<Rightarrow> 'd fleet \<Rightarrow> nat" where
  "calls_open cfg reaches f =
     (\<Sum>w < length (threads (ctl f)). call_weight (calls (servers f (home cfg reaches (ctl f) w)) ! w))"

fun fleet_gain :: "'d fleet_event \<Rightarrow> nat" where
  "fleet_gain (Worker e) = 3"
| "fleet_gain (Lost w res) = 3"
| "fleet_gain (AtAgent s e) = 0"
| "fleet_gain (Reject s w code) = 0"

lemma call_weight_simps [simp]:
  "call_weight Arrived = 2" "call_weight Refusing = 1" "call_weight Executing = 1" "call_weight (Returned code) = 0"
  by (simp_all add: call_weight_def)

lemma calls_homeD:
  assumes "calls_home cfg reaches f"
  shows "sys_ok cfg (ctl f)" "length (calls (servers f s)) = length (threads (ctl f))"
    and "w < length (threads (ctl f)) \<Longrightarrow> call_weight (calls (servers f s) ! w) \<noteq> 0 \<Longrightarrow> home cfg reaches (ctl f) w = s"
  using assms by (auto simp: calls_home_def)

lemma sum_change:
  fixes g h :: "nat \<Rightarrow> nat"
  assumes "w < n" "\<And>v. v < n \<Longrightarrow> v \<noteq> w \<Longrightarrow> g v = h v"
  shows "(\<Sum>v < n. g v) + h w = (\<Sum>v < n. h v) + g w"
proof -
  have "(\<Sum>v < n. g v) = g w + (\<Sum>v \<in> {..< n} - {w}. g v)" "(\<Sum>v < n. h v) = h w + (\<Sum>v \<in> {..< n} - {w}. h v)"
    using assms(1) by (simp_all add: sum.remove)
  moreover have "(\<Sum>v \<in> {..< n} - {w}. g v) = (\<Sum>v \<in> {..< n} - {w}. h v)"
    using assms(2) by (intro sum.cong) auto
  ultimately show ?thesis by simp
qed

text \<open>One entry of the calls of a server changes.\<close>

lemma entry_changes:
  assumes ok: "calls_home cfg reaches f" and w: "w < length (threads (ctl f))" "home cfg reaches (ctl f) w = s"
    and calls: "calls sv = (calls (servers f s))[w := k]"
  shows "calls_home cfg reaches (f\<lparr>servers := (servers f)(s := sv)\<rparr>)"
    and "calls_open cfg reaches (f\<lparr>servers := (servers f)(s := sv)\<rparr>) + call_weight (calls (servers f s) ! w) =
      calls_open cfg reaches f + call_weight k"
proof -
  note h = calls_homeD [OF ok]
  let ?f = "f\<lparr>servers := (servers f)(s := sv)\<rparr>"
  have k: "calls (servers ?f u) ! v = (if u = s \<and> v = w then k else calls (servers f u) ! v)"
    if "v < length (threads (ctl f))" for u v
    using that w calls h(2) by (auto simp: nth_list_update)
  have "call_weight (calls (servers ?f u) ! v) \<noteq> 0 \<longrightarrow> home cfg reaches (ctl f) v = u" if "v < length (threads (ctl f))" for u v
    using k [OF that, of u] h(3) [OF that, of u] w(2) by auto
  then show "calls_home cfg reaches ?f"
    using h(1,2) calls unfolding calls_home_def by simp
  let ?g = "\<lambda>v. call_weight (calls (servers ?f (home cfg reaches (ctl f) v)) ! v)"
  have "(\<Sum>v < length (threads (ctl f)). ?g v) + call_weight (calls (servers f (home cfg reaches (ctl f) w)) ! w) =
      (\<Sum>v < length (threads (ctl f)). call_weight (calls (servers f (home cfg reaches (ctl f) v)) ! v)) + ?g w"
    using w(1) k by (intro sum_change) auto
  then show "calls_open cfg reaches ?f + call_weight (calls (servers f s) ! w) = calls_open cfg reaches f + call_weight k"
    using k [OF w(1), of s] w by (simp add: calls_open_def)
qed

text \<open>A step of the scheduler leaves the calls alone; then the worker may send one.\<close>

lemma worker_moves:
  assumes ok: "calls_home cfg reaches f" and step: "sched_step cfg (ctl f) e c"
  shows "calls_home cfg reaches \<lparr>ctl = c, servers = send_call cfg reaches (worker_of e) c (servers f)\<rparr>"
    and "calls_open cfg reaches \<lparr>ctl = c, servers = send_call cfg reaches (worker_of e) c (servers f)\<rparr> \<le> calls_open cfg reaches f + 2"
proof -
  note h = calls_homeD [OF ok] and frame = worker_frame [OF calls_homeD(1) [OF ok] step]
  let ?w = "worker_of e" and ?f = "f\<lparr>ctl := c\<rparr>"
  have own: "home cfg reaches c v = home cfg reaches (ctl f) v" if "v < length (threads c)" for v
    using frame(1,2) that by (simp add: home_def)
  have ok': "calls_home cfg reaches ?f"
    using h sys_ok_step [OF h(1) step] frame(1) own by (auto simp: calls_home_def)
  have same: "calls_open cfg reaches ?f = calls_open cfg reaches f"
    using own frame(1) by (auto simp: calls_open_def intro: sum.cong)
  obtain a p where th: "threads c ! ?w = (a, p)" by fastforce
  let ?s = "server_of cfg reaches a"
  have w: "?w < length (threads (ctl ?f))" "home cfg reaches (ctl ?f) ?w = ?s" using frame(1,5) th by (simp_all add: home_def)
  have sent: "\<lparr>ctl = c, servers = send_call cfg reaches ?w c (servers f)\<rparr> =
      (if is_busy p then ?f\<lparr>servers := (servers ?f)(?s := set_call ?w Arrived (servers ?f ?s))\<rparr> else ?f)"
    using th by (cases f) (simp add: send_call_def)
  note chg = entry_changes [OF ok' w, of "set_call ?w Arrived (servers ?f ?s)" Arrived, unfolded run_simps, OF refl]
  show "calls_home cfg reaches \<lparr>ctl = c, servers = send_call cfg reaches ?w c (servers f)\<rparr>"
    unfolding sent using chg(1) ok' by simp
  show "calls_open cfg reaches \<lparr>ctl = c, servers = send_call cfg reaches ?w c (servers f)\<rparr> \<le> calls_open cfg reaches f + 2"
    unfolding sent using chg(2) same by (simp split: if_split)
qed


text \<open>The agent's and the transport's steps move one call forward.\<close>

lemma slot_step_calls:
  assumes "slot_step opts sv e sv'"
  obtains w k where "w < length (calls sv)" "calls sv' = (calls sv)[w := k]" "Suc (call_weight k) \<le> call_weight (calls sv ! w)"
  using assms by cases (auto split: if_splits)

lemma call_moves:
  assumes ok: "calls_home cfg reaches f" and w: "w < length (calls (servers f s))"
    and calls: "calls sv = (calls (servers f s))[w := k]" and less: "Suc (call_weight k) \<le> call_weight (calls (servers f s) ! w)"
  shows "calls_home cfg reaches (f\<lparr>servers := (servers f)(s := sv)\<rparr>)"
    and "Suc (calls_open cfg reaches (f\<lparr>servers := (servers f)(s := sv)\<rparr>)) \<le> calls_open cfg reaches f"
proof -
  have v: "w < length (threads (ctl f))" using w calls_homeD(2) [OF ok] by simp
  then have "home cfg reaches (ctl f) w = s" using calls_homeD(3) [OF ok] less by simp
  note chg = entry_changes [OF ok v this calls]
  show "calls_home cfg reaches (f\<lparr>servers := (servers f)(s := sv)\<rparr>)" by (rule chg(1))
  show "Suc (calls_open cfg reaches (f\<lparr>servers := (servers f)(s := sv)\<rparr>)) \<le> calls_open cfg reaches f"
    using chg(2) less by simp
qed

lemma fleet_moves:
  assumes ok: "calls_home cfg reaches f" and step: "fleet_step cfg reaches opts f e f'"
  shows "calls_home cfg reaches f' \<and> Suc (calls_open cfg reaches f') \<le> calls_open cfg reaches f + fleet_gain e"
  using step
proof cases
  case (worker e c)
  then show ?thesis using worker_moves [OF ok worker(3)] by simp
next
  case (lost w res c)
  then show ?thesis using worker_moves [OF ok lost(3)] by simp
next
  case (at_agent s e sv)
  obtain w k where "w < length (calls (servers f s))" "calls sv = (calls (servers f s))[w := k]"
      "Suc (call_weight k) \<le> call_weight (calls (servers f s) ! w)"
    using slot_step_calls [OF at_agent(3)] .
  then show ?thesis using call_moves [OF ok] at_agent by simp
next
  case (reject w s code)
  then show ?thesis using call_moves [OF ok reject(3), of "set_call w (Returned code) (servers f s)" "Returned code"]
    by (simp add: set_call_def)
qed

lemma calls_home_initial: "calls_home cfg reaches (initial_fleet cfg)"
  by (simp add: calls_home_def initial_fleet_def sys_ok_initial) (simp add: initial_sys_def)

lemma calls_open_initial: "calls_open cfg reaches (initial_fleet cfg) = 0"
  by (simp add: calls_open_def initial_fleet_def) (simp add: initial_sys_def)

interpretation open_calls: measured_system "\<lambda>f. f = initial_fleet cfg" "fleet_step cfg reaches opts" "calls_home cfg reaches"
    "calls_open cfg reaches" fleet_gain for cfg reaches opts
  by unfold_locales (auto simp: calls_home_initial dest: fleet_moves)

lemma sum_fleet_gain: "sum_list (map fleet_gain es) = 3 * length (concat (map sched_part es))"
proof (induction es)
  case (Cons e es)
  then show ?case by (cases e) simp_all
qed simp

subsection \<open>A fleet that cannot go on\<close>

text \<open>Spurious wakeups and broken connections happen or do not happen: a run may not rely on them to go on.\<close>

fun by_chance :: "'d fleet_event \<Rightarrow> bool" where
  "by_chance (Worker e) = is_spurious e"
| "by_chance (Lost w res) = True"
| "by_chance (AtAgent s e) = False"
| "by_chance (Reject s w code) = False"

definition settled :: "config \<Rightarrow> (string \<Rightarrow> nat) \<Rightarrow> (nat \<Rightarrow> agent_options) \<Rightarrow> 'd fleet \<Rightarrow> bool" where
  "settled cfg reaches opts f \<longleftrightarrow> (\<forall>e f'. fleet_step cfg reaches opts f e f' \<longrightarrow> by_chance e)"

lemma settledD: "settled cfg reaches opts f \<Longrightarrow> fleet_step cfg reaches opts f e f' \<Longrightarrow> by_chance e"
  by (auto simp: settled_def)

text \<open>A call under way can always be moved on by its agent.\<close>

lemma open_call_moves:
  assumes "w < length (calls sv)" "call_weight (calls sv ! w) \<noteq> 0"
  shows "\<exists>e sv'. slot_step opts sv e sv'"
proof (cases "calls sv ! w")
  case Arrived
  obtain claimed r where "claim_slot opts (running sv) = (claimed, r)" by fastforce
  then show ?thesis using slot_step.claim [OF assms(1) Arrived] by blast
next
  case Refusing
  then show ?thesis using slot_step.refuse [OF assms(1)] by blast
next
  case Executing
  then show ?thesis using slot_step.finish [OF assms(1)] by blast
qed (use assms in simp)

lemma settled_calls:
  assumes "settled cfg reaches opts f" "w < length (calls (servers f s))"
  shows "call_weight (calls (servers f s) ! w) = 0"
proof (rule ccontr)
  assume "call_weight (calls (servers f s) ! w) \<noteq> 0"
  then obtain e sv where "slot_step (opts s) (servers f s) e sv" using open_call_moves [OF assms(2)] by blast
  then have "by_chance (AtAgent s e :: 'a fleet_event)"
    using settledD [OF assms(1) fleet_step.at_agent] by blast
  then show False by simp
qed

text \<open>Whatever code an agent returns, the executor has an answer for the worker.\<close>

lemma some_answer: "\<exists>res :: 'd attempt_result. answers code res"
  by (rule exI [of _ "undefined\<lparr>ar_status := if code = OK then APassed else if infrastructure_error code then AgentError else AFailed\<rparr>"])
    (simp add: answers_def)

lemma settled_quiet:
  fixes f :: "'d fleet"
  assumes ok: "calls_home cfg reaches f" and settled: "settled cfg reaches opts f"
  shows "\<not> active (ctl f)"
proof
  assume "active (ctl f)"
  then obtain w where w: "w < length (threads (ctl f))" "snd (threads (ctl f) ! w) \<noteq> Waiting" "snd (threads (ctl f) ! w) \<noteq> Exited"
    by (auto simp: active_def list_ex_iff in_set_conv_nth)
  obtain a p where th: "threads (ctl f) ! w = (a, p)" by fastforce
  show False
  proof (cases p)
    case Ready
    then have "by_chance (Worker (Enter w) :: 'd fleet_event)"
      using settledD [OF settled fleet_step.worker] sched_step.enter [OF w(1)] th by (metis answered.simps(2))
    then show False by simp
  next
    case (Busy t)
    let ?s = "server_of cfg reaches a"
    have "call_weight (calls (servers f ?s) ! w) = 0"
      using settled_calls [OF settled, of w ?s] calls_homeD(2) [OF ok] w(1) by simp
    then obtain code where code: "calls (servers f ?s) ! w = Returned code"
      by (cases "calls (servers f ?s) ! w") auto
    obtain res :: "'d attempt_result" where "answers code res" using some_answer by blast
    then have "answered cfg reaches f (Complete w res)" using th code by simp
    then have "by_chance (Worker (Complete w res))"
      using settledD [OF settled fleet_step.worker] sched_step.complete [OF w(1)] th Busy by metis
    then show False by simp
  qed (use w th in auto)
qed

text \<open>
  Property C21. Every run of the scheduler together with its agents ends: it has at most three steps for each step of the
  scheduler, whose number depends on the tasks, their retries, the slots and the spurious wakeups only. When no worker and no
  agent can go on, no call is under way, no worker is in the executor, and when no task is an orphan every
  task is decided and \<open>Scheduler::run\<close> returns its summary. Agents that are listed twice are included.
\<close>

theorem fleet_runs_end:
  fixes f :: "'d fleet"
  assumes "run_of (fleet_step cfg reaches opts) (initial_fleet cfg) es f"
  shows "length es \<le> 3 * (2 * length (filter is_spurious (concat (map sched_part es)))
      + (retry_budget cfg + total_slots cfg) * Suc (total_slots cfg) + total_slots cfg) \<and>
    (settled cfg reaches opts f \<longrightarrow>
      (\<forall>s. list_all (\<lambda>k. call_weight k = 0) (calls (servers f s))) \<and>
      \<not> list_ex (\<lambda>th. snd th = Ready \<or> is_busy (snd th)) (threads (ctl f)) \<and>
      (slots_pos cfg \<and> no_orphans cfg (shared (ctl f)) \<longrightarrow> list_all ts_done (st (shared (ctl f))) \<and>
        scheduler_run cfg (concat (map sched_part es)) secs = Some (summarize cfg secs (shared (ctl f)))))"
proof (intro conjI impI allI)
  have ok: "calls_home cfg reaches f" by (rule open_calls.inv_reached [OF refl assms])
  note okc = calls_homeD(1) [OF ok]
  have run: "run_of (sched_step cfg) (initial_sys cfg) (concat (map sched_part es)) (ctl f)"
    using fleet_projects [OF assms] by (simp add: initial_fleet_def)
  show "length es \<le> 3 * (2 * length (filter is_spurious (concat (map sched_part es)))
      + (retry_budget cfg + total_slots cfg) * Suc (total_slots cfg) + total_slots cfg)"
    by (rule order_trans [OF open_calls.run_length_bound [OF refl assms, unfolded calls_open_initial sum_fleet_gain add_0]
          mult_le_mono2 [OF run_length_bounded [OF run]]])
  assume s: "settled cfg reaches opts f"
  have quiet: "\<not> active (ctl f)" by (rule settled_quiet [OF ok s])
  then show "\<not> list_ex (\<lambda>th. snd th = Ready \<or> is_busy (snd th)) (threads (ctl f))"
    by (auto simp: active_def list_ex_iff is_busy_def)
  show "list_all (\<lambda>k. call_weight k = 0) (calls (servers f u))" for u
    using settled_calls [OF s] by (simp add: list_all_length)
  assume no: "slots_pos cfg \<and> no_orphans cfg (shared (ctl f))"
  then have "all_exited (ctl f)" using quiet_exited [OF okc quiet] by blast
  then show "scheduler_run cfg (concat (map sched_part es)) secs = Some (summarize cfg secs (shared (ctl f)))"
    unfolding scheduler_run_Some using run by (intro exI [of _ "ctl f"]) simp
  have "ts_done (st (shared (ctl f)) ! t)" if "t < length (tasks cfg)" for t
    using quiet_done [OF okc quiet] no that by (auto simp: no_orphans_def)
  then show "list_all ts_done (st (shared (ctl f)))"
    using sys_ok_holds(1) [OF okc] by (auto simp: list_all_length run_ok_def count_ok_def)
qed

theorem fleet_runs_end_witness:
  "length pair_events \<le> 3 * (2 * length (filter is_spurious (concat (map sched_part pair_events)))
      + (retry_budget pair_cfg + total_slots pair_cfg) * Suc (total_slots pair_cfg) + total_slots pair_cfg)"
proof -
  have r: "run_of (fleet_step pair_cfg pair_reaches pair_opts) (initial_fleet pair_cfg) pair_events
      (the (fleet_replay pair_cfg pair_reaches pair_opts (initial_fleet pair_cfg) pair_events))"
    by (rule fleet_replay_the) code_simp
  from fleet_runs_end [OF r] show ?thesis by blast
qed

end
