(* ===== verification/Agent_Program.thy ===== *)
theory Agent_Program
  imports Agent Command_Line
begin

section \<open>The program dtest-agent (dtest/agent_main.cpp)\<close>

text \<open>
  Command line, the refusals to start, the server's start and end, with everything that is printed. \<open>Inl (n, e)\<close> is an
  early \<open>return n\<close> with \<open>e\<close> on the standard error. What the gRPC library answers to the attempt to listen, and when a
  signal arrives, are arguments.
\<close>

subsection \<open>Command line\<close>

definition agent_option_lines :: "string list" where
  "agent_option_lines =
     [''  --listen ADDR      address to bind (default 127.0.0.1:7001; use :0 for any free port)'',
      ''  --token TOKEN      shared secret the controller must present (or set DTEST_TOKEN)'',
      ''  --no-auth          run without authentication (only for local experiments)'',
      ''  --allow PATH       allow one program (absolute path) or a directory (trailing '' @ sq ''/'' @ ''); repeatable'',
      ''  --allow-any        allow any command (dangerous; only for throwaway environments)'',
      ''  --slots N          concurrent tasks (default: number of CPUs)'',
      ''  --label K=V        extra capability label; repeatable (os, arch and kvm are detected)'',
      ''  -h, --help         show this help'']"

definition agent_usage :: "string \<Rightarrow> string" where
  "agent_usage prog =
     ''Usage: '' @ prog @ '' [options]'' @ nl @ nl @
     ''Runs commands for a dtest controller. Because that is remote code execution by design, the'' @ nl @
     ''agent refuses to start without BOTH an authentication choice and a command policy.'' @ nl @ nl @
     ''Options:'' @ nl @ option_text agent_option_lines @ nl @
     ''Traffic is plaintext gRPC: bind to loopback, or run on a trusted network / through a tunnel.'' @ nl"

record agent_args =
  ag_listen :: string
  ag_token :: string
  ag_policy :: policy
  ag_no_auth :: bool
  ag_slots :: "32 word"
  ag_labels :: "string list"

definition is_loopback :: "string \<Rightarrow> bool" where
  "is_loopback addr \<longleftrightarrow> starts_with ''127.'' addr \<or> starts_with ''localhost:'' addr \<or> starts_with ''[::1]:'' addr"

definition agent_defaults :: "string option \<Rightarrow> agent_args" where
  "agent_defaults env_token =
     \<lparr>ag_listen = ''127.0.0.1:7001'', ag_token = (case env_token of Some t \<Rightarrow> t | None \<Rightarrow> []),
      ag_policy = \<lparr>allow = [], allow_any = False\<rparr>, ag_no_auth = False, ag_slots = 0, ag_labels = []\<rparr>"

definition missing_value :: "string \<Rightarrow> string" where
  "missing_value a =
     (if a = ''--slots'' then ''--slots needs a positive integer'' else if a = ''--label'' then ''--label needs K=V''
      else a @ '' needs a value'') @ nl"

fun agent_parse :: "string \<Rightarrow> agent_args \<Rightarrow> string list \<Rightarrow> (int \<times> string) + agent_args" where
  "agent_parse prog ops [] = Inr ops"
| "agent_parse prog ops (a # rest) =
     (if a = ''-h'' \<or> a = ''--help'' then Inl (0, agent_usage prog)
      else if a = ''--no-auth'' then agent_parse prog (ops\<lparr>ag_no_auth := True\<rparr>) rest
      else if a = ''--allow-any'' then agent_parse prog (ops\<lparr>ag_policy := (ag_policy ops)\<lparr>allow_any := True\<rparr>\<rparr>) rest
      else if a = ''--listen'' \<or> a = ''--token'' \<or> a = ''--allow'' \<or> a = ''--slots'' \<or> a = ''--label'' then
        (case rest of
           [] \<Rightarrow> Inl (2, missing_value a)
         | v # rest' \<Rightarrow>
             if a = ''--listen'' then agent_parse prog (ops\<lparr>ag_listen := v\<rparr>) rest'
             else if a = ''--token'' then agent_parse prog (ops\<lparr>ag_token := v\<rparr>) rest'
             else if a = ''--allow''
             then agent_parse prog (ops\<lparr>ag_policy := (ag_policy ops)\<lparr>allow := allow (ag_policy ops) @ [v]\<rparr>\<rparr>) rest'
             else if a = ''--slots'' then
               (if atoi v < 1 then Inl (2, missing_value a)
                else agent_parse prog (ops\<lparr>ag_slots := word_of_int (atoi v)\<rparr>) rest')
             else if \<not> has_char (CHR ''='') v then Inl (2, missing_value a)
             else agent_parse prog (ops\<lparr>ag_labels := ag_labels ops @ [v]\<rparr>) rest')
      else Inl (2, ''unknown option: '' @ a @ nl @ agent_usage prog))"

subsection \<open>Refusals to start\<close>

definition no_auth_choice :: string where
  "no_auth_choice = ''error: refusing to start without authentication. Pass --token (or set DTEST_TOKEN), '' @
     ''or --no-auth for local experiments.'' @ nl"

definition no_policy :: string where
  "no_policy = ''error: refusing to start with no command policy. Pass --allow PATH (repeatable) or --allow-any.'' @ nl"

definition agent_start :: "32 word \<Rightarrow> string list \<Rightarrow> string option \<Rightarrow> agent_args \<Rightarrow> (int \<times> string) + agent_options" where
  "agent_start cpus detected host ops =
     (if ag_token ops = [] \<and> \<not> ag_no_auth ops then Inl (2, no_auth_choice)
      else if ag_token ops \<noteq> [] \<and> ag_no_auth ops then Inl (2, ''error: --token and --no-auth are contradictory'' @ nl)
      else if allow (ag_policy ops) = [] \<and> \<not> allow_any (ag_policy ops) then Inl (2, no_policy)
      else Inr (make_agent host
        \<lparr>op_token = ag_token ops, op_policy = ag_policy ops,
         op_slots = (if ag_slots ops \<noteq> 0 then ag_slots ops else max 1 cpus),
         op_labels = detected @ ag_labels ops, op_hostname = [], op_max_output = 2 ^ 20\<rparr>))"

subsection \<open>Serving\<close>

text \<open>\<open>std::signal\<close> and the loop that polls \<open>g_stop\<close>: \<open>stop n\<close> says whether a signal has arrived by poll \<open>n\<close>.\<close>

partial_function (option) wait_for_stop :: "(nat \<Rightarrow> bool) \<Rightarrow> nat \<Rightarrow> nat option" where
  "wait_for_stop stop n = (if stop n then Some n else wait_for_stop stop (Suc n))"

text \<open>\<open>listen.substr(0, listen.rfind(':'))\<close>: the whole address when it has no colon.\<close>

definition host_part :: "string \<Rightarrow> string" where
  "host_part addr =
     (if has_char (CHR '':'') addr then rev (tl (dropWhile (\<lambda>c. c \<noteq> CHR '':'') (rev addr))) else addr)"

definition agent_warnings :: "agent_args \<Rightarrow> string" where
  "agent_warnings ops =
     (if \<not> is_loopback (ag_listen ops)
      then ''WARNING: listening on a non-loopback address with plaintext gRPC. Use a trusted network or a tunnel.'' @ nl else []) @
     (if allow_any (ag_policy ops)
      then ''WARNING: --allow-any lets the controller run ANY command as this user.'' @ nl else []) @
     (if ag_no_auth ops then ''WARNING: authentication is disabled.'' @ nl else [])"

definition listening_line :: "agent_args \<Rightarrow> 32 word \<Rightarrow> string list \<Rightarrow> int \<Rightarrow> string" where
  "listening_line ops slots_shown labels_shown port =
     ''dtest-agent listening on '' @ host_part (ag_listen ops) @ '':'' @ show_int port @ '' slots='' @
     show_nat (unat slots_shown) @ '' labels='' @ comma_list labels_shown @ nl"

record agent_end =
  ae_status :: int
  ae_out :: string
  ae_err :: string

text \<open>
  \<open>bind\<close>: the port \<open>BuildAndStart\<close> listens on, \<open>None\<close> without a server. The line that is printed shows the slots
  and labels of \<open>main\<close>, which the service takes over unchanged (\<open>make_agent\<close> would only replace zero slots). \<open>None\<close>:
  \<open>main\<close> does not return.
\<close>

definition agent_serve :: "(string \<Rightarrow> int option) \<Rightarrow> (nat \<Rightarrow> bool) \<Rightarrow> agent_args \<Rightarrow> agent_options \<Rightarrow> agent_end option" where
  "agent_serve bind stop ops opts =
     (case bind (ag_listen ops) of
        None \<Rightarrow> Some \<lparr>ae_status = 1, ae_out = [], ae_err = ''error: could not listen on '' @ ag_listen ops @ nl\<rparr>
      | Some port \<Rightarrow>
          if port = 0 then Some \<lparr>ae_status = 1, ae_out = [], ae_err = ''error: could not listen on '' @ ag_listen ops @ nl\<rparr>
          else map_option (\<lambda>_. \<lparr>ae_status = 0,
              ae_out = listening_line ops (op_slots opts) (op_labels opts) port @ ''dtest-agent stopped'' @ nl,
              ae_err = agent_warnings ops\<rparr>) (wait_for_stop stop 0))"

definition agent_main ::
  "string \<Rightarrow> string option \<Rightarrow> 32 word \<Rightarrow> string list \<Rightarrow> string option \<Rightarrow> string list \<Rightarrow> (int \<times> string) + (agent_args \<times> agent_options)" where
  "agent_main prog env_token cpus detected host args =
     and_then (agent_parse prog (agent_defaults env_token) args) (\<lambda>ops.
     and_then (agent_start cpus detected host ops) (\<lambda>opts. Inr (ops, opts)))"

definition agent_program ::
  "string \<Rightarrow> string option \<Rightarrow> 32 word \<Rightarrow> string list \<Rightarrow> string option \<Rightarrow> (string \<Rightarrow> int option) \<Rightarrow> (nat \<Rightarrow> bool) \<Rightarrow> string list
     \<Rightarrow> agent_end option" where
  "agent_program prog env_token cpus detected host bind stop args =
     (case agent_main prog env_token cpus detected host args of
        Inl (n, e) \<Rightarrow> Some \<lparr>ae_status = n, ae_out = [], ae_err = e\<rparr>
      | Inr (ops, opts) \<Rightarrow> agent_serve bind stop ops opts)"

subsection \<open>Properties\<close>

lemma wait_for_stop_Some:
  assumes "wait_for_stop stop n = Some m"
  shows "stop m \<and> n \<le> m"
proof (rule wait_for_stop.raw_induct [OF _ assms])
  fix f stop n m
  assume ih: "\<And>stop n m. f stop n = Some m \<Longrightarrow> stop m \<and> n \<le> m"
    and eq: "(if stop n then Some n else f stop (Suc n)) = Some m"
  show "stop m \<and> n \<le> m" using eq ih [of stop "Suc n" m] by (auto split: if_splits)
qed

lemma wait_for_stop_returns: "stop m \<Longrightarrow> n \<le> m \<Longrightarrow> wait_for_stop stop n \<noteq> None"
proof (induction "m - n" arbitrary: n)
  case 0
  then show ?case by (simp add: wait_for_stop.simps [of stop n])
next
  case (Suc k)
  then have "wait_for_stop stop (Suc n) \<noteq> None" by (intro Suc.hyps(1)) auto
  then show ?case by (simp add: wait_for_stop.simps [of stop n])
qed

lemma wait_for_stop_iff: "wait_for_stop stop 0 = None \<longleftrightarrow> (\<forall>n. \<not> stop n)"
  using wait_for_stop_Some wait_for_stop_returns by (metis not_None_eq zero_le)

text \<open>The lines on the standard error, and the loopback addresses by what follows their fixed start.\<close>

lemma warning_lines:
  "getlines (agent_warnings ops) =
     (if is_loopback (ag_listen ops) then []
      else [''WARNING: listening on a non-loopback address with plaintext gRPC. Use a trusted network or a tunnel.'']) @
     (if allow_any (ag_policy ops) then [''WARNING: --allow-any lets the controller run ANY command as this user.''] else []) @
     (if ag_no_auth ops then [''WARNING: authentication is disabled.''] else [])" (is "_ = ?lines")
proof -
  have "agent_warnings ops = concat (map (\<lambda>l. l @ nl) ?lines)"
    unfolding agent_warnings_def by (simp split: if_split)
  moreover have "list_all (\<lambda>l. CHR 0x0A \<notin> set l) ?lines" by (simp split: if_split)
  then have "getlines (concat (map (\<lambda>l. l @ nl) ?lines) @ []) = ?lines @ getlines []" by (rule getlines_lines)
  moreover have "getlines [] = []" by (simp add: getlines_def Let_def)
  ultimately show ?thesis by simp
qed

lemma is_loopback_iff:
  "is_loopback addr \<longleftrightarrow> (\<exists>rest. addr = ''127.'' @ rest \<or> addr = ''localhost:'' @ rest \<or> addr = ''[::1]:'' @ rest)"
  by (auto simp: is_loopback_def starts_with_prefix prefix_def)

text \<open>
  Property C22. The agent refuses to start without both an authentication choice and a command policy, and serves until it is told to
  stop: if its start-up checks pass, it has a token, or authentication was switched off explicitly and there is no token; it
  has an allow list or allows any command explicitly; it has at least one slot. Then it ends with 1 if it cannot listen;
  otherwise it runs as long as no signal arrives and ends with 0, and what it wrote to the standard error is, line by line,
  one warning for each that holds: its address does not start with \<open>127.\<close>, \<open>localhost:\<close> or \<open>[::1]:\<close>; the service allows any
  command; the service has no token. So it is silent exactly if none of them holds.
\<close>

theorem agent_refuses_or_serves:
  assumes "agent_main prog env_token cpus detected host args = Inr (ops, opts)"
    and "listens = (\<exists>port. bind (ag_listen ops) = Some port \<and> port \<noteq> 0)"
  shows "(op_token opts \<noteq> [] \<longleftrightarrow> \<not> ag_no_auth ops) \<and> (allow (op_policy opts) \<noteq> [] \<or> allow_any (op_policy opts)) \<and>
    op_slots opts \<noteq> 0 \<and>
    (agent_program prog env_token cpus detected host bind stop args = None \<longleftrightarrow> listens \<and> (\<forall>n. \<not> stop n)) \<and>
    (\<forall>e. agent_program prog env_token cpus detected host bind stop args = Some e \<longrightarrow>
       ae_status e = (if listens then 0 else 1) \<and>
       (\<not> listens \<longrightarrow> ae_err e = ''error: could not listen on '' @ ag_listen ops @ nl) \<and>
       (listens \<longrightarrow> getlines (ae_err e) =
          (if \<exists>rest. ag_listen ops = ''127.'' @ rest \<or> ag_listen ops = ''localhost:'' @ rest \<or> ag_listen ops = ''[::1]:'' @ rest
           then []
           else [''WARNING: listening on a non-loopback address with plaintext gRPC. Use a trusted network or a tunnel.'']) @
          (if allow_any (op_policy opts)
           then [''WARNING: --allow-any lets the controller run ANY command as this user.''] else []) @
          (if op_token opts = [] then [''WARNING: authentication is disabled.''] else [])))"
proof -
  have start: "agent_start cpus detected host ops = Inr opts" using assms(1) by (auto simp: agent_main_def and_then_Inr)
  have main: "agent_program prog env_token cpus detected host bind stop args = agent_serve bind stop ops opts"
    using assms(1) by (simp add: agent_program_def)
  have checks: "(op_token opts \<noteq> [] \<longleftrightarrow> \<not> ag_no_auth ops)" "allow (op_policy opts) \<noteq> [] \<or> allow_any (op_policy opts)"
    "op_slots opts \<noteq> 0" "op_policy opts = ag_policy ops"
    using start by (auto simp: agent_start_def make_agent_def Let_def split: if_splits option.splits)
  have none: "agent_serve bind stop ops opts = None \<longleftrightarrow> listens \<and> (\<forall>n. \<not> stop n)"
    unfolding assms(2) agent_serve_def by (auto simp: wait_for_stop_iff split: option.split)
  have ended: "ae_status e = (if listens then 0 else 1) \<and>
      (\<not> listens \<longrightarrow> ae_err e = ''error: could not listen on '' @ ag_listen ops @ nl) \<and>
      (listens \<longrightarrow> ae_err e = agent_warnings ops)"
    if "agent_serve bind stop ops opts = Some e" for e
    using that unfolding assms(2) agent_serve_def by (auto split: option.splits if_splits)
  have no_auth: "ag_no_auth ops \<longleftrightarrow> op_token opts = []" using checks(1) by blast
  note lines = warning_lines [of ops, folded checks(4), unfolded is_loopback_iff no_auth]
  show ?thesis
  proof (intro conjI allI impI)
    fix e assume "agent_program prog env_token cpus detected host bind stop args = Some e"
    then have "agent_serve bind stop ops opts = Some e" unfolding main .
    note e = ended [OF this]
    show "ae_status e = (if listens then 0 else 1)" using e by blast
    show "ae_err e = ''error: could not listen on '' @ ag_listen ops @ nl" if "\<not> listens" using e that by blast
    assume listens
    then have err: "ae_err e = agent_warnings ops" using e by blast
    show "getlines (ae_err e) = (if \<exists>rest. ag_listen ops = ''127.'' @ rest \<or> ag_listen ops = ''localhost:'' @ rest \<or> ag_listen ops = ''[::1]:'' @ rest
           then []
           else [''WARNING: listening on a non-loopback address with plaintext gRPC. Use a trusted network or a tunnel.'']) @
          (if allow_any (op_policy opts)
           then [''WARNING: --allow-any lets the controller run ANY command as this user.''] else []) @
          (if op_token opts = [] then [''WARNING: authentication is disabled.''] else [])" unfolding err by (rule lines)
  qed (use checks none main in auto)
qed

definition demo_agent_args :: "string list" where
  "demo_agent_args = [''--listen'', ''0.0.0.0:0'', ''--no-auth'', ''--allow'', ''/opt/t/'', ''--slots'', ''3'']"

definition demo_agent_ops :: agent_args where
  "demo_agent_ops = \<lparr>ag_listen = ''0.0.0.0:0'', ag_token = [], ag_policy = \<lparr>allow = [''/opt/t/''], allow_any = False\<rparr>,
     ag_no_auth = True, ag_slots = 3, ag_labels = []\<rparr>"

definition demo_agent_opts :: agent_options where
  "demo_agent_opts = \<lparr>op_token = [], op_policy = \<lparr>allow = [''/opt/t/''], allow_any = False\<rparr>, op_slots = 3, op_labels = [''os=linux''],
     op_hostname = ''box'', op_max_output = 2 ^ 20\<rparr>"

theorem agent_refuses_or_serves_witness:
  "\<exists>e. agent_program ''dtest-agent'' None 4 [''os=linux''] (Some ''box'') (\<lambda>_. Some 81) (\<lambda>n. n = 2) demo_agent_args = Some e \<and>
     ae_status e = 0 \<and> length (getlines (ae_err e)) = 2 \<and>
     ae_out e = ''dtest-agent listening on 0.0.0.0:81 slots=3 labels=os=linux'' @ nl @ ''dtest-agent stopped'' @ nl"
proof -
  have m: "agent_main ''dtest-agent'' None 4 [''os=linux''] (Some ''box'') demo_agent_args = Inr (demo_agent_ops, demo_agent_opts)"
  proof -
    have p: "agent_parse ''dtest-agent'' (agent_defaults None) demo_agent_args = Inr demo_agent_ops" by code_simp
    show ?thesis
      by (simp only: agent_main_def p and_then_simps)
        (simp add: agent_start_def demo_agent_ops_def demo_agent_opts_def make_agent_def)
  qed
  have line: "listening_line demo_agent_ops 3 [''os=linux''] 81 =
      ''dtest-agent listening on 0.0.0.0:81 slots=3 labels=os=linux'' @ nl"
    by code_simp
  note main = agent_refuses_or_serves [OF m, of True "\<lambda>_. Some 81" "\<lambda>n. n = 2"]
  from main obtain e where e: "agent_program ''dtest-agent'' None 4 [''os=linux''] (Some ''box'') (\<lambda>_. Some 81) (\<lambda>n. n = 2) demo_agent_args = Some e"
    by auto
  then have "ae_status e = 0" "length (getlines (ae_err e)) = 2"
    using main by (simp_all add: demo_agent_ops_def demo_agent_opts_def)
  moreover have "ae_out e = listening_line demo_agent_ops 3 [''os=linux''] 81 @ ''dtest-agent stopped'' @ nl"
    using e by (auto simp: agent_program_def m agent_serve_def demo_agent_opts_def)
  ultimately show ?thesis using e line by auto
qed

end
