(* ===== verification/Vmtest_Config.thy ===== *)
theory Vmtest_Config
  imports Command_Line "HOL-Library.Word"
begin

section \<open>Command line of the VM tests (vmtest/config.cpp)\<close>

text \<open>
  \<open>parse_args\<close> as one function per option and a loop over the arguments. A usage error stops the loop
  and keeps the configuration read so far, as the code's \<open>fail\<close> does.
\<close>

record vm_config =
  vc_uri :: string
  vc_image :: string
  vc_image_format :: string
  vc_work_dir :: string
  vc_vcpus :: "32 word"
  vc_mem_mib :: "32 word"
  vc_boot_timeout :: int
  vc_shutdown_timeout :: int
  vc_iterations :: int
  vc_filter :: string
  vc_junit :: string
  vc_list :: bool

record parse_result =
  pr_cfg :: vm_config
  pr_error :: string
  pr_help :: bool

definition default_config :: vm_config where
  "default_config =
     \<lparr>vc_uri = ''qemu:///system'', vc_image = [], vc_image_format = ''qcow2'', vc_work_dir = ''/var/tmp'',
      vc_vcpus = 2, vc_mem_mib = 1024, vc_boot_timeout = 180, vc_shutdown_timeout = 90, vc_iterations = 0,
      vc_filter = [], vc_junit = [], vc_list = False\<rparr>"

definition vm_option_lines :: "string list" where
  "vm_option_lines =
     [''  --image PATH           base disk image (required unless --list)'',
      ''  --image-format FMT     format of the base image (default: qcow2)'',
      ''  --uri URI              libvirt URI (default: qemu:///system)'',
      ''  --work-dir DIR         directory for throwaway overlay disks (default: /var/tmp)'',
      ''  --vcpus N              guest vCPUs (default: 2)'',
      ''  --memory-mib N         guest memory in MiB (default: 1024)'',
      ''  --boot-timeout S       seconds to wait for the guest agent (default: 180)'',
      ''  --shutdown-timeout S   seconds to wait for graceful shutdown (default: 90)'',
      ''  --iterations N         run the boot/destroy soak test N times (default: off)'',
      ''  --filter TEXT          only run tests whose '' @ sq ''suite.name'' @ '' contains TEXT'',
      ''  --junit FILE           also write JUnit XML to FILE'',
      ''  --list                 list test names and exit'',
      ''  -h, --help             show this help'']"

definition usage_text :: "string \<Rightarrow> string" where
  "usage_text prog =
     ''Usage: '' @ prog @ '' --image PATH [options]'' @ nl @ nl @
     ''Boots a KVM guest through libvirt and validates lifecycle and guest behaviour.'' @ nl @
     ''The image must have qemu-guest-agent installed and enabled (see scripts/prepare_image.sh).'' @ nl @ nl @
     ''Options:'' @ nl @ option_text vm_option_lines @ nl @
     ''Exit status: 0 = all passed (skips allowed), 1 = a test failed, 2 = usage error.'' @ nl"

subsection \<open>Numbers\<close>

text \<open>The number at the start of a text: blanks, a sign, decimal digits; and the rest of the text.\<close>

definition leading_number :: "string \<Rightarrow> (int \<times> string) option" where
  "leading_number s =
     (let t = dropWhile c_space s;
          sign = (if t \<noteq> [] \<and> hd t = CHR ''-'' then - 1 else 1);
          u = (if t \<noteq> [] \<and> (hd t = CHR ''-'' \<or> hd t = CHR ''+'') then tl t else t)
      in map_option (\<lambda>n. (sign * int n, dropWhile c_digit u)) (read_digits u))"

text \<open>\<open>std::strtol\<close> in base 10: the value, clamped to \<open>long\<close>, and the rest of the string.\<close>

definition clamp_long :: "int \<Rightarrow> int" where
  "clamp_long i = max (- (2 ^ 63)) (min (2 ^ 63 - 1) i)"

definition strtol :: "string \<Rightarrow> int \<times> string" where
  "strtol s = (case leading_number s of None \<Rightarrow> (0, s) | Some (i, rest) \<Rightarrow> (clamp_long i, rest))"

definition parse_uint :: "string \<Rightarrow> int \<Rightarrow> int \<Rightarrow> int option" where
  "parse_uint s lo hi =
     (if s = [] then None
      else case strtol s of (v, rest) \<Rightarrow>
        if rest \<noteq> [] \<or> v < lo \<or> v > hi then None else Some v)"

subsection \<open>Options\<close>

text \<open>An option with a text value, and one with a number in a range.\<close>

definition text_option ::
  "string \<Rightarrow> string list \<Rightarrow> (string \<Rightarrow> vm_config) \<Rightarrow> string + (vm_config \<times> string list)" where
  "text_option opt rest set_to =
     (case rest of [] \<Rightarrow> Inl (opt @ '' needs a value'') | v # rest' \<Rightarrow> Inr (set_to v, rest'))"

definition num_option ::
  "string \<Rightarrow> int \<Rightarrow> int \<Rightarrow> string list \<Rightarrow> (int \<Rightarrow> vm_config) \<Rightarrow> string + (vm_config \<times> string list)" where
  "num_option msg lo hi rest set_to =
     (case rest of
        [] \<Rightarrow> Inl msg
      | v # rest' \<Rightarrow> (case parse_uint v lo hi of None \<Rightarrow> Inl msg | Some n \<Rightarrow> Inr (set_to n, rest')))"

definition parse_option :: "vm_config \<Rightarrow> string \<Rightarrow> string list \<Rightarrow> string + (vm_config \<times> string list)" where
  "parse_option c a rest =
     (if a = ''--list'' then Inr (c\<lparr>vc_list := True\<rparr>, rest)
      else if a = ''--image'' then text_option a rest (\<lambda>v. c\<lparr>vc_image := v\<rparr>)
      else if a = ''--image-format'' then text_option a rest (\<lambda>v. c\<lparr>vc_image_format := v\<rparr>)
      else if a = ''--uri'' then text_option a rest (\<lambda>v. c\<lparr>vc_uri := v\<rparr>)
      else if a = ''--work-dir'' then text_option a rest (\<lambda>v. c\<lparr>vc_work_dir := v\<rparr>)
      else if a = ''--filter'' then text_option a rest (\<lambda>v. c\<lparr>vc_filter := v\<rparr>)
      else if a = ''--junit'' then text_option a rest (\<lambda>v. c\<lparr>vc_junit := v\<rparr>)
      else if a = ''--vcpus''
      then num_option ''--vcpus needs an integer in 1..512'' 1 512 rest (\<lambda>n. c\<lparr>vc_vcpus := word_of_int n\<rparr>)
      else if a = ''--memory-mib''
      then num_option ''--memory-mib needs an integer >= 128'' 128 (2 ^ 20) rest (\<lambda>n. c\<lparr>vc_mem_mib := word_of_int n\<rparr>)
      else if a = ''--boot-timeout''
      then num_option ''--boot-timeout needs a positive integer'' 1 86400 rest (\<lambda>n. c\<lparr>vc_boot_timeout := n\<rparr>)
      else if a = ''--shutdown-timeout''
      then num_option ''--shutdown-timeout needs a positive integer'' 1 86400 rest (\<lambda>n. c\<lparr>vc_shutdown_timeout := n\<rparr>)
      else if a = ''--iterations''
      then num_option ''--iterations needs a non-negative integer'' 0 100000 rest (\<lambda>n. c\<lparr>vc_iterations := n\<rparr>)
      else Inl (''unknown option: '' @ a))"

lemma text_option_rest: "text_option opt rest f = Inr (c, rest') \<Longrightarrow> length rest' \<le> length rest"
  by (auto simp: text_option_def split: list.splits)

lemma num_option_rest: "num_option msg lo hi rest f = Inr (c, rest') \<Longrightarrow> length rest' \<le> length rest"
  by (auto simp: num_option_def split: list.splits option.splits)

lemma parse_option_rest: "parse_option c a rest = Inr (c', rest') \<Longrightarrow> length rest' \<le> length rest"
  unfolding parse_option_def
  by (simp only: sum.inject prod.inject split: if_split_asm) (auto dest: text_option_rest num_option_rest)

function parse_args :: "bool \<Rightarrow> vm_config \<Rightarrow> string list \<Rightarrow> parse_result" where
  "parse_args h c [] = \<lparr>pr_cfg = c, pr_error = [], pr_help = h\<rparr>"
| "parse_args h c (a # rest) =
     (if a = ''-h'' \<or> a = ''--help'' then parse_args True c rest
      else case parse_option c a rest of
        Inl msg \<Rightarrow> \<lparr>pr_cfg = c, pr_error = msg, pr_help = h\<rparr>
      | Inr (c', rest') \<Rightarrow> parse_args h c' rest')"
  by pat_completeness auto
termination
  by (relation "measure (\<lambda>(h, c, as). length as)") (auto dest: parse_option_rest)

definition parse_command_line :: "string list \<Rightarrow> parse_result" where
  "parse_command_line args = parse_args False default_config args"

subsection \<open>Ranges\<close>

definition config_ok :: "vm_config \<Rightarrow> bool" where
  "config_ok c \<longleftrightarrow> 1 \<le> uint (vc_vcpus c) \<and> uint (vc_vcpus c) \<le> 512 \<and>
     128 \<le> uint (vc_mem_mib c) \<and> uint (vc_mem_mib c) \<le> 2 ^ 20 \<and>
     1 \<le> vc_boot_timeout c \<and> vc_boot_timeout c \<le> 86400 \<and>
     1 \<le> vc_shutdown_timeout c \<and> vc_shutdown_timeout c \<le> 86400 \<and>
     0 \<le> vc_iterations c \<and> vc_iterations c \<le> 100000"

lemma parse_uint_range: "parse_uint s lo hi = Some v \<Longrightarrow> lo \<le> v \<and> v \<le> hi"
  by (auto simp: parse_uint_def split: if_splits prod.splits)

lemma num_option_ok:
  assumes "num_option msg lo hi rest f = Inr (c', rest')" "\<And>n. lo \<le> n \<Longrightarrow> n \<le> hi \<Longrightarrow> config_ok (f n)"
  shows "config_ok c'"
  using assms by (auto simp: num_option_def split: list.splits option.splits dest: parse_uint_range)

lemma text_option_ok:
  assumes "text_option opt rest f = Inr (c', rest')" "\<And>v. config_ok (f v)"
  shows "config_ok c'"
  using assms by (auto simp: text_option_def split: list.splits)

lemma uint_of_small: "0 \<le> n \<Longrightarrow> n \<le> 2 ^ 20 \<Longrightarrow> uint (word_of_int n :: 32 word) = n"
  by (simp add: uint_word_of_int)

lemma config_ok_update:
  assumes "config_ok c"
  shows "config_ok (c\<lparr>vc_list := b\<rparr>)" "config_ok (c\<lparr>vc_image := v\<rparr>)" "config_ok (c\<lparr>vc_image_format := v\<rparr>)"
    "config_ok (c\<lparr>vc_uri := v\<rparr>)" "config_ok (c\<lparr>vc_work_dir := v\<rparr>)" "config_ok (c\<lparr>vc_filter := v\<rparr>)"
    "config_ok (c\<lparr>vc_junit := v\<rparr>)"
    "1 \<le> n \<Longrightarrow> n \<le> 512 \<Longrightarrow> config_ok (c\<lparr>vc_vcpus := word_of_int n\<rparr>)"
    "128 \<le> n \<Longrightarrow> n \<le> 2 ^ 20 \<Longrightarrow> config_ok (c\<lparr>vc_mem_mib := word_of_int n\<rparr>)"
    "1 \<le> n \<Longrightarrow> n \<le> 86400 \<Longrightarrow> config_ok (c\<lparr>vc_boot_timeout := n\<rparr>)"
    "1 \<le> n \<Longrightarrow> n \<le> 86400 \<Longrightarrow> config_ok (c\<lparr>vc_shutdown_timeout := n\<rparr>)"
    "0 \<le> n \<Longrightarrow> n \<le> 100000 \<Longrightarrow> config_ok (c\<lparr>vc_iterations := n\<rparr>)"
  using assms by (simp_all add: config_ok_def uint_of_small)

lemma parse_option_ok:
  assumes "config_ok c" "parse_option c a rest = Inr (c', rest')"
  shows "config_ok c'"
  using assms(2) unfolding parse_option_def
  by (simp only: sum.inject prod.inject split: if_split_asm)
    (auto intro: config_ok_update [OF assms(1)] dest!: text_option_ok num_option_ok)

lemma parse_args_ok: "config_ok c \<Longrightarrow> config_ok (pr_cfg (parse_args h c args))"
  by (induction h c args rule: parse_args.induct)
    (auto split: sum.split prod.split dest: parse_option_ok)

text \<open>
  Whatever the command line, the numbers in the resulting configuration are in the documented
  ranges: 1 to 512 vCPUs, 128 MiB to 1 TiB of memory, timeouts of a second to a day, at most
  100000 soak iterations; a rejected value never reaches the configuration.
\<close>

theorem parsed_config_in_range: "config_ok (pr_cfg (parse_command_line args))"
  unfolding parse_command_line_def by (rule parse_args_ok) (simp add: config_ok_def default_config_def)

end
