(* ===== verification/Platcheck.thy ===== *)
theory Platcheck
  imports Escaping Command_Line
begin

section \<open>Host readiness checks (platcheck/checks.cpp)\<close>

text \<open>
  Every check reads files below a root directory and returns a result. The file system is the record
  \<open>files\<close>: what reading, testing and listing paths return. \<open>std::stoi\<close> throws on a number that is not an
  \<open>int\<close> and nothing catches it: such a run is \<open>None\<close>.
\<close>

record files =
  fs_read :: "string \<Rightarrow> string option"
  fs_exists :: "string \<Rightarrow> bool"
  fs_rw :: "string \<Rightarrow> bool"
  fs_list :: "string \<Rightarrow> string list option"
  fs_link_name :: "string \<Rightarrow> string option"

datatype check_status = Pass | Warn | Fail | Skip

record check_result =
  cr_id :: string
  cr_title :: string
  cr_status :: check_status
  cr_detail :: string
  cr_remediation :: string

record iommu_device =
  bdf :: string
  vendor :: string
  device :: string
  pci_class :: string
  driver :: string

record iommu_group =
  grp_id :: int
  devices :: "iommu_device list"

subsection \<open>Helpers\<close>

definition show_status :: "check_status \<Rightarrow> string" where
  "show_status s = (case s of Pass \<Rightarrow> ''PASS'' | Warn \<Rightarrow> ''WARN'' | Fail \<Rightarrow> ''FAIL'' | Skip \<Rightarrow> ''SKIP'')"

definition trim :: "string \<Rightarrow> string" where
  "trim s = rev (dropWhile c_space (rev (dropWhile c_space s)))"

definition to_lower :: "string \<Rightarrow> string" where
  "to_lower s = map (\<lambda>c. if 65 \<le> (of_char c :: nat) \<and> of_char c \<le> (90 :: nat) then char_of (of_char c + 32 :: nat) else c) s"

definition flags_line :: "string \<Rightarrow> bool" where
  "flags_line l \<longleftrightarrow> starts_with ''flags'' l \<and> has_char (CHR '':'') l"

text \<open>The part of a line behind its first colon.\<close>

definition after_colon :: "string \<Rightarrow> string" where
  "after_colon l = drop 1 (dropWhile (\<lambda>c. c \<noteq> CHR '':'') l)"

definition cpuinfo_has_flags_line :: "string \<Rightarrow> bool" where
  "cpuinfo_has_flags_line info = list_ex flags_line (getlines info)"

definition cpu_has_flag :: "string \<Rightarrow> string \<Rightarrow> bool" where
  "cpu_has_flag info flag =
     (case List.find flags_line (getlines info) of
        None \<Rightarrow> False
      | Some l \<Rightarrow> flag \<in> set (split_ws (after_colon l)))"

definition meminfo_value :: "string \<Rightarrow> string \<Rightarrow> int option" where
  "meminfo_value info key =
     (let pre = key @ '':'' in
      case List.find (starts_with pre) (getlines info) of
        None \<Rightarrow> None
      | Some l \<Rightarrow> read_long (drop (length pre) l))"

definition cmdline_has :: "string \<Rightarrow> string \<Rightarrow> bool" where
  "cmdline_has cmdline key = list_ex (\<lambda>tok. tok = key \<or> starts_with (key @ ''='') tok) (split_ws cmdline)"

definition cmdline_value :: "string \<Rightarrow> string \<Rightarrow> string option" where
  "cmdline_value cmdline key =
     (let pre = key @ ''='' in
      map_option (drop (length pre)) (List.find (starts_with pre) (split_ws cmdline)))"

definition read_trimmed :: "files \<Rightarrow> string \<Rightarrow> string" where
  "read_trimmed fs p = (case fs_read fs p of Some c \<Rightarrow> trim c | None \<Rightarrow> [])"

subsection \<open>IOMMU groups\<close>

definition stoi :: "string \<Rightarrow> int option" where
  "stoi name = (let i = int (read_nat name) in if i < 2 ^ 31 then Some i else None)"

definition read_device :: "files \<Rightarrow> string \<Rightarrow> string \<Rightarrow> iommu_device" where
  "read_device fs rt name =
     (let pci = rt @ ''/sys/bus/pci/devices/'' @ name in
      \<lparr>bdf = name, vendor = to_lower (read_trimmed fs (pci @ ''/vendor'')),
       device = to_lower (read_trimmed fs (pci @ ''/device'')),
       pci_class = to_lower (read_trimmed fs (pci @ ''/class'')),
       driver = (case fs_link_name fs (pci @ ''/driver'') of Some d \<Rightarrow> d | None \<Rightarrow> [])\<rparr>)"

definition group_name :: "string \<Rightarrow> bool" where
  "group_name name \<longleftrightarrow> name \<noteq> [] \<and> list_all c_digit name"

definition read_group :: "files \<Rightarrow> string \<Rightarrow> string \<Rightarrow> iommu_group option" where
  "read_group fs rt name =
     map_option (\<lambda>i. \<lparr>grp_id = i,
         devices = sort_key bdf (map (read_device fs rt)
           (case fs_list fs (rt @ ''/sys/kernel/iommu_groups/'' @ name @ ''/devices'') of Some ds \<Rightarrow> ds | None \<Rightarrow> []))\<rparr>)
       (stoi name)"

fun read_groups :: "files \<Rightarrow> string \<Rightarrow> string list \<Rightarrow> iommu_group list option" where
  "read_groups fs rt [] = Some []"
| "read_groups fs rt (name # names) =
     (if \<not> group_name name then read_groups fs rt names
      else Option.bind (read_group fs rt name) (\<lambda>g. map_option (Cons g) (read_groups fs rt names)))"

definition read_iommu_groups :: "files \<Rightarrow> string \<Rightarrow> iommu_group list option" where
  "read_iommu_groups fs rt =
     (case fs_list fs (rt @ ''/sys/kernel/iommu_groups'') of
        None \<Rightarrow> Some []
      | Some names \<Rightarrow> map_option (sort_key grp_id) (read_groups fs rt names))"

definition mk_check :: "string \<Rightarrow> string \<Rightarrow> check_status \<Rightarrow> string \<Rightarrow> string \<Rightarrow> check_result" where
  "mk_check i title s detail rem =
     \<lparr>cr_id = i, cr_title = title, cr_status = s, cr_detail = detail, cr_remediation = rem\<rparr>"

definition param_enabled :: "string \<Rightarrow> bool" where
  "param_enabled v \<longleftrightarrow> v = ''Y'' \<or> v = ''y'' \<or> v = ''1''"

subsection \<open>The checks\<close>

text \<open>The constructor drops the slashes at the end of the root.\<close>

definition checker_root :: "string \<Rightarrow> string" where
  "checker_root r = rev (dropWhile (\<lambda>c. c = CHR ''/'') (rev r))"

definition check_kernel :: "files \<Rightarrow> string \<Rightarrow> check_result" where
  "check_kernel fs rt =
     (case fs_read fs (rt @ ''/proc/sys/kernel/osrelease'') of
        None \<Rightarrow> mk_check ''kernel'' ''Kernel version'' Skip ''osrelease not readable'' []
      | Some rel \<Rightarrow> mk_check ''kernel'' ''Kernel version'' Pass (trim rel) [])"

definition check_cpu_virt :: "files \<Rightarrow> string \<Rightarrow> check_result" where
  "check_cpu_virt fs rt =
     (let mk = mk_check ''cpu_virt'' ''CPU virtualization extensions'' in
      case fs_read fs (rt @ ''/proc/cpuinfo'') of
        None \<Rightarrow> mk Skip ''/proc/cpuinfo not readable'' []
      | Some info \<Rightarrow>
          if \<not> cpuinfo_has_flags_line info
          then mk Skip (''no x86 '' @ CHR 0x27 # ''flags'' @ CHR 0x27 # '' line (non-x86 host?); rely on the /dev/kvm check'') []
          else if cpu_has_flag info ''vmx'' then mk Pass ''Intel VT-x (vmx) present'' []
          else if cpu_has_flag info ''svm'' then mk Pass ''AMD-V (svm) present'' []
          else mk Fail ''neither vmx nor svm present in cpu flags''
            ''Enable VT-x/AMD-V in firmware; if this is a VM, enable nested virtualization on the parent hypervisor.'')"

definition check_kvm_device :: "files \<Rightarrow> string \<Rightarrow> check_result" where
  "check_kvm_device fs rt =
     (let mk = mk_check ''kvm_device'' ''/dev/kvm accessible''; dev = rt @ ''/dev/kvm'' in
      if \<not> fs_exists fs dev
      then mk Fail ''/dev/kvm does not exist''
        ''Load the kvm module (modprobe kvm_intel / kvm_amd) and check firmware settings.''
      else if \<not> fs_rw fs dev
      then mk Warn ''/dev/kvm exists but is not read/write for this user''
        (''Add your user to the '' @ CHR 0x27 # ''kvm'' @ CHR 0x27 # '' group, or run as a user that can open /dev/kvm.'')
      else mk Pass ''/dev/kvm is present and read/write'' [])"

definition check_kvm_module :: "files \<Rightarrow> string \<Rightarrow> check_result" where
  "check_kvm_module fs rt =
     (let mk = mk_check ''kvm_module'' ''KVM kernel module'' in
      if fs_exists fs (rt @ ''/sys/module/kvm_intel'') then mk Pass ''kvm_intel loaded'' []
      else if fs_exists fs (rt @ ''/sys/module/kvm_amd'') then mk Pass ''kvm_amd loaded'' []
      else if fs_exists fs (rt @ ''/sys/module/kvm'') then mk Pass ''kvm loaded (no vendor module; e.g. arm64)'' []
      else mk Fail ''no kvm module loaded'' ''modprobe kvm_intel or kvm_amd (check dmesg for why it failed to load).'')"

fun nested_in :: "files \<Rightarrow> string \<Rightarrow> string list \<Rightarrow> check_result" where
  "nested_in fs rt [] =
     mk_check ''nested_virt'' ''Nested virtualization'' Skip ''no nested parameter exposed by the loaded kvm module'' []"
| "nested_in fs rt (m # ms) =
     (case fs_read fs (rt @ ''/sys/module/'' @ m @ ''/parameters/nested'') of
        None \<Rightarrow> nested_in fs rt ms
      | Some v \<Rightarrow>
          let val = trim v in
          if param_enabled val
          then mk_check ''nested_virt'' ''Nested virtualization'' Pass (m @ ''.nested = '' @ val) []
          else mk_check ''nested_virt'' ''Nested virtualization'' Warn (m @ ''.nested = '' @ val)
            (''Reload with '' @ CHR 0x27 # ''options '' @ m @ '' nested=1'' @ CHR 0x27 #
             '' in /etc/modprobe.d/ if you need VMs inside VMs.''))"

definition check_nested_virt :: "files \<Rightarrow> string \<Rightarrow> check_result" where
  "check_nested_virt fs rt = nested_in fs rt [''kvm_intel'', ''kvm_amd'']"

definition check_iommu :: "files \<Rightarrow> string \<Rightarrow> check_result option" where
  "check_iommu fs rt =
     map_option (\<lambda>groups.
       let mk = mk_check ''iommu'' ''IOMMU enabled'';
           cmdline = read_trimmed fs (rt @ ''/proc/cmdline'')
       in if groups \<noteq> []
          then mk Pass (show_nat (length groups) @ '' IOMMU groups'' @
            (case cmdline_value cmdline ''iommu'' of Some pt \<Rightarrow> '', iommu='' @ pt | None \<Rightarrow> [])) []
          else mk Fail (''no IOMMU groups found'' @
            (if \<not> cmdline_has cmdline ''intel_iommu'' \<and> \<not> cmdline_has cmdline ''amd_iommu''
             then ''; kernel cmdline has no intel_iommu/amd_iommu option'' else []))
            ''Enable VT-d/AMD-Vi in firmware and boot with intel_iommu=on (or amd_iommu=on) and optionally iommu=pt.'')
       (read_iommu_groups fs rt)"

definition yn :: "bool \<Rightarrow> string" where
  "yn b = (if b then ''y'' else ''n'')"

definition check_vfio_modules :: "files \<Rightarrow> string \<Rightarrow> check_result" where
  "check_vfio_modules fs rt =
     (let mk = mk_check ''vfio'' ''VFIO modules'';
          vfio = fs_exists fs (rt @ ''/sys/module/vfio'');
          pci = fs_exists fs (rt @ ''/sys/module/vfio_pci'');
          type1 = fs_exists fs (rt @ ''/sys/module/vfio_iommu_type1'');
          d = ''vfio='' @ yn vfio @ '' vfio_pci='' @ yn pci @ '' vfio_iommu_type1='' @ yn type1
      in if vfio \<and> pci \<and> type1 then mk Pass d []
         else mk Warn d ''modprobe vfio-pci (only needed for PCI device passthrough).'')"

definition check_hugepages :: "files \<Rightarrow> string \<Rightarrow> check_result" where
  "check_hugepages fs rt =
     (let mk = mk_check ''hugepages'' ''Hugepages reserved'' in
      case fs_read fs (rt @ ''/proc/meminfo'') of
        None \<Rightarrow> mk Skip ''/proc/meminfo not readable'' []
      | Some info \<Rightarrow>
          (case meminfo_value info ''HugePages_Total'' of
             None \<Rightarrow> mk Skip ''HugePages_Total not reported'' []
           | Some tot \<Rightarrow>
               let d = ''HugePages_Total='' @ show_int tot @
                 (case meminfo_value info ''Hugepagesize'' of Some k \<Rightarrow> '', Hugepagesize='' @ show_int k @ '' kB'' | None \<Rightarrow> [])
               in if tot > 0 then mk Pass d []
                  else mk Warn d ''Reserve hugepages (vm.nr_hugepages) for lower-jitter, higher-throughput guests.''))"

subsection \<open>GPU isolation\<close>

definition is_display_class :: "string \<Rightarrow> bool" where
  "is_display_class c = starts_with ''0x03'' c"

definition is_bridge_class :: "string \<Rightarrow> bool" where
  "is_bridge_class c = starts_with ''0x06'' c"

definition is_audio_class :: "string \<Rightarrow> bool" where
  "is_audio_class c = starts_with ''0x0403'' c"

definition is_nvidia :: "iommu_device \<Rightarrow> bool" where
  "is_nvidia d \<longleftrightarrow> vendor d = ''0x10de''"

definition rank :: "check_status \<Rightarrow> nat" where
  "rank s = (if s = Fail then 3 else if s = Warn then 2 else if s = Pass then 1 else 0)"

definition bump :: "check_status \<Rightarrow> check_status \<Rightarrow> check_status" where
  "bump s worst = (if rank s > rank worst then s else worst)"

definition is_gpu :: "iommu_device \<Rightarrow> bool" where
  "is_gpu dev \<longleftrightarrow> is_nvidia dev \<and> is_display_class (pci_class dev)"

text \<open>The devices that a GPU of the group shares it with.\<close>

definition sharers :: "iommu_group \<Rightarrow> iommu_device \<Rightarrow> string list" where
  "sharers g dev =
     map bdf (filter (\<lambda>d. \<not> (bdf d = bdf dev) \<and> \<not> is_bridge_class (pci_class d) \<and>
       \<not> (is_nvidia d \<and> is_audio_class (pci_class d))) (devices g))"

record gpu_scan =
  sc_worst :: check_status
  sc_detail :: string
  sc_gpus :: nat

definition scan_device :: "iommu_group \<Rightarrow> iommu_device \<Rightarrow> gpu_scan \<Rightarrow> gpu_scan" where
  "scan_device g dev sc =
     (if \<not> is_gpu dev then sc
      else
        let others = sharers g dev;
            detail = (if sc_detail sc \<noteq> [] then sc_detail sc @ ''; '' else []) @
              bdf dev @ '' (group '' @ show_int (grp_id g) @ '', driver '' @
              (if driver dev = [] then ''none'' else driver dev) @ '')''
        in if others = []
           then \<lparr>sc_worst = bump Pass (sc_worst sc), sc_detail = detail, sc_gpus = Suc (sc_gpus sc)\<rparr>
           else \<lparr>sc_worst = bump Warn (sc_worst sc),
             sc_detail = detail @ '' shares its group with:'' @ concat (map (\<lambda>b. '' '' @ b) others),
             sc_gpus = Suc (sc_gpus sc)\<rparr>)"

definition scan_groups :: "iommu_group list \<Rightarrow> gpu_scan" where
  "scan_groups groups =
     fold (\<lambda>g. fold (scan_device g) (devices g)) groups \<lparr>sc_worst = Skip, sc_detail = [], sc_gpus = 0\<rparr>"

definition check_gpu_isolation :: "files \<Rightarrow> string \<Rightarrow> check_result option" where
  "check_gpu_isolation fs rt =
     map_option (\<lambda>groups.
       let mk = mk_check ''gpu_isolation'' ''NVIDIA GPU IOMMU isolation''; sc = scan_groups groups in
       if sc_gpus sc = 0 then mk Skip ''no NVIDIA display device found in any IOMMU group'' []
       else mk (sc_worst sc) (sc_detail sc)
         (if sc_worst sc = Warn
          then ''Endpoints sharing an IOMMU group must be passed through together. Try another slot or a platform with ACS support.''
          else []))
       (read_iommu_groups fs rt)"

subsection \<open>Confidential computing\<close>

definition probe :: "files \<Rightarrow> string \<Rightarrow> string \<Rightarrow> string \<Rightarrow> string \<Rightarrow> string" where
  "probe fs rt m param found =
     (case fs_read fs (rt @ ''/sys/module/'' @ m @ ''/parameters/'' @ param) of
        Some v \<Rightarrow>
          if param_enabled (trim v)
          then (if found \<noteq> [] then found @ '', '' else []) @ m @ ''.'' @ param
          else found
      | None \<Rightarrow> found)"

definition check_confidential_computing :: "files \<Rightarrow> string \<Rightarrow> check_result" where
  "check_confidential_computing fs rt =
     (let mk = mk_check ''confidential_computing'' ''Confidential computing support (SEV/TDX)'';
          f1 = probe fs rt ''kvm_amd'' ''sev'' [];
          f2 = probe fs rt ''kvm_amd'' ''sev_es'' f1;
          f3 = probe fs rt ''kvm_amd'' ''sev_snp'' f2;
          f4 = probe fs rt ''kvm_intel'' ''tdx'' f3;
          found = (if fs_exists fs (rt @ ''/dev/sev'') then (if f4 \<noteq> [] then f4 @ '', '' else []) @ ''/dev/sev'' else f4)
      in if found \<noteq> [] then mk Pass (''detected: '' @ found) []
         else mk Skip ''no SEV/SEV-ES/SEV-SNP/TDX indicators exposed by this kernel or CPU'' [])"

definition run_all :: "files \<Rightarrow> string \<Rightarrow> check_result list option" where
  "run_all fs rt =
     Option.bind (check_iommu fs rt) (\<lambda>iommu.
     Option.bind (check_gpu_isolation fs rt) (\<lambda>gpu.
     Some [check_kernel fs rt, check_cpu_virt fs rt, check_kvm_device fs rt, check_kvm_module fs rt,
       check_nested_virt fs rt, iommu, check_vfio_modules fs rt, check_hugepages fs rt, gpu,
       check_confidential_computing fs rt]))"

subsection \<open>Output\<close>

definition hex_digit :: "nat \<Rightarrow> char" where
  "hex_digit d = (if d < 10 then digit_char d else char_of (87 + d))"

definition json_esc :: "char \<Rightarrow> string" where
  "json_esc c =
     (if c = CHR 0x22 then [CHR 0x5C, CHR 0x22]
      else if c = CHR 0x5C then [CHR 0x5C, CHR 0x5C]
      else if c = CHR 0x0A then CHR 0x5C # ''n''
      else if c = CHR 0x0D then CHR 0x5C # ''r''
      else if c = CHR 0x09 then CHR 0x5C # ''t''
      else if of_char c < (0x20 :: nat)
      then CHR 0x5C # ''u00'' @ [hex_digit (of_char c div 16), hex_digit (of_char c mod 16)]
      else [c])"

definition json_escape :: "string \<Rightarrow> string" where
  "json_escape s = concat (map json_esc s)"

definition exit_code_for :: "check_result list \<Rightarrow> int" where
  "exit_code_for rs = (if list_ex (\<lambda>r. cr_status r = Fail) rs then 1 else 0)"

definition count_checks :: "check_result list \<Rightarrow> check_status \<Rightarrow> nat" where
  "count_checks rs s = length (filter (\<lambda>r. cr_status r = s) rs)"

definition render_checks :: "check_result list \<Rightarrow> string" where
  "render_checks rs =
     concat (map (\<lambda>r.
       ''['' @ show_status (cr_status r) @ ''] '' @ cr_title r @ '': '' @ cr_detail r @ nl @
       (if cr_remediation r \<noteq> [] \<and> (cr_status r = Warn \<or> cr_status r = Fail)
        then ''       -> '' @ cr_remediation r @ nl else [])) rs) @
     nl @ ''Summary: '' @ show_nat (count_checks rs Pass) @ '' passed, '' @ show_nat (count_checks rs Warn) @
     '' warnings, '' @ show_nat (count_checks rs Fail) @ '' failed, '' @ show_nat (count_checks rs Skip) @ '' skipped'' @ nl"

definition jstr :: "string \<Rightarrow> string" where
  "jstr s = CHR 0x22 # s @ [CHR 0x22]"

definition json_check :: "check_result \<Rightarrow> string" where
  "json_check r =
     ''    {'' @ jstr ''id'' @ '': '' @ jstr (json_escape (cr_id r)) @ '', '' @
     jstr ''title'' @ '': '' @ jstr (json_escape (cr_title r)) @ '', '' @
     jstr ''status'' @ '': '' @ jstr (show_status (cr_status r)) @ '', '' @
     jstr ''detail'' @ '': '' @ jstr (json_escape (cr_detail r)) @ '', '' @
     jstr ''remediation'' @ '': '' @ jstr (json_escape (cr_remediation r)) @ ''}''"

fun json_checks :: "check_result list \<Rightarrow> string" where
  "json_checks [] = []"
| "json_checks (r # rs) = json_check r @ (if rs \<noteq> [] then '','' else []) @ nl @ json_checks rs"

definition render_json :: "check_result list \<Rightarrow> string" where
  "render_json rs =
     ''{'' @ nl @ ''  '' @ jstr ''checks'' @ '': ['' @ nl @ json_checks rs @ ''  ],'' @ nl @ ''  '' @ jstr ''ok'' @ '': '' @
     (if exit_code_for rs = 0 then ''true'' else ''false'') @ nl @ ''}'' @ nl"

definition render_groups :: "iommu_group list \<Rightarrow> string" where
  "render_groups groups =
     (if groups = [] then ''No IOMMU groups found.'' @ nl
      else concat (map (\<lambda>g. ''IOMMU group '' @ show_int (grp_id g) @ nl @
        concat (map (\<lambda>d. ''  '' @ bdf d @ ''  vendor='' @ vendor d @ '' device='' @ device d @ '' class='' @ pci_class d @
          '' driver='' @ (if driver d = [] then ''-'' else driver d) @ nl) (devices g))) groups))"

subsection \<open>The program\<close>

definition plat_option_lines :: "string list" where
  "plat_option_lines =
     [''  --json       machine-readable output'',
      ''  --groups     also list IOMMU groups and their devices'',
      ''  --root DIR   read /proc and /sys from DIR (for testing against a fake tree)'']"

definition plat_usage :: "string \<Rightarrow> string" where
  "plat_usage argv0 =
     ''Usage: '' @ argv0 @ '' [--json] [--groups] [--root DIR]'' @ nl @ option_text plat_option_lines @
     ''Exit status: 0 = no failed checks, 1 = at least one failed check, 2 = usage error'' @ nl"

record plat_options =
  po_json :: bool
  po_groups :: bool
  po_root :: string

fun plat_args :: "plat_options \<Rightarrow> string list \<Rightarrow> int + plat_options" where
  "plat_args ops [] = Inr ops"
| "plat_args ops (a # rest) =
     (if a = ''--json'' then plat_args (ops\<lparr>po_json := True\<rparr>) rest
      else if a = ''--groups'' then plat_args (ops\<lparr>po_groups := True\<rparr>) rest
      else case rest of
        [] \<Rightarrow> if a = ''--help'' \<or> a = ''-h'' then Inl 0 else Inl 2
      | v # rest' \<Rightarrow>
          if a = ''--root'' then plat_args (ops\<lparr>po_root := v\<rparr>) rest'
          else if a = ''--help'' \<or> a = ''-h'' then Inl 0
          else Inl 2)"

text \<open>Exit status, standard output and standard error.\<close>

definition plat_main :: "files \<Rightarrow> string \<Rightarrow> string list \<Rightarrow> (int \<times> string \<times> string) option" where
  "plat_main fs argv0 args =
     (case plat_args \<lparr>po_json = False, po_groups = False, po_root = []\<rparr> args of
        Inl n \<Rightarrow> Some (n, [], plat_usage argv0)
      | Inr ops \<Rightarrow>
          Option.bind (run_all fs (checker_root (po_root ops))) (\<lambda>rs.
          Option.bind (if po_groups ops \<and> \<not> po_json ops then map_option render_groups (read_iommu_groups fs (po_root ops))
                       else Some []) (\<lambda>extra.
          Some (exit_code_for rs,
            (if po_json ops then render_json rs else render_checks rs) @
            (if po_groups ops \<and> \<not> po_json ops then nl @ extra else []), []))))"

end
