(* ===== verification/Usage_Texts.thy ===== *)
theory Usage_Texts
  imports Dtest_Mains Agent_Program Vmtest_Config Platcheck
begin

section \<open>The usage texts say what the parsers accept\<close>

text \<open>
  The four programs describe their options in a text that \<open>--help\<close> and usage errors print. Each text is compared with
  the parser it describes, and the defaults it names with the configuration the parser starts from.
\<close>

lemma documented_options:
  "documented ctl_option_lines =
     [''--jobs'', ''--agent'', ''--token'', ''--junit'', ''--connect-timeout'', ''--validate'', ''-h'', ''--help'']"
  "documented agent_option_lines =
     [''--listen'', ''--token'', ''--no-auth'', ''--allow'', ''--allow-any'', ''--slots'', ''--label'', ''-h'', ''--help'']"
  "documented vm_option_lines =
     [''--image'', ''--image-format'', ''--uri'', ''--work-dir'', ''--vcpus'', ''--memory-mib'', ''--boot-timeout'',
      ''--shutdown-timeout'', ''--iterations'', ''--filter'', ''--junit'', ''--list'', ''-h'', ''--help'']"
  "documented plat_option_lines = [''--json'', ''--groups'', ''--root'']"
  by code_simp+

lemma ctl_knows: "ctl_args prog ops [a] \<noteq> Inl (2, ''unknown option: '' @ a @ nl @ ctl_usage prog) \<longleftrightarrow> a \<in> set (documented ctl_option_lines)"
  by (auto simp: documented_options)

lemma agent_knows: "agent_parse prog ops [a] \<noteq> Inl (2, ''unknown option: '' @ a @ nl @ agent_usage prog) \<longleftrightarrow> a \<in> set (documented agent_option_lines)"
  by (auto simp: documented_options missing_value_def)

lemma vm_options_known:
  "list_all (\<lambda>w. pr_error (parse_args h c [w]) \<noteq> ''unknown option: '' @ w) (documented vm_option_lines)"
  unfolding documented_options by (simp add: parse_option_def text_option_def num_option_def)

lemma vm_knows: "pr_error (parse_args h c [a]) \<noteq> ''unknown option: '' @ a \<longleftrightarrow> a \<in> set (documented vm_option_lines)"
proof (cases "a \<in> set (documented vm_option_lines)")
  case True
  then show ?thesis using vm_options_known [of h c] by (simp only: list_all_iff) blast
next
  case False
  then have "parse_option c a [] = Inl (''unknown option: '' @ a)" "a \<noteq> ''-h''" "a \<noteq> ''--help''"
    by (simp_all add: documented_options parse_option_def)
  then show ?thesis using False by simp
qed

lemma plat_unknown:
  assumes "a \<notin> set (documented plat_option_lines)"
  shows "plat_args ops (a # rest) \<noteq> Inr ops'"
  using assms by (cases rest) (simp_all add: documented_options)

lemma plat_knows: "(\<exists>rest ops'. plat_args ops (a # rest) = Inr ops') \<longleftrightarrow> a \<in> set (documented plat_option_lines)"
proof
  have "list_all (\<lambda>w. \<exists>ops'. plat_args ops [w] = Inr ops') [''--json'', ''--groups'']" by simp
  moreover have "\<exists>ops'. plat_args ops [''--root'', ''r''] = Inr ops'" by simp
  moreover assume "a \<in> set (documented plat_option_lines)"
  ultimately show "\<exists>rest ops'. plat_args ops (a # rest) = Inr ops'"
    unfolding documented_options by (simp del: plat_args.simps) blast
qed (use plat_unknown in blast)

text \<open>
  The usage texts of the four programs are complete and true: an option is documented exactly when the program's parser
  knows it, for every text that could stand on the command line (\<open>platcheck\<close> knows in addition \<open>-h\<close> and \<open>--help\<close>, which
  its text leaves out).
\<close>

theorem usage_lists_options:
  "(a \<in> set (documented ctl_option_lines) \<longleftrightarrow>
      ctl_args prog ops [a] \<noteq> Inl (2, ''unknown option: '' @ a @ nl @ ctl_usage prog)) \<and>
   (a \<in> set (documented agent_option_lines) \<longleftrightarrow>
      agent_parse prog ag [a] \<noteq> Inl (2, ''unknown option: '' @ a @ nl @ agent_usage prog)) \<and>
   (a \<in> set (documented vm_option_lines) \<longleftrightarrow> pr_error (parse_args h c [a]) \<noteq> ''unknown option: '' @ a) \<and>
   (a \<in> set (documented plat_option_lines) \<longleftrightarrow> (\<exists>rest po'. plat_args po (a # rest) = Inr po')) \<and>
   plat_args po [''--help''] = Inl 0"
  unfolding ctl_knows agent_knows vm_knows plat_knows by simp

end
