(* ===== verification/Platcheck_Properties.thy ===== *)
theory Platcheck_Properties
  imports Platcheck
begin

section \<open>What the readiness checks mean\<close>

text \<open>
  When the program reports a host as ready, what the GPU check says about IOMMU groups, and that the
  parsers and the JSON report lose nothing.
\<close>

subsection \<open>Severity as a linear order\<close>

instantiation check_status :: linorder
begin

definition less_eq_check_status :: "check_status \<Rightarrow> check_status \<Rightarrow> bool" where
  "less_eq_check_status a b \<longleftrightarrow> rank a \<le> rank b"

definition less_check_status :: "check_status \<Rightarrow> check_status \<Rightarrow> bool" where
  "less_check_status a b \<longleftrightarrow> rank a < rank b"

instance
proof
  fix a b c :: check_status
  show "a < b \<longleftrightarrow> a \<le> b \<and> \<not> b \<le> a" by (auto simp: less_eq_check_status_def less_check_status_def)
  show "a \<le> a" by (simp add: less_eq_check_status_def)
  show "a \<le> b \<Longrightarrow> b \<le> c \<Longrightarrow> a \<le> c" by (simp add: less_eq_check_status_def)
  show "a \<le> b \<Longrightarrow> b \<le> a \<Longrightarrow> a = b"
    by (cases a; cases b) (auto simp: less_eq_check_status_def rank_def)
  show "a \<le> b \<or> b \<le> a" by (auto simp: less_eq_check_status_def)
qed

end

lemma bump_max: "bump s w = max s w"
  by (auto simp: bump_def max_def less_eq_check_status_def less_check_status_def rank_def)

lemma status_order: "Skip < Pass" "Pass < Warn" "Warn < Fail" "Skip \<le> s"
  by (auto simp: less_check_status_def less_eq_check_status_def rank_def)

subsection \<open>GPU isolation\<close>

definition gpu_status :: "iommu_group \<Rightarrow> iommu_device \<Rightarrow> check_status" where
  "gpu_status g dev = (if sharers g dev = [] then Pass else Warn)"

definition gpus :: "iommu_group list \<Rightarrow> (iommu_group \<times> iommu_device) list" where
  "gpus groups = concat (map (\<lambda>g. map (Pair g) (filter is_gpu (devices g))) groups)"

lemma scan_device_fields:
  "sc_worst (scan_device g dev sc) = (if is_gpu dev then max (gpu_status g dev) (sc_worst sc) else sc_worst sc)"
  "sc_gpus (scan_device g dev sc) = (if is_gpu dev then Suc (sc_gpus sc) else sc_gpus sc)"
  by (auto simp: scan_device_def Let_def bump_max gpu_status_def)

lemma scan_devices:
  "sc_worst (fold (scan_device g) ds sc) = fold max (map (gpu_status g) (filter is_gpu ds)) (sc_worst sc)"
  "sc_gpus (fold (scan_device g) ds sc) = length (filter is_gpu ds) + sc_gpus sc"
  by (induction ds arbitrary: sc) (auto simp: scan_device_fields)

lemma scan_all:
  "sc_worst (fold (\<lambda>g. fold (scan_device g) (devices g)) gs sc) =
     fold max (map (\<lambda>(g, d). gpu_status g d) (gpus gs)) (sc_worst sc)"
  "sc_gpus (fold (\<lambda>g. fold (scan_device g) (devices g)) gs sc) = length (gpus gs) + sc_gpus sc"
  by (induction gs arbitrary: sc) (auto simp: gpus_def scan_devices comp_def)

lemma fold_max_status: "fold max ss (s :: check_status) = Max (insert s (set ss))"
  by (simp add: Max.set_eq_fold flip: list.simps(15))

lemma gpu_status_cases:
  assumes "read_iommu_groups fs rt = Some groups" "check_gpu_isolation fs rt = Some r"
  shows "(cr_status r = Skip \<longleftrightarrow> gpus groups = []) \<and>
    (cr_status r = Warn \<longleftrightarrow> list_ex (\<lambda>(g, d). sharers g d \<noteq> []) (gpus groups)) \<and>
    (cr_status r = Pass \<longleftrightarrow> gpus groups \<noteq> [] \<and> list_all (\<lambda>(g, d). sharers g d = []) (gpus groups)) \<and>
    cr_status r \<noteq> Fail"
proof -
  let ?ss = "map (\<lambda>(g, d). gpu_status g d) (gpus groups)"
  have worst: "sc_worst (scan_groups groups) = Max (insert Skip (set ?ss))" "sc_gpus (scan_groups groups) = length (gpus groups)"
    by (simp_all add: scan_groups_def scan_all fold_max_status)
  have r: "cr_status r = (if gpus groups = [] then Skip else Max (insert Skip (set ?ss)))"
    using assms worst by (auto simp: check_gpu_isolation_def Let_def mk_check_def)
  have range: "set ?ss \<subseteq> {Pass, Warn}" by (auto simp: gpu_status_def)
  show ?thesis
  proof (cases "gpus groups = []")
    case True
    then show ?thesis using r by simp
  next
    case False
    then have ne: "set ?ss \<noteq> {}" by simp
    have m: "Max (insert Skip (set ?ss)) = (if Warn \<in> set ?ss then Warn else Pass)"
    proof (rule Max_eqI)
      show "y \<le> (if Warn \<in> set ?ss then Warn else Pass)" if "y \<in> insert Skip (set ?ss)" for y
      proof -
        have "y = Skip \<or> y = Pass \<or> (y = Warn \<and> Warn \<in> set ?ss)" using that range by blast
        then show ?thesis
          using status_order by (elim disjE conjE) (simp_all only: if_True split: if_split, simp_all add: less_imp_le)
      qed
      show "(if Warn \<in> set ?ss then Warn else Pass) \<in> insert Skip (set ?ss)"
      proof -
        obtain y where "y \<in> set ?ss" using ex_in_conv [THEN iffD2, OF ne] by (elim exE)
        then have "Warn \<in> set ?ss \<or> Pass \<in> set ?ss" using range by blast
        then show ?thesis by (simp only: insert_iff split: if_split) blast
      qed
    qed simp
    have "Warn \<in> set ?ss \<longleftrightarrow> list_ex (\<lambda>(g, d). sharers g d \<noteq> []) (gpus groups)"
      by (force simp: gpu_status_def list_ex_iff split: if_splits)
    then show ?thesis using r m False by (auto simp: list_all_iff list_ex_iff)
  qed
qed

lemma gpu_never_fails:
  "read_iommu_groups fs rt = Some groups \<Longrightarrow> check_gpu_isolation fs rt = Some r \<Longrightarrow> cr_status r \<noteq> Fail"
  using gpu_status_cases by blast

text \<open>
  Property C23. The GPU check reports a warning exactly if some NVIDIA display device shares its
  IOMMU group with a device that is neither a bridge nor NVIDIA audio, passes exactly if there are such display devices
  and all are isolated, is skipped exactly if there is none, and never fails the host.
\<close>

theorem gpu_isolation_verdict:
  assumes "read_iommu_groups fs rt = Some groups" "check_gpu_isolation fs rt = Some r"
  shows "(cr_status r = Skip \<longleftrightarrow> gpus groups = []) \<and>
    (cr_status r = Warn \<longleftrightarrow> list_ex (\<lambda>(g, d). sharers g d \<noteq> []) (gpus groups)) \<and>
    (cr_status r = Pass \<longleftrightarrow> gpus groups \<noteq> [] \<and> list_all (\<lambda>(g, d). sharers g d = []) (gpus groups)) \<and>
    cr_status r \<noteq> Fail"
  using assms by (rule gpu_status_cases)

definition demo_files :: files where
  "demo_files = \<lparr>fs_read = (\<lambda>p.
       if p = ''/proc/cpuinfo'' then Some (''flags : fpu vmx'' @ nl)
       else if p = ''/sys/bus/pci/devices/0000:01:00.0/vendor'' \<or> p = ''/sys/bus/pci/devices/0000:01:00.1/vendor''
       then Some (''0x10DE'' @ nl)
       else if p = ''/sys/bus/pci/devices/0000:01:00.0/class'' then Some (''0x030000'' @ nl)
       else if p = ''/sys/bus/pci/devices/0000:01:00.1/class'' then Some (''0x040300'' @ nl) else None),
     fs_exists = (\<lambda>p. p = ''/dev/kvm'' \<or> p = ''/sys/module/kvm_intel''), fs_rw = (\<lambda>p. True),
     fs_list = (\<lambda>p. if p = ''/sys/kernel/iommu_groups'' then Some [''7''] else
       if p = ''/sys/kernel/iommu_groups/7/devices'' then Some [''0000:01:00.1'', ''0000:01:00.0''] else None),
     fs_link_name = (\<lambda>p. None)\<rparr>"

definition demo_groups :: "iommu_group list" where
  "demo_groups = the (read_iommu_groups demo_files [])"

definition demo_gpu :: check_result where
  "demo_gpu = the (check_gpu_isolation demo_files [])"

theorem gpu_isolation_verdict_witness: "cr_status demo_gpu = Pass \<and> gpus demo_groups \<noteq> []"
proof -
  have g: "read_iommu_groups demo_files [] \<noteq> None" "check_gpu_isolation demo_files [] \<noteq> None"
    "cr_status demo_gpu = Pass"
    by code_simp+
  then have "read_iommu_groups demo_files [] = Some demo_groups" "check_gpu_isolation demo_files [] = Some demo_gpu"
    by (simp_all add: demo_groups_def demo_gpu_def)
  from gpu_isolation_verdict [OF this] g(3) show ?thesis by blast
qed

subsection \<open>Readiness\<close>

text \<open>
  Property C24. What makes a host ready: the exit status is 0 exactly if the CPU flags, where there are
  any to read, include vmx or svm, \<open>/dev/kvm\<close> exists, a KVM module is loaded and there is an IOMMU group. Everything
  else only warns.
\<close>

theorem host_ready_iff:
  assumes "read_iommu_groups fs rt = Some groups" "run_all fs rt = Some rs"
  shows "exit_code_for rs = 0 \<longleftrightarrow>
    (case fs_read fs (rt @ ''/proc/cpuinfo'') of None \<Rightarrow> True
     | Some info \<Rightarrow> cpuinfo_has_flags_line info \<longrightarrow> cpu_has_flag info ''vmx'' \<or> cpu_has_flag info ''svm'') \<and>
    fs_exists fs (rt @ ''/dev/kvm'') \<and>
    (fs_exists fs (rt @ ''/sys/module/kvm_intel'') \<or> fs_exists fs (rt @ ''/sys/module/kvm_amd'') \<or>
     fs_exists fs (rt @ ''/sys/module/kvm'')) \<and> groups \<noteq> []"
proof -
  obtain io gpu where io: "check_iommu fs rt = Some io" and gpu: "check_gpu_isolation fs rt = Some gpu"
    and rs: "rs = [check_kernel fs rt, check_cpu_virt fs rt, check_kvm_device fs rt, check_kvm_module fs rt,
       check_nested_virt fs rt, io, check_vfio_modules fs rt, check_hugepages fs rt, gpu,
       check_confidential_computing fs rt]"
    using assms(2) by (auto simp: run_all_def bind_eq_Some_conv)
  have 1: "cr_status (check_kernel fs rt) \<noteq> Fail"
    by (simp add: check_kernel_def mk_check_def split: option.split)
  have 2: "cr_status (check_cpu_virt fs rt) = Fail \<longleftrightarrow> \<not> (case fs_read fs (rt @ ''/proc/cpuinfo'') of None \<Rightarrow> True
     | Some info \<Rightarrow> cpuinfo_has_flags_line info \<longrightarrow> cpu_has_flag info ''vmx'' \<or> cpu_has_flag info ''svm'')"
    by (simp add: check_cpu_virt_def Let_def mk_check_def split: option.split)
  have 3: "cr_status (check_kvm_device fs rt) = Fail \<longleftrightarrow> \<not> fs_exists fs (rt @ ''/dev/kvm'')"
    by (simp add: check_kvm_device_def Let_def mk_check_def)
  have 4: "cr_status (check_kvm_module fs rt) = Fail \<longleftrightarrow> \<not> (fs_exists fs (rt @ ''/sys/module/kvm_intel'') \<or>
     fs_exists fs (rt @ ''/sys/module/kvm_amd'') \<or> fs_exists fs (rt @ ''/sys/module/kvm''))"
    by (simp add: check_kvm_module_def Let_def mk_check_def)
  have 5: "cr_status (nested_in fs rt ms) \<noteq> Fail" for ms
    by (induction ms) (auto simp: mk_check_def Let_def split: option.split)
  have 6: "cr_status io = Fail \<longleftrightarrow> groups = []"
    using io assms(1) by (cases "groups = []") (auto simp: check_iommu_def Let_def mk_check_def)
  have 7: "cr_status (check_vfio_modules fs rt) \<noteq> Fail"
    by (simp add: check_vfio_modules_def Let_def mk_check_def)
  have 8: "cr_status (check_hugepages fs rt) \<noteq> Fail"
    by (simp add: check_hugepages_def Let_def mk_check_def split: option.split)
  have 9: "cr_status gpu \<noteq> Fail"
    using gpu_never_fails [OF assms(1) gpu] .
  have 10: "cr_status (check_confidential_computing fs rt) \<noteq> Fail"
    by (simp add: check_confidential_computing_def Let_def mk_check_def)
  have "list_ex (\<lambda>r. cr_status r = Fail) rs \<longleftrightarrow> cr_status (check_cpu_virt fs rt) = Fail \<or>
      cr_status (check_kvm_device fs rt) = Fail \<or> cr_status (check_kvm_module fs rt) = Fail \<or> cr_status io = Fail"
    unfolding rs list_ex_iff list.set check_nested_virt_def using 1 5 7 8 9 10 by blast
  then show ?thesis unfolding exit_code_for_def 2 3 4 6 by (simp only: split: if_split) auto
qed

theorem host_ready_iff_witness: "exit_code_for (the (run_all demo_files [])) = 0"
proof -
  have g: "read_iommu_groups demo_files [] \<noteq> None" "run_all demo_files [] \<noteq> None" by code_simp+
  then have r: "read_iommu_groups demo_files [] = Some demo_groups" "run_all demo_files [] = Some (the (run_all demo_files []))"
    by (simp_all add: demo_groups_def)
  have "demo_groups \<noteq> []" "fs_exists demo_files ([] @ ''/dev/kvm'')" "fs_exists demo_files ([] @ ''/sys/module/kvm_intel'')"
    "map_option (\<lambda>info. cpu_has_flag info ''vmx'') (fs_read demo_files ([] @ ''/proc/cpuinfo'')) = Some True"
    by code_simp+
  then show ?thesis using host_ready_iff [OF r] by (auto split: option.splits)
qed

subsection \<open>JSON strings\<close>

definition hex_val :: "char \<Rightarrow> nat" where
  "hex_val c = (if of_char c < (58 :: nat) then of_char c - 48 else of_char c - 87)"

definition read_json :: "string \<Rightarrow> (char \<times> string) option" where
  "read_json s =
     (case s of
        [] \<Rightarrow> None
      | c # r \<Rightarrow>
          if c \<noteq> CHR 0x5C then (if c = CHR 0x22 \<or> of_char c < (0x20 :: nat) then None else Some (c, r))
          else case r of
            [] \<Rightarrow> None
          | e # r' \<Rightarrow>
              if e = CHR 0x22 \<or> e = CHR 0x5C then Some (e, r')
              else if e = CHR ''n'' then Some (CHR 0x0A, r')
              else if e = CHR ''r'' then Some (CHR 0x0D, r')
              else if e = CHR ''t'' then Some (CHR 0x09, r')
              else if e = CHR ''u'' then
                (case r' of
                   z # z' # h # l # r'' \<Rightarrow>
                     if z = CHR ''0'' \<and> z' = CHR ''0'' then Some (char_of (16 * hex_val h + hex_val l), r'') else None
                 | _ \<Rightarrow> None)
              else None)"

definition json_safe :: "char \<Rightarrow> bool" where
  "json_safe c \<longleftrightarrow> \<not> of_char c < (0x20 :: nat)"

lemma hex_round:
  assumes "d < 16"
  shows "hex_val (hex_digit d) = d" "json_safe (hex_digit d)"
  using assms by (auto simp: hex_val_def hex_digit_def of_char_digit json_safe_def)

lemma read_json_esc: "read_json (json_esc c @ rest) = Some (c, rest)"
proof (cases "c \<in> {CHR 0x22, CHR 0x5C, CHR 0x0A, CHR 0x0D, CHR 0x09}")
  case True
  then show ?thesis by (auto simp: json_esc_def read_json_def)
next
  case False
  show ?thesis
  proof (cases "of_char c < (0x20 :: nat)")
    case True
    let ?n = "of_char c :: nat"
    have "hex_val (hex_digit (?n div 16)) = ?n div 16" "hex_val (hex_digit (?n mod 16)) = ?n mod 16"
      using True by (auto intro: hex_round)
    then have "char_of (16 * hex_val (hex_digit (?n div 16)) + hex_val (hex_digit (?n mod 16))) = c" by simp
    then show ?thesis using True False by (simp add: json_esc_def read_json_def)
  next
    case large: False
    then show ?thesis using False by (simp add: json_esc_def read_json_def)
  qed
qed

lemma json_esc_safe: "list_all json_safe (json_esc c)"
proof (cases "of_char c < (0x20 :: nat)")
  case True
  then have "json_safe (hex_digit (of_char c div 16))" "json_safe (hex_digit (of_char c mod 16))"
    by (auto intro: hex_round(2))
  then show ?thesis by (simp add: json_esc_def) (simp add: json_safe_def)
next
  case False
  then show ?thesis by (simp add: json_esc_def) (simp add: json_safe_def)
qed

interpretation plat_json: escaper json_esc read_json "\<lambda>c. c" json_safe
  by unfold_locales (auto simp: read_json_esc json_esc_safe, simp add: json_esc_def split: if_splits)

text \<open>
  The JSON report loses nothing: an escaped string has no control characters, and a JSON reader
  that stops at an unescaped quote reads back exactly the original bytes.
\<close>

theorem json_escape_round_trip:
  "list_all json_safe (json_escape s) \<and> decode read_json (json_escape s) = Some s"
  unfolding json_escape_def using plat_json.escaped_safe plat_json.decode_escaped [of s] by simp

subsection \<open>Parsers\<close>

text \<open>
  \<open>/proc/meminfo\<close>: the value of a key is the number on its line, wherever the line stands, whatever
  blanks and unit surround the number, as long as no earlier line starts with the key.
\<close>

theorem meminfo_value_reads:
  assumes "list_all (\<lambda>l. CHR 0x0A \<notin> set l \<and> \<not> starts_with (key @ '':'') l) before"
    and "CHR 0x0A \<notin> set (key @ pad @ unit)" "list_all c_space pad" "unit = [] \<or> \<not> c_digit (hd unit)" "int n < 2 ^ 63"
  shows "meminfo_value (concat (map (\<lambda>l. l @ nl) before) @ (key @ '':'' @ pad @ show_nat n @ unit) @ nl @ after) key = Some (int n)"
proof -
  let ?l = "key @ '':'' @ pad @ show_nat n @ unit"
  have "CHR 0x0A \<notin> set (show_nat n)"
    using show_nat_c_digit [of n] by (auto simp: list_all_iff c_digit_def)
  then have l: "CHR 0x0A \<notin> set ?l" using assms(2) by simp
  have b: "list_all (\<lambda>l. CHR 0x0A \<notin> set l) before" "list_all (\<lambda>l. \<not> starts_with (key @ '':'') l) before"
    using assms(1) by (auto simp: list_all_iff)
  have "getlines (concat (map (\<lambda>l. l @ nl) before) @ ?l @ nl @ after) = before @ ?l # getlines after"
    unfolding getlines_lines [OF b(1)] getlines_line [OF l] ..
  moreover have "List.find (starts_with (key @ '':'')) (before @ ?l # getlines after) = Some ?l"
    using b(2) starts_with_append [of "key @ '':''" "pad @ show_nat n @ unit"] by (induction before) auto
  ultimately show ?thesis
    using read_long_show_nat [OF assms(3-5)] by (simp add: meminfo_value_def Let_def)
qed

theorem meminfo_value_reads_witness:
  "meminfo_value (''MemTotal: 5 kB'' @ nl @ ''HugePages_Total:      '' @ show_nat 16 @ '' x'' @ nl) ''HugePages_Total'' = Some 16"
  using meminfo_value_reads [of "''HugePages_Total''" "[''MemTotal: 5 kB'']" "''      ''" "'' x''" 16 "[]"]
  by (simp add: starts_with_def c_space_def c_digit_def)

end
