(* ===== verification/Platcheck_Order.thy ===== *)
theory Platcheck_Order
  imports Platcheck_Properties "HOL-Library.Multiset"
begin

section \<open>The order of directory listings does not matter\<close>

text \<open>
  \<open>directory_iterator\<close> lists a directory in an order of its own. The checks sort what they read, devices by address and groups
  by number, so that the report, its JSON form and the exit status of \<open>platcheck\<close> are functions of the host alone.
\<close>

text \<open>
  What the kernel's directories guarantee: no entry twice, and the groups have decimal names without leading zeros, so that
  different names are different numbers.
\<close>

definition groups_dir :: "string \<Rightarrow> string" where
  "groups_dir rt = rt @ ''/sys/kernel/iommu_groups''"

definition listings_ok :: "files \<Rightarrow> bool" where
  "listings_ok fs \<longleftrightarrow>
     (\<forall>p names. fs_list fs p = Some names \<longrightarrow> distinct names) \<and>
     (\<forall>rt names. fs_list fs (groups_dir rt) = Some names \<longrightarrow>
        list_all (\<lambda>name. group_name name \<longrightarrow> name = show_nat (read_nat name)) names)"

text \<open>The same directories, listed in another order.\<close>

definition relisted :: "(string \<Rightarrow> string list option) \<Rightarrow> (string \<Rightarrow> string list option) \<Rightarrow> bool" where
  "relisted l l' \<longleftrightarrow> (\<forall>p. map_option mset (l' p) = map_option mset (l p))"

lemma relistedD:
  assumes "relisted l l'"
  shows "l' p = None \<longleftrightarrow> l p = None" "l p = Some names \<Longrightarrow> \<exists>names'. l' p = Some names' \<and> mset names' = mset names"
proof -
  have eq: "map_option mset (l' p) = map_option mset (l p)" using assms by (simp add: relisted_def)
  then show "l' p = None \<longleftrightarrow> l p = None" by (cases "l p"; cases "l' p") simp_all
  show "\<exists>names'. l' p = Some names' \<and> mset names' = mset names" if "l p = Some names"
    using eq that by (cases "l' p") simp_all
qed

text \<open>Reading the groups is a map over their names, in any order.\<close>

lemma read_groups_map:
  "read_groups fs rt names =
     (if list_all (\<lambda>name. read_group fs rt name \<noteq> None) (filter group_name names)
      then Some (map (\<lambda>name. the (read_group fs rt name)) (filter group_name names)) else None)"
  by (induction names) auto

lemma read_group_id: "read_group fs rt name = Some g \<Longrightarrow> grp_id g = int (read_nat name)"
  by (auto simp: read_group_def stoi_def Let_def split: if_splits)

lemma relisted_fields:
  "fs_read (fs\<lparr>fs_list := l\<rparr>) = fs_read fs" "fs_exists (fs\<lparr>fs_list := l\<rparr>) = fs_exists fs"
  "fs_rw (fs\<lparr>fs_list := l\<rparr>) = fs_rw fs" "fs_link_name (fs\<lparr>fs_list := l\<rparr>) = fs_link_name fs" "fs_list (fs\<lparr>fs_list := l\<rparr>) = l"
  by simp_all

lemma read_device_relisted: "read_device (fs\<lparr>fs_list := l\<rparr>) = read_device fs"
  unfolding fun_eq_iff read_device_def read_trimmed_def relisted_fields by blast

lemma bdf_read_device [simp]: "bdf (read_device fs rt name) = name"
  by (simp add: read_device_def Let_def)

lemma read_group_relisted:
  assumes "listings_ok fs" "relisted (fs_list fs) l"
  shows "read_group (fs\<lparr>fs_list := l\<rparr>) rt name = read_group fs rt name"
proof -
  let ?p = "rt @ ''/sys/kernel/iommu_groups/'' @ name @ ''/devices''"
  have "sort_key bdf (map (read_device fs rt) (case l ?p of Some ds \<Rightarrow> ds | None \<Rightarrow> [])) =
      sort_key bdf (map (read_device fs rt) (case fs_list fs ?p of Some ds \<Rightarrow> ds | None \<Rightarrow> []))"
  proof (cases "fs_list fs ?p")
    case None
    then show ?thesis using relistedD(1) [OF assms(2), of ?p] by simp
  next
    case (Some ds)
    then obtain ds' where ds': "l ?p = Some ds'" "mset ds' = mset ds" using relistedD(2) [OF assms(2)] by blast
    have "sort_key bdf (map (read_device fs rt) ds') = sort_key bdf (map (read_device fs rt) ds)"
      by (rule sort_key_eq_sort_key) (auto simp: ds'(2) inj_on_def)
    then show ?thesis using Some ds'(1) by simp
  qed
  then show ?thesis unfolding read_group_def read_device_relisted relisted_fields by (rule arg_cong)
qed

lemma read_iommu_groups_relisted:
  assumes "listings_ok fs" "relisted (fs_list fs) l"
  shows "read_iommu_groups (fs\<lparr>fs_list := l\<rparr>) rt = read_iommu_groups fs rt"
proof (cases "fs_list fs (groups_dir rt)")
  case None
  then show ?thesis using relistedD(1) [OF assms(2), of "groups_dir rt"] by (simp add: read_iommu_groups_def groups_dir_def)
next
  case (Some names)
  then obtain names' where l: "l (groups_dir rt) = Some names'" and m: "mset names' = mset names"
    using relistedD(2) [OF assms(2)] by blast
  let ?ns = "filter group_name names" and ?ns' = "filter group_name names'" and ?g = "\<lambda>name. the (read_group fs rt name)"
  have same: "mset ?ns' = mset ?ns" "set ?ns' = set ?ns" using m by (simp_all add: mset_filter) (metis set_mset_mset m)
  have names: "name = show_nat (read_nat name)" if "name \<in> set ?ns" for name
    using assms(1) Some that by (auto simp: listings_ok_def list_all_iff)
  have "sort_key grp_id (map ?g ?ns') = sort_key grp_id (map ?g ?ns)"
    if all: "list_all (\<lambda>name. read_group fs rt name \<noteq> None) ?ns"
  proof (rule sort_key_eq_sort_key)
    have "grp_id (?g name) = int (read_nat name)" if "name \<in> set ?ns" for name
      using all that read_group_id [of fs rt name] by (auto simp: list_all_iff)
    then have "a = b" if "a \<in> set ?ns" "b \<in> set ?ns" "grp_id (?g a) = grp_id (?g b)" for a b
      using that names [OF that(1)] names [OF that(2)] by simp
    then show "inj_on grp_id (set (map ?g ?ns'))" using same(2) by (auto simp: inj_on_def)
  qed (simp add: m)
  moreover have "list_all (\<lambda>name. read_group fs rt name \<noteq> None) ?ns' \<longleftrightarrow> list_all (\<lambda>name. read_group fs rt name \<noteq> None) ?ns"
    using same(2) by (simp only: list_all_iff)
  ultimately show ?thesis
    using Some l by (simp add: read_iommu_groups_def groups_dir_def read_groups_map read_group_relisted [OF assms])
qed

text \<open>
  Property C25. The output and the exit status of \<open>platcheck\<close> do not depend on the order in which the system lists directories.
\<close>

theorem listing_order_irrelevant:
  assumes "listings_ok fs" "relisted (fs_list fs) l"
  shows "plat_main (fs\<lparr>fs_list := l\<rparr>) argv0 args = plat_main fs argv0 args"
proof -
  have nested: "nested_in (fs\<lparr>fs_list := l\<rparr>) rt ms = nested_in fs rt ms" for rt ms
    by (induction ms) (simp_all split: option.split)
  have all: "run_all (fs\<lparr>fs_list := l\<rparr>) rt = run_all fs rt" for rt
    unfolding run_all_def check_iommu_def check_gpu_isolation_def check_kernel_def check_cpu_virt_def check_kvm_device_def
      check_kvm_module_def check_nested_virt_def check_vfio_modules_def check_hugepages_def check_confidential_computing_def
      probe_def read_trimmed_def nested read_iommu_groups_relisted [OF assms] relisted_fields by (rule refl)
  show ?thesis unfolding plat_main_def read_iommu_groups_relisted [OF assms] all by (rule refl)
qed

text \<open>The demonstration host with its directories listed backwards.\<close>

theorem listing_order_irrelevant_witness:
  "plat_main (demo_files\<lparr>fs_list := map_option rev \<circ> fs_list demo_files\<rparr>) ''platcheck'' [''--json''] =
   plat_main demo_files ''platcheck'' [''--json'']"
proof (rule listing_order_irrelevant)
  show "relisted (fs_list demo_files) (map_option rev \<circ> fs_list demo_files)"
    by (simp add: relisted_def option.map_comp comp_def)
  have "show_nat (read_nat ''7'') = ''7''" "\<not> group_name ''0000:01:00.1''" "\<not> group_name ''0000:01:00.0''"
    by code_simp+
  then show "listings_ok demo_files"
    by (simp add: listings_ok_def demo_files_def)
qed

end
