(* ===== verification/Vmtest_Util.thy ===== *)
theory Vmtest_Util
  imports Escaping "HOL-Library.Word"
begin

section \<open>Utilities of the VM tests (vmtest/util.cpp)\<close>

text \<open>
  The base64 decoder for the guest agent's output and the XML escape of the VM test report. The decoder keeps
  up to 24 bits in an \<open>int\<close>, which its masks keep far from the 32-bit limit, so the model computes on \<open>int\<close>.
\<close>

unbundle bit_operations_syntax

subsection \<open>base64\<close>

definition kChars :: string where
  "kChars = ''ABCDEFGHIJKLMNOPQRSTUVWXYZabcdefghijklmnopqrstuvwxyz0123456789+/''"

fun find_char :: "char \<Rightarrow> string \<Rightarrow> nat option" where
  "find_char c [] = None"
| "find_char c (x # xs) = (if c = x then Some 0 else map_option Suc (find_char c xs))"

fun b64_loop :: "string \<Rightarrow> int \<Rightarrow> int \<Rightarrow> string" where
  "b64_loop [] val bits = []"
| "b64_loop (c # cs) val bits =
     (if c = CHR ''='' then []
      else case find_char c kChars of
        None \<Rightarrow> b64_loop cs val bits
      | Some pos \<Rightarrow>
          let val' = (push_bit 6 val + int pos) AND 0xFFFFFF;
              bits' = bits + 6
          in if bits' \<ge> 0
             then char_of (nat (drop_bit (nat bits') val' AND 0xFF)) # b64_loop cs val' (bits' - 8)
             else b64_loop cs val' bits')"

definition base64_decode :: "string \<Rightarrow> string" where
  "base64_decode s = b64_loop s 0 (- 8)"

subsection \<open>XML\<close>

definition vm_xml_esc :: "char \<Rightarrow> string" where
  "vm_xml_esc c =
     (if c = CHR ''&'' then ''&amp;''
      else if c = CHR ''<'' then ''&lt;''
      else if c = CHR ''>'' then ''&gt;''
      else if c = CHR 0x22 then ''&quot;''
      else if c = CHR 0x27 then ''&apos;''
      else [c])"

definition vm_xml_escape :: "string \<Rightarrow> string" where
  "vm_xml_escape s = concat (map vm_xml_esc s)"

text \<open>What cannot end an attribute or open a tag; control characters are not excluded.\<close>

definition markup_free :: "char \<Rightarrow> bool" where
  "markup_free c \<longleftrightarrow> c \<noteq> CHR ''<'' \<and> c \<noteq> CHR ''>'' \<and> c \<noteq> CHR 0x22 \<and> c \<noteq> CHR 0x27"

interpretation vm_xml: escaper vm_xml_esc read_xml "\<lambda>c. c" markup_free
  by unfold_locales (auto simp: vm_xml_esc_def read_xml_def markup_free_def starts_with_def)

text \<open>
  The escape of the VM report is inert for markup and read back unchanged, but unlike the one of the
  distributed runner it keeps control characters, which XML forbids.
\<close>

theorem vm_xml_escape_round_trip:
  "list_all markup_free (vm_xml_escape s) \<and> decode read_xml (vm_xml_escape s) = Some s \<and>
   \<not> list_all xml_safe (vm_xml_escape [CHR 0x01])"
proof -
  have "\<not> list_all xml_safe (vm_xml_escape [CHR 0x01])" by code_simp
  then show ?thesis
    unfolding vm_xml_escape_def using vm_xml.escaped_safe vm_xml.decode_escaped [of s] by simp
qed

subsection \<open>The base64 round trip\<close>

definition sym :: "nat \<Rightarrow> char" where
  "sym i = kChars ! i"

definition byte_val :: "char \<Rightarrow> nat" where
  "byte_val c = of_char c"

text \<open>The standard encoding (RFC 4648).\<close>

fun base64_encode :: "string \<Rightarrow> string" where
  "base64_encode [] = []"
| "base64_encode [x] =
     [sym (byte_val x div 4), sym (byte_val x mod 4 * 16), CHR ''='', CHR ''='']"
| "base64_encode [x, y] =
     [sym (byte_val x div 4), sym (byte_val x mod 4 * 16 + byte_val y div 16), sym (byte_val y mod 16 * 4), CHR ''='']"
| "base64_encode (x # y # z # s) =
     [sym (byte_val x div 4), sym (byte_val x mod 4 * 16 + byte_val y div 16),
      sym (byte_val y mod 16 * 4 + byte_val z div 64), sym (byte_val z mod 64)] @ base64_encode s"

lemma find_sym: "i < 64 \<Longrightarrow> find_char (sym i) kChars = Some i"
proof -
  have "list_all (\<lambda>i. find_char (sym i) kChars = Some i) [0..<64]" by code_simp
  then show "i < 64 \<Longrightarrow> ?thesis" by (auto simp: list_all_iff)
qed

lemma sym_no_pad: "i < 64 \<Longrightarrow> sym i \<noteq> CHR ''=''"
proof -
  have "find_char (CHR ''='') kChars = None" by code_simp
  then show "i < 64 \<Longrightarrow> ?thesis" using find_sym [of i] by force
qed

lemma b64_sym:
  assumes "i < 64"
  shows "b64_loop (sym i # cs) val bits =
    (if bits + 6 \<ge> 0
     then char_of (nat (drop_bit (nat (bits + 6)) ((val * 64 + int i) mod 2 ^ 24) mod 256)) #
       b64_loop cs ((val * 64 + int i) mod 2 ^ 24) (bits - 2)
     else b64_loop cs ((val * 64 + int i) mod 2 ^ 24) (bits + 6))"
proof -
  have m: "x AND 0xFFFFFF = x mod 2 ^ 24" "x AND 0xFF = x mod 256" for x :: int
    using take_bit_eq_mask [of 24 x] take_bit_eq_mask [of 8 x]
    by (simp_all add: mask_eq_exp_minus_1 take_bit_eq_mod)
  show ?thesis using assms find_sym [OF assms] sym_no_pad [OF assms]
    by (simp add: Let_def m push_bit_eq_mult algebra_simps)
qed

definition shift_in :: "int \<Rightarrow> nat \<Rightarrow> int" where
  "shift_in v i = (v * 64 + int i) mod 2 ^ 24"

lemma shift_shift: "shift_in (n mod 2 ^ 24) i = (n * 64 + int i) mod 2 ^ 24"
  unfolding shift_in_def by (metis mod_add_left_eq mod_mult_left_eq)

lemma low_byte:
  assumes "k \<le> 16"
  shows "drop_bit k (n mod 2 ^ 24) mod 256 = drop_bit k n mod (256 :: int)"
proof -
  have "take_bit 8 (drop_bit k (take_bit 24 n)) = take_bit 8 (drop_bit k n)"
  proof -
    have "8 \<le> 24 - k" using assms by simp
    then show ?thesis by (simp add: drop_bit_take_bit min_def)
  qed
  then show ?thesis by (simp add: take_bit_eq_mod)
qed

text \<open>The state after one, two, three and four symbols of a group, and the bytes it yields.\<close>

lemma group_values:
  fixes v :: int and x y z :: nat
  defines "a \<equiv> x div 4" and "b \<equiv> x mod 4 * 16 + y div 16" and "c \<equiv> y mod 16 * 4 + z div 64" and "d \<equiv> z mod 64"
  shows "shift_in (shift_in v a) b = (v * 4096 + 16 * int x + int (y div 16)) mod 2 ^ 24"
    "shift_in (shift_in (shift_in v a) b) c = (v * 262144 + 1024 * int x + 4 * int y + int (z div 64)) mod 2 ^ 24"
    "shift_in (shift_in (shift_in (shift_in v a) b) c) d =
      (v * 16777216 + 65536 * int x + 256 * int y + int z) mod 2 ^ 24"
proof -
  have x: "int x = int (x div 4) * 4 + int (x mod 4)" and y: "int y = int (y div 16) * 16 + int (y mod 16)"
    and z: "int z = int (z div 64) * 64 + int (z mod 64)"
    by (simp_all add: of_nat_div of_nat_mod)
  show 2: "shift_in (shift_in v a) b = (v * 4096 + 16 * int x + int (y div 16)) mod 2 ^ 24"
    unfolding shift_in_def [of v a] shift_shift unfolding a_def b_def using x by (simp add: algebra_simps)
  show 3: "shift_in (shift_in (shift_in v a) b) c = (v * 262144 + 1024 * int x + 4 * int y + int (z div 64)) mod 2 ^ 24"
    unfolding 2 shift_shift c_def using y by (simp add: algebra_simps)
  show "shift_in (shift_in (shift_in (shift_in v a) b) c) d =
      (v * 16777216 + 65536 * int x + 256 * int y + int z) mod 2 ^ 24"
    unfolding 3 shift_shift d_def using z by (simp add: algebra_simps)
qed

lemma group_bytes:
  assumes "x < 256" "y < 256" "z < 256"
  shows "drop_bit 4 ((v * 4096 + 16 * int x + int (y div 16)) mod 2 ^ 24) mod 256 = int x"
    "drop_bit 2 ((v * 262144 + 1024 * int x + 4 * int y + int (z div 64)) mod 2 ^ 24) mod 256 = int y"
    "drop_bit 0 ((v * 16777216 + 65536 * int x + 256 * int y + int z) mod 2 ^ 24) mod 256 = int z"
proof -
  have q: "int (y div 16) < 16" "0 \<le> int (y div 16)" "int (z div 64) < 4" "0 \<le> int (z div 64)"
    using assms by (simp_all add: zdiv_int)
  have "(v * 4096 + 16 * int x + int (y div 16)) div 16 = (int (y div 16) + 16 * (256 * v + int x)) div 16"
    by (simp add: algebra_simps)
  also have "\<dots> = 256 * v + int x" using q(1,2) by (simp add: div_pos_pos_trivial)
  finally have "(v * 4096 + 16 * int x + int (y div 16)) div 16 = 256 * v + int x" .
  then show "drop_bit 4 ((v * 4096 + 16 * int x + int (y div 16)) mod 2 ^ 24) mod 256 = int x"
    using assms(1) by (subst low_byte) (simp_all add: drop_bit_eq_div)
  have "(v * 262144 + 1024 * int x + 4 * int y + int (z div 64)) div 4 =
      (int (z div 64) + 4 * (65536 * v + 256 * int x + int y)) div 4"
    by (simp add: algebra_simps)
  also have "\<dots> = 65536 * v + 256 * int x + int y" using q(3,4) by (simp add: div_pos_pos_trivial)
  finally have "(v * 262144 + 1024 * int x + 4 * int y + int (z div 64)) div 4 = 65536 * v + 256 * int x + int y" .
  then have "drop_bit 2 (v * 262144 + 1024 * int x + 4 * int y + int (z div 64)) mod 256 = (65536 * v + 256 * int x + int y) mod 256"
    by (simp add: drop_bit_eq_div)
  also have "\<dots> = (int y + 256 * (256 * v + int x)) mod 256" by (simp add: algebra_simps)
  also have "\<dots> = int y mod 256" by (rule mod_mult_self2)
  also have "\<dots> = int y" using assms(2) by simp
  finally show "drop_bit 2 ((v * 262144 + 1024 * int x + 4 * int y + int (z div 64)) mod 2 ^ 24) mod 256 = int y"
    by (subst low_byte) simp_all
  have "(v * 16777216 + 65536 * int x + 256 * int y + int z) mod 256 = (int z + 256 * (65536 * v + 256 * int x + int y)) mod 256"
    by (simp add: algebra_simps)
  also have "\<dots> = int z mod 256" by (rule mod_mult_self2)
  also have "\<dots> = int z" using assms(3) by simp
  finally show "drop_bit 0 ((v * 16777216 + 65536 * int x + 256 * int y + int z) mod 2 ^ 24) mod 256 = int z"
    by (subst low_byte) simp_all
qed

lemma byte_val_lt: "byte_val c < 256"
  by (simp add: byte_val_def)

lemma sym_range:
  "byte_val x div 4 < 64" "byte_val x mod 4 * 16 + byte_val y div 16 < 64"
  "byte_val y mod 16 * 4 + byte_val z div 64 < 64" "byte_val z mod 64 < 64"
  using byte_val_lt [of x] byte_val_lt [of y] byte_val_lt [of z] by simp_all

lemma b64_steps:
  assumes "i < 64"
  shows "b64_loop (sym i # cs) v (- 8) = b64_loop cs (shift_in v i) (- 2)"
    "b64_loop (sym i # cs) v (- 2) = char_of (nat (drop_bit 4 (shift_in v i) mod 256)) # b64_loop cs (shift_in v i) (- 4)"
    "b64_loop (sym i # cs) v (- 4) = char_of (nat (drop_bit 2 (shift_in v i) mod 256)) # b64_loop cs (shift_in v i) (- 6)"
    "b64_loop (sym i # cs) v (- 6) = char_of (nat (drop_bit 0 (shift_in v i) mod 256)) # b64_loop cs (shift_in v i) (- 8)"
  unfolding b64_sym [OF assms] shift_in_def by simp_all

lemma b64_pad: "b64_loop (CHR ''='' # cs) v bits = []"
  by simp

lemma char_of_byte: "char_of (nat (int (byte_val x))) = x"
  by (simp add: byte_val_def)

lemma b64_two:
  "b64_loop (sym (byte_val x div 4) # sym (byte_val x mod 4 * 16 + y div 16) # cs) v (- 8) =
    x # b64_loop cs (shift_in (shift_in v (byte_val x div 4)) (byte_val x mod 4 * 16 + y div 16)) (- 4)"
  if "y < 256"
proof -
  have r: "byte_val x mod 4 * 16 + y div 16 < 64" using that by simp
  show ?thesis
    unfolding b64_steps(1) [OF sym_range(1)] b64_steps(2) [OF r] group_values(1)
      group_bytes(1) [OF byte_val_lt that that] char_of_byte ..
qed

lemma b64_three:
  "b64_loop (sym (byte_val x div 4) # sym (byte_val x mod 4 * 16 + byte_val y div 16) # sym (byte_val y mod 16 * 4 + z div 64) # cs) v (- 8) =
    x # y # b64_loop cs (shift_in (shift_in (shift_in v (byte_val x div 4)) (byte_val x mod 4 * 16 + byte_val y div 16))
      (byte_val y mod 16 * 4 + z div 64)) (- 6)"
  if "z < 256"
proof -
  have r: "byte_val y mod 16 * 4 + z div 64 < 64" using that by simp
  show ?thesis
    unfolding b64_two [OF byte_val_lt] b64_steps(3) [OF r] group_values(2)
      group_bytes(2) [OF byte_val_lt byte_val_lt that] char_of_byte ..
qed

lemma b64_group:
  "b64_loop (sym (byte_val x div 4) # sym (byte_val x mod 4 * 16 + byte_val y div 16) #
      sym (byte_val y mod 16 * 4 + byte_val z div 64) # sym (byte_val z mod 64) # cs) v (- 8) =
    x # y # z # b64_loop cs ((v * 16777216 + 65536 * int (byte_val x) + 256 * int (byte_val y) + int (byte_val z)) mod 2 ^ 24) (- 8)"
  unfolding b64_three [OF byte_val_lt] b64_steps(4) [OF sym_range(4)] group_values(3)
    group_bytes(3) [OF byte_val_lt byte_val_lt byte_val_lt] char_of_byte ..

lemma b64_encoded: "b64_loop (base64_encode s) v (- 8) = s"
proof (induction s arbitrary: v rule: base64_encode.induct)
  case (2 x)
  show ?case using b64_two [of 0 x "''==''" v] by (simp only: base64_encode.simps div_0 add_0_right b64_pad)
next
  case (3 x y)
  show ?case using b64_three [of 0 x y "''=''" v] by (simp only: base64_encode.simps div_0 add_0_right b64_pad)
next
  case (4 x y z s)
  show ?case by (simp only: base64_encode.simps append.simps b64_group "4.IH")
qed simp

text \<open>Characters outside the alphabet, such as line breaks, are skipped.\<close>

definition b64_char :: "char \<Rightarrow> bool" where
  "b64_char c \<longleftrightarrow> c = CHR ''='' \<or> find_char c kChars \<noteq> None"

lemma b64_filter: "b64_loop (filter b64_char t) v bits = b64_loop t v bits"
  by (induction t v bits rule: b64_loop.induct) (auto simp: b64_char_def Let_def split: option.splits)

text \<open>
  Decoding inverts the standard base64 encoding for every byte string, wherever line breaks or other
  characters outside the alphabet are inserted into the encoded text.
\<close>

theorem base64_round_trip:
  assumes "filter b64_char t = base64_encode s"
  shows "base64_decode t = s"
  using b64_filter [of t 0 "- 8"] b64_encoded [of s 0] assms by (simp add: base64_decode_def)

theorem base64_round_trip_witness: "base64_decode ([CHR 0x0A] @ ''aGVsbG8='' @ [CHR 0x0A]) = ''hello''"
proof -
  have "filter b64_char ([CHR 0x0A] @ ''aGVsbG8='' @ [CHR 0x0A]) = base64_encode ''hello''" by code_simp
  then show ?thesis by (rule base64_round_trip)
qed

end
