(* ===== verification/Vmtest_Virt.thy ===== *)
theory Vmtest_Virt
  imports Vmtest_Util Process
begin

section \<open>Virtual machines through libvirt (vmtest/virt.cpp)\<close>

unbundle bit_operations_syntax

text \<open>
  The harness talks to libvirt, to \<open>qemu-img\<close> and to the file system. What these answer is data of the model,
  the record \<open>virt_env\<close>; every answer may depend on how many calls were made before. The state keeps the
  members of \<open>Context\<close>, the local variable \<open>overlay\<close> of the soak test, and two effects: the overlay files
  on disk, and the domains that may be running: started, not destroyed and not seen stopped; \<open>vs_auto\<close> are those
  that were started with the AUTODESTROY flag, that is, tied to the connection. A computation either returns a value or throws:
  \<open>SkipTest\<close>, or any other exception, which the code only looks at through \<open>what()\<close>.
\<close>

datatype vm_exn = SkipTest string | StdError string

record vm_state =
  vs_tick :: nat
  vs_conn :: bool
  vs_vm :: "string option"
  vs_overlay :: string
  vs_local :: string
  vs_next_id :: "32 word"
  vs_files :: "string list"
  vs_domains :: "string list"
  vs_auto :: "string list"

definition initial_vm_state :: vm_state where
  "initial_vm_state =
     \<lparr>vs_tick = 0, vs_conn = False, vs_vm = None, vs_overlay = [], vs_local = [], vs_next_id = 0, vs_files = [],
      vs_domains = [], vs_auto = []\<rparr>"

subsection \<open>Computations\<close>

type_synonym 'a vm_run = "vm_state \<Rightarrow> (vm_exn + 'a) \<times> vm_state"

definition ret :: "'a \<Rightarrow> 'a vm_run" where
  "ret x = (\<lambda>s. (Inr x, s))"

definition throw :: "vm_exn \<Rightarrow> 'a vm_run" where
  "throw e = (\<lambda>s. (Inl e, s))"

definition next_do :: "'a vm_run \<Rightarrow> ('a \<Rightarrow> 'b vm_run) \<Rightarrow> 'b vm_run" where
  "next_do m f = (\<lambda>s. case m s of (Inl e, s') \<Rightarrow> (Inl e, s') | (Inr x, s') \<Rightarrow> f x s')"

definition try_catch :: "'a vm_run \<Rightarrow> (vm_exn \<Rightarrow> 'a vm_run) \<Rightarrow> 'a vm_run" where
  "try_catch m h = (\<lambda>s. case m s of (Inl e, s') \<Rightarrow> h e s' | (Inr x, s') \<Rightarrow> (Inr x, s'))"

definition get_state :: "vm_state vm_run" where
  "get_state = (\<lambda>s. (Inr s, s))"

definition modify :: "(vm_state \<Rightarrow> vm_state) \<Rightarrow> unit vm_run" where
  "modify f = (\<lambda>s. (Inr (), f s))"

text \<open>A call to the outside: the answer may depend on the number of calls made before.\<close>

definition ask :: "(nat \<Rightarrow> 'a) \<Rightarrow> 'a vm_run" where
  "ask f = (\<lambda>s. (Inr (f (vs_tick s)), s\<lparr>vs_tick := Suc (vs_tick s)\<rparr>))"

text \<open>
  What libvirt knows of its last error: a message, if it has one. A failed call throws \<open>VirtError\<close>, the message after a
  prefix.
\<close>

definition last_error :: "string option \<Rightarrow> string" where
  "last_error e = (case e of Some m \<Rightarrow> m | None \<Rightarrow> ''unknown libvirt error'')"

definition check_call :: "string \<Rightarrow> string option + 'a \<Rightarrow> 'a vm_run" where
  "check_call what r = (case r of Inl e \<Rightarrow> throw (StdError (what @ last_error e)) | Inr x \<Rightarrow> ret x)"

definition what_of :: "vm_exn \<Rightarrow> string" where
  "what_of e = (case e of SkipTest m \<Rightarrow> m | StdError m \<Rightarrow> m)"

subsection \<open>The outside\<close>

datatype state_answer = NoDomain | StateError "string option" | StateIs int

datatype domain_op = Suspend | Resume | Shutdown | Destroy

text \<open>
  \<open>ve_spawn\<close>: the wait status of a program, \<open>None\<close> if \<open>fork\<close> or \<open>waitpid\<close> fails. \<open>ve_wrote\<close>: whether
  \<open>qemu-img\<close> has created the file. \<open>ve_polls\<close>: how often a loop with this timeout and interval finds the
  deadline still ahead. \<open>ve_seconds\<close>: the duration between the clock readings of a test.
\<close>

record 'd virt_env =
  ve_open :: "nat \<Rightarrow> string \<Rightarrow> string option + unit"
  ve_create :: "nat \<Rightarrow> string \<Rightarrow> 32 word \<Rightarrow> string option + unit"
  ve_state :: "nat \<Rightarrow> string \<Rightarrow> state_answer"
  ve_op :: "nat \<Rightarrow> domain_op \<Rightarrow> string \<Rightarrow> string option + unit"
  ve_info :: "nat \<Rightarrow> string \<Rightarrow> string option + 64 word \<times> 16 word"
  ve_agent :: "nat \<Rightarrow> string \<Rightarrow> string \<Rightarrow> int \<Rightarrow> string option + string"
  ve_spawn :: "nat \<Rightarrow> string list \<Rightarrow> 32 word option"
  ve_wrote :: "nat \<Rightarrow> string \<Rightarrow> bool"
  ve_removed :: "nat \<Rightarrow> string \<Rightarrow> bool"
  ve_polls :: "nat \<Rightarrow> int \<Rightarrow> int \<Rightarrow> nat"
  ve_seconds :: "nat \<Rightarrow> nat \<Rightarrow> 'd"
  ve_pid :: nat
  ve_absolute :: "string \<Rightarrow> string"

subsection \<open>Domain states and the domain description\<close>

datatype dom_state =
  NoState | Running | Blocked | Paused | ShuttingDown | ShutOff | Crashed | PMSuspended | Gone

record domain_info =
  di_vcpus :: "32 word"
  di_memory_kib :: "64 word"

definition show_dom_state :: "dom_state \<Rightarrow> string" where
  "show_dom_state d =
     (case d of
        NoState \<Rightarrow> ''nostate'' | Running \<Rightarrow> ''running'' | Blocked \<Rightarrow> ''blocked'' | Paused \<Rightarrow> ''paused''
      | ShuttingDown \<Rightarrow> ''shutting-down'' | ShutOff \<Rightarrow> ''shut-off'' | Crashed \<Rightarrow> ''crashed''
      | PMSuspended \<Rightarrow> ''pm-suspended'' | Gone \<Rightarrow> ''gone'')"

text \<open>The numbers of \<open>virDomainState\<close>.\<close>

definition dom_state_of :: "int \<Rightarrow> dom_state" where
  "dom_state_of n =
     (if n = 1 then Running else if n = 2 then Blocked else if n = 3 then Paused else if n = 4 then ShuttingDown
      else if n = 5 then ShutOff else if n = 6 then Crashed else if n = 7 then PMSuspended else NoState)"

definition xml_attr :: "string \<Rightarrow> string \<Rightarrow> string" where
  "xml_attr k v = '' '' @ k @ ''='' @ sq v"

definition build_domain_xml :: "string \<Rightarrow> 32 word \<Rightarrow> 32 word \<Rightarrow> string \<Rightarrow> string \<Rightarrow> string" where
  "build_domain_xml name vcpus mem_mib disk_path disk_format =
     ''<domain'' @ xml_attr ''type'' ''kvm'' @ ''>'' @ nl @
     ''  <name>'' @ vm_xml_escape name @ ''</name>'' @ nl @
     ''  <memory'' @ xml_attr ''unit'' ''MiB'' @ ''>'' @ show_nat (unat mem_mib) @ ''</memory>'' @ nl @
     ''  <vcpu>'' @ show_nat (unat vcpus) @ ''</vcpu>'' @ nl @
     ''  <os>'' @ nl @
     ''    <type'' @ xml_attr ''arch'' ''x86_64'' @ xml_attr ''machine'' ''q35'' @ ''>hvm</type>'' @ nl @
     ''    <boot'' @ xml_attr ''dev'' ''hd'' @ ''/>'' @ nl @
     ''  </os>'' @ nl @
     ''  <features><acpi/><apic/></features>'' @ nl @
     ''  <cpu'' @ xml_attr ''mode'' ''host-passthrough'' @ ''/>'' @ nl @
     ''  <clock'' @ xml_attr ''offset'' ''utc'' @ ''/>'' @ nl @
     ''  <devices>'' @ nl @
     ''    <disk'' @ xml_attr ''type'' ''file'' @ xml_attr ''device'' ''disk'' @ ''>'' @ nl @
     ''      <driver'' @ xml_attr ''name'' ''qemu'' @ xml_attr ''type'' (vm_xml_escape disk_format) @ ''/>'' @ nl @
     ''      <source'' @ xml_attr ''file'' (vm_xml_escape disk_path) @ ''/>'' @ nl @
     ''      <target'' @ xml_attr ''dev'' ''vda'' @ xml_attr ''bus'' ''virtio'' @ ''/>'' @ nl @
     ''    </disk>'' @ nl @
     ''    <serial'' @ xml_attr ''type'' ''pty'' @ ''><target'' @ xml_attr ''port'' ''0'' @ ''/></serial>'' @ nl @
     ''    <console'' @ xml_attr ''type'' ''pty'' @ ''><target'' @ xml_attr ''type'' ''serial'' @ xml_attr ''port'' ''0'' @
       ''/></console>'' @ nl @
     ''    <channel'' @ xml_attr ''type'' ''unix'' @ ''>'' @ nl @
     ''      <target'' @ xml_attr ''type'' ''virtio'' @ xml_attr ''name'' ''org.qemu.guest_agent.0'' @ ''/>'' @ nl @
     ''    </channel>'' @ nl @
     ''    <memballoon'' @ xml_attr ''model'' ''virtio'' @ ''/>'' @ nl @
     ''  </devices>'' @ nl @
     ''</domain>'' @ nl"

subsection \<open>Domain operations\<close>

definition open_connection :: "'d virt_env \<Rightarrow> string \<Rightarrow> unit vm_run" where
  "open_connection env uri =
     next_do (ask (\<lambda>t. ve_open env t uri)) (check_call (''cannot connect to '' @ sq uri @ '': ''))"

text \<open>
  \<open>virDomainCreateXML\<close> and its flags (\<open>virDomainCreateFlags\<close>): a domain that is started with AUTODESTROY is
  destroyed by libvirt when the connection it was started on is closed.
\<close>

definition VIR_DOMAIN_START_AUTODESTROY :: "32 word" where
  "VIR_DOMAIN_START_AUTODESTROY = push_bit 1 1"

definition create_xml :: "'d virt_env \<Rightarrow> string \<Rightarrow> 32 word \<Rightarrow> string \<Rightarrow> (string option + unit) vm_run" where
  "create_xml env xml flags name =
     next_do (ask (\<lambda>t. ve_create env t xml flags)) (\<lambda>r.
     next_do (modify (\<lambda>s. case r of
         Inl e \<Rightarrow> s
       | Inr _ \<Rightarrow> s\<lparr>vs_domains := name # vs_domains s,
           vs_auto := (if flags AND VIR_DOMAIN_START_AUTODESTROY \<noteq> 0 then name # vs_auto s else vs_auto s)\<rparr>)) (\<lambda>_.
     ret r))"

definition create_transient :: "'d virt_env \<Rightarrow> string \<Rightarrow> string \<Rightarrow> string vm_run" where
  "create_transient env xml name =
     next_do (create_xml env xml VIR_DOMAIN_START_AUTODESTROY name) (\<lambda>r.
     next_do (check_call (''failed to start domain '' @ sq name @ '': '') r) (\<lambda>_.
     ret name))"

definition seen_stopped :: "state_answer \<Rightarrow> bool" where
  "seen_stopped a \<longleftrightarrow> a = NoDomain \<or> a = StateIs 5"

definition dom_state :: "'d virt_env \<Rightarrow> string \<Rightarrow> dom_state vm_run" where
  "dom_state env vm =
     next_do (ask (\<lambda>t. ve_state env t vm)) (\<lambda>a.
     next_do (modify (\<lambda>s. if seen_stopped a then s\<lparr>vs_domains := removeAll vm (vs_domains s)\<rparr> else s)) (\<lambda>_.
       case a of
         NoDomain \<Rightarrow> ret Gone
       | StateError e \<Rightarrow> throw (StdError (''virDomainGetState failed: '' @ last_error e))
       | StateIs n \<Rightarrow> ret (dom_state_of n)))"

definition dom_suspend :: "'d virt_env \<Rightarrow> string \<Rightarrow> unit vm_run" where
  "dom_suspend env vm = next_do (ask (\<lambda>t. ve_op env t Suspend vm)) (check_call ''suspend failed: '')"

definition dom_resume :: "'d virt_env \<Rightarrow> string \<Rightarrow> unit vm_run" where
  "dom_resume env vm = next_do (ask (\<lambda>t. ve_op env t Resume vm)) (check_call ''resume failed: '')"

definition dom_shutdown :: "'d virt_env \<Rightarrow> string \<Rightarrow> unit vm_run" where
  "dom_shutdown env vm = next_do (ask (\<lambda>t. ve_op env t Shutdown vm)) (check_call ''shutdown failed: '')"

definition dom_destroy :: "'d virt_env \<Rightarrow> string \<Rightarrow> unit vm_run" where
  "dom_destroy env vm =
     next_do (ask (\<lambda>t. ve_op env t Destroy vm)) (\<lambda>r.
     next_do (check_call ''destroy failed: '' r) (\<lambda>_.
     modify (\<lambda>s. s\<lparr>vs_domains := removeAll vm (vs_domains s)\<rparr>)))"

text \<open>\<open>virDomainInfo\<close> has the memory as an \<open>unsigned long\<close> and the number of CPUs as an \<open>unsigned short\<close>.\<close>

definition dom_info :: "'d virt_env \<Rightarrow> string \<Rightarrow> domain_info vm_run" where
  "dom_info env vm =
     next_do (ask (\<lambda>t. ve_info env t vm)) (\<lambda>r.
     next_do (check_call ''virDomainGetInfo failed: '' r) (\<lambda>(max_mem, nr_virt_cpu).
     ret \<lparr>di_vcpus = ucast nr_virt_cpu, di_memory_kib = max_mem\<rparr>))"

definition agent_command :: "'d virt_env \<Rightarrow> string \<Rightarrow> string \<Rightarrow> int \<Rightarrow> string vm_run" where
  "agent_command env vm cmd timeout =
     next_do (ask (\<lambda>t. ve_agent env t vm cmd timeout)) (check_call ''guest agent command failed: '')"

subsection \<open>Programs and polling (vmtest/util.cpp)\<close>

definition run_cmd :: "'d virt_env \<Rightarrow> string list \<Rightarrow> int vm_run" where
  "run_cmd env args =
     (if args = [] then ret (- 1)
      else next_do (ask (\<lambda>t. ve_spawn env t args)) (\<lambda>r.
        ret (case r of None \<Rightarrow> - 1
             | Some status \<Rightarrow> if wifexited status then sint (wexitstatus status) else - 1)))"

text \<open>The loop of \<open>wait_until\<close>: it returns what the last probe gave, and whether that was good.\<close>

fun poll :: "nat \<Rightarrow> ('a \<Rightarrow> bool) \<Rightarrow> 'a vm_run \<Rightarrow> (bool \<times> 'a) vm_run" where
  "poll 0 ok probe = next_do probe (\<lambda>x. ret (ok x, x))"
| "poll (Suc n) ok probe = next_do probe (\<lambda>x. if ok x then ret (True, x) else poll n ok probe)"

definition wait_for :: "'d virt_env \<Rightarrow> int \<Rightarrow> int \<Rightarrow> ('a \<Rightarrow> bool) \<Rightarrow> 'a vm_run \<Rightarrow> (bool \<times> 'a) vm_run" where
  "wait_for env timeout_ms interval_ms ok probe =
     next_do (ask (\<lambda>t. ve_polls env t timeout_ms interval_ms)) (\<lambda>n. poll n ok probe)"

definition wait_until :: "'d virt_env \<Rightarrow> int \<Rightarrow> int \<Rightarrow> bool vm_run \<Rightarrow> bool vm_run" where
  "wait_until env timeout_ms interval_ms pred =
     next_do (wait_for env timeout_ms interval_ms (\<lambda>b. b) pred) (\<lambda>(b, _). ret b)"

end
