(* ===== verification/Vmtest_Guest.thy ===== *)
theory Vmtest_Guest
  imports Vmtest_Virt Json_Values
begin

section \<open>Commands in the guest (vmtest/guest_exec.cpp)\<close>

text \<open>
  \<open>guest_exec\<close> starts a program through the guest agent and polls for its result; the replies are JSON. The
  JSON library is the record \<open>json_lib\<close>: parsing (\<open>None\<close> for text that is not JSON), printing, the conversion of
  doubles, and the text of the exception that a \<open>get\<close> of another type throws.
\<close>

record json_lib =
  jl_parse :: "string \<Rightarrow> json option"
  jl_dump :: "json \<Rightarrow> string"
  jl_float_long :: "64 word \<Rightarrow> int"
  jl_float_int :: "64 word \<Rightarrow> int"
  jl_type_error :: "string \<Rightarrow> json \<Rightarrow> string"

subsection \<open>Typed access\<close>

text \<open>
  \<open>get<long>\<close>, \<open>get<int>\<close> (which truncates to 32 bits and also takes a Boolean), \<open>get<bool>\<close> and
  \<open>get<std::string>\<close>.
\<close>

definition get_long :: "json_lib \<Rightarrow> json \<Rightarrow> vm_exn + int" where
  "get_long lib v =
     (case v of
        JInt w \<Rightarrow> Inr (sint w)
      | JUInt w \<Rightarrow> Inr (sint w)
      | JFloat w \<Rightarrow> Inr (jl_float_long lib w)
      | _ \<Rightarrow> Inl (StdError (jl_type_error lib ''number'' v)))"

definition get_int :: "json_lib \<Rightarrow> json \<Rightarrow> vm_exn + int" where
  "get_int lib v =
     (case v of
        JInt w \<Rightarrow> Inr (sint (ucast w :: 32 word))
      | JUInt w \<Rightarrow> Inr (sint (ucast w :: 32 word))
      | JFloat w \<Rightarrow> Inr (jl_float_int lib w)
      | JBool b \<Rightarrow> Inr (if b then 1 else 0)
      | _ \<Rightarrow> Inl (StdError (jl_type_error lib ''number'' v)))"

definition get_bool :: "json_lib \<Rightarrow> json \<Rightarrow> vm_exn + bool" where
  "get_bool lib v = (case v of JBool b \<Rightarrow> Inr b | _ \<Rightarrow> Inl (StdError (jl_type_error lib ''boolean'' v)))"

definition get_text :: "json_lib \<Rightarrow> json \<Rightarrow> vm_exn + string" where
  "get_text lib v = (case v of JString s \<Rightarrow> Inr s | _ \<Rightarrow> Inl (StdError (jl_type_error lib ''string'' v)))"

subsection \<open>Replies\<close>

record exec_result =
  er_exited :: bool
  er_exit_code :: int
  er_out :: string
  er_err :: string

definition default_exec_result :: exec_result where
  "default_exec_result = \<lparr>er_exited = False, er_exit_code = - 1, er_out = [], er_err = []\<rparr>"

definition parse_reply :: "json_lib \<Rightarrow> string \<Rightarrow> vm_exn + json" where
  "parse_reply lib txt =
     (case Option.bind (jl_parse lib txt) as_object of
        None \<Rightarrow> Inl (StdError (''guest agent returned invalid JSON: '' @ txt))
      | Some m \<Rightarrow>
          (case field (JObject m) ''error'' of
             None \<Rightarrow> Inr (JObject m)
           | Some e \<Rightarrow>
               (case field e ''desc'' of
                  None \<Rightarrow> Inl (StdError (''guest agent error: '' @ jl_dump lib e))
                | Some d \<Rightarrow> and_then (get_text lib d) (\<lambda>t. Inl (StdError (''guest agent error: '' @ t))))))"

definition decode_field :: "json \<Rightarrow> string \<Rightarrow> string" where
  "decode_field r key = (case Option.bind (field r key) as_string of None \<Rightarrow> [] | Some s \<Rightarrow> base64_decode s)"

text \<open>The object under \<open>return\<close>, if it is one.\<close>

definition return_object :: "json \<Rightarrow> json option" where
  "return_object j = map_option JObject (Option.bind (field j ''return'') as_object)"

definition parse_exec_pid :: "json_lib \<Rightarrow> string \<Rightarrow> vm_exn + int option" where
  "parse_exec_pid lib txt =
     and_then (parse_reply lib txt) (\<lambda>j.
       case Option.bind (return_object j) (\<lambda>r. field r ''pid'') of
         None \<Rightarrow> Inr None
       | Some v \<Rightarrow> and_then (get_long lib v) (\<lambda>p. Inr (Some p)))"

definition parse_exit_code :: "json_lib \<Rightarrow> json \<Rightarrow> vm_exn + int" where
  "parse_exit_code lib r =
     (case field r ''exitcode'' of
        Some v \<Rightarrow> get_int lib v
      | None \<Rightarrow>
          (case field r ''signal'' of
             Some v \<Rightarrow> and_then (get_int lib v) (\<lambda>n. Inr (128 + n))
           | None \<Rightarrow> Inr (er_exit_code default_exec_result)))"

definition parse_exec_status :: "json_lib \<Rightarrow> string \<Rightarrow> vm_exn + exec_result" where
  "parse_exec_status lib txt =
     and_then (parse_reply lib txt) (\<lambda>j.
       case return_object j of
         None \<Rightarrow> Inr default_exec_result
       | Some r \<Rightarrow>
           and_then (case field r ''exited'' of None \<Rightarrow> Inr False | Some v \<Rightarrow> get_bool lib v) (\<lambda>exited.
             if \<not> exited then Inr default_exec_result
             else and_then (parse_exit_code lib r) (\<lambda>code.
               Inr \<lparr>er_exited = True, er_exit_code = code, er_out = decode_field r ''out-data'',
                 er_err = decode_field r ''err-data''\<rparr>)))"

subsection \<open>Running a command\<close>

text \<open>A parsed reply inside a computation: the parser's exception is thrown.\<close>

definition from_sum :: "vm_exn + 'a \<Rightarrow> 'a vm_run" where
  "from_sum r = (case r of Inl e \<Rightarrow> throw e | Inr x \<Rightarrow> ret x)"

definition exec_command :: "string \<Rightarrow> string list \<Rightarrow> json" where
  "exec_command path args =
     JObject [(''arguments'', JObject [(''arg'', JArray (map JString args)), (''capture-output'', JBool True),
                (''path'', JString path)]),
              (''execute'', JString ''guest-exec'')]"

definition status_command :: "int \<Rightarrow> json" where
  "status_command pid =
     JObject [(''arguments'', JObject [(''pid'', JInt (word_of_int pid))]),
              (''execute'', JString ''guest-exec-status'')]"

definition guest_exec ::
  "'d virt_env \<Rightarrow> json_lib \<Rightarrow> string \<Rightarrow> string \<Rightarrow> string list \<Rightarrow> int \<Rightarrow> exec_result vm_run" where
  "guest_exec env lib vm path args timeout_s =
     next_do (agent_command env vm (jl_dump lib (exec_command path args)) 10) (\<lambda>reply.
     next_do (from_sum (parse_exec_pid lib reply)) (\<lambda>p.
       case p of
         None \<Rightarrow> throw (StdError ''guest-exec returned no pid'')
       | Some pid \<Rightarrow>
           next_do
             (wait_for env (1000 * timeout_s) 200 er_exited
               (next_do (agent_command env vm (jl_dump lib (status_command pid)) 10)
                 (\<lambda>txt. from_sum (parse_exec_status lib txt))))
             (\<lambda>(finished, res).
               if finished then ret res
               else throw (StdError (''guest command timed out after '' @ show_int timeout_s @ ''s: '' @ path)))))"

definition guest_sh :: "'d virt_env \<Rightarrow> json_lib \<Rightarrow> string \<Rightarrow> string \<Rightarrow> exec_result vm_run" where
  "guest_sh env lib vm script = guest_exec env lib vm ''/bin/sh'' [''-c'', script] 30"

end
