(* ===== verification/Vmtest_Tests.thy ===== *)
theory Vmtest_Tests
  imports Vmtest_Guest Vmtest_Config
begin

section \<open>The VM tests (vmtest/tests.cpp)\<close>

text \<open>
  \<open>Context\<close> shares one booted guest between the tests, each guest on a throwaway overlay disk; the test cases
  drive it; \<open>run_tests\<close> runs the selected ones and turns exceptions into results. Where C++ leaves the order of
  two calls in one statement open, the model takes the order of the text.
\<close>

subsection \<open>Helpers\<close>

definition vm_require :: "bool \<Rightarrow> string \<Rightarrow> unit vm_run" where
  "vm_require cond msg = (if cond then ret () else throw (StdError msg))"

definition require_eq :: "int \<Rightarrow> int \<Rightarrow> string \<Rightarrow> unit vm_run" where
  "require_eq actual expected what =
     (if actual = expected then ret ()
      else throw (StdError (what @ '': expected '' @ show_int expected @ '', got '' @ show_int actual)))"

definition ping :: string where
  "ping = ''{'' @ [CHR 0x22] @ ''execute'' @ [CHR 0x22] @ '':'' @ [CHR 0x22] @ ''guest-ping'' @ [CHR 0x22] @ ''}''"

definition agent_alive :: "'d virt_env \<Rightarrow> string \<Rightarrow> bool vm_run" where
  "agent_alive env vm =
     try_catch (next_do (agent_command env vm ping 2) (\<lambda>_. ret True)) (\<lambda>_. ret False)"

definition state_becomes :: "'d virt_env \<Rightarrow> string \<Rightarrow> dom_state \<Rightarrow> int \<Rightarrow> bool vm_run" where
  "state_becomes env vm want timeout_s =
     wait_until env (1000 * timeout_s) 200 (next_do (dom_state env vm) (\<lambda>d. ret (d = want)))"

subsection \<open>Context\<close>

definition connection :: "'d virt_env \<Rightarrow> vm_config \<Rightarrow> unit vm_run" where
  "connection env cfg =
     next_do get_state (\<lambda>s.
       if vs_conn s then ret ()
       else next_do (open_connection env (vc_uri cfg)) (\<lambda>_. modify (\<lambda>s. s\<lparr>vs_conn := True\<rparr>)))"

definition remove_file :: "'d virt_env \<Rightarrow> string \<Rightarrow> unit vm_run" where
  "remove_file env path =
     (if path = [] then ret ()
      else next_do (ask (\<lambda>t. ve_removed env t path)) (\<lambda>gone.
        modify (\<lambda>s. if gone then s\<lparr>vs_files := removeAll path (vs_files s)\<rparr> else s)))"

text \<open>\<open>fs::path(dir) / name\<close> for a relative name.\<close>

definition path_join :: "string \<Rightarrow> string \<Rightarrow> string" where
  "path_join dir name = (if dir = [] \<or> last dir = CHR ''/'' then dir @ name else dir @ ''/'' @ name)"

definition vm_name :: "'d virt_env \<Rightarrow> 32 word \<Rightarrow> string" where
  "vm_name env i = ''vmtest-'' @ show_nat (ve_pid env) @ ''-'' @ show_nat (unat i)"

definition overlay_path :: "'d virt_env \<Rightarrow> vm_config \<Rightarrow> 32 word \<Rightarrow> string" where
  "overlay_path env cfg i = path_join (vc_work_dir cfg) (vm_name env i @ ''.qcow2'')"

definition make_overlay :: "'d virt_env \<Rightarrow> vm_config \<Rightarrow> 32 word \<Rightarrow> string vm_run" where
  "make_overlay env cfg i =
     (let overlay = overlay_path env cfg i in
      next_do (run_cmd env [''qemu-img'', ''create'', ''-q'', ''-f'', ''qcow2'', ''-F'', vc_image_format cfg, ''-b'',
        ve_absolute env (vc_image cfg), overlay]) (\<lambda>rc.
      next_do (ask (\<lambda>t. ve_wrote env t overlay)) (\<lambda>wrote.
      next_do (modify (\<lambda>s. if rc = 0 \<or> wrote then s\<lparr>vs_files := overlay # vs_files s\<rparr> else s)) (\<lambda>_.
        if rc = 127 then throw (StdError ''qemu-img not found in PATH (install qemu-utils)'')
        else if rc \<noteq> 0
        then throw (StdError (''qemu-img create failed (rc='' @ show_int rc @ ''); check --image and --work-dir''))
        else ret overlay))))"

definition wait_for_agent :: "'d virt_env \<Rightarrow> vm_config \<Rightarrow> string \<Rightarrow> unit vm_run" where
  "wait_for_agent env cfg vm =
     next_do (wait_until env (1000 * vc_boot_timeout cfg) 2000 (agent_alive env vm)) (\<lambda>up.
       if up then ret ()
       else throw (StdError (''guest agent did not answer within '' @ show_int (vc_boot_timeout cfg) @
         ''s (is qemu-guest-agent installed and enabled in the image?)'')))"

text \<open>The two variables that \<open>overlay_out\<close> points to.\<close>

datatype overlay_slot = SharedOverlay | LocalOverlay

definition set_overlay :: "overlay_slot \<Rightarrow> string \<Rightarrow> unit vm_run" where
  "set_overlay slot path =
     modify (\<lambda>s. case slot of SharedOverlay \<Rightarrow> s\<lparr>vs_overlay := path\<rparr> | LocalOverlay \<Rightarrow> s\<lparr>vs_local := path\<rparr>)"

definition boot_fresh_vm :: "'d virt_env \<Rightarrow> vm_config \<Rightarrow> overlay_slot \<Rightarrow> string vm_run" where
  "boot_fresh_vm env cfg slot =
     next_do (modify (\<lambda>s. s\<lparr>vs_next_id := vs_next_id s + 1\<rparr>)) (\<lambda>_.
     next_do get_state (\<lambda>s.
     let i = vs_next_id s in
     next_do (make_overlay env cfg i) (\<lambda>overlay.
     next_do (set_overlay slot overlay) (\<lambda>_.
     try_catch
       (let name = vm_name env i in
        next_do (connection env cfg) (\<lambda>_.
        next_do (create_transient env (build_domain_xml name (vc_vcpus cfg) (vc_mem_mib cfg) overlay ''qcow2'') name) (\<lambda>vm.
        next_do (wait_for_agent env cfg vm) (\<lambda>_. ret vm))))
       (\<lambda>e. next_do (remove_file env overlay) (\<lambda>_. throw e))))))"

definition release_vm :: "'d virt_env \<Rightarrow> unit vm_run" where
  "release_vm env =
     next_do get_state (\<lambda>s.
     next_do
       (case vs_vm s of
          None \<Rightarrow> ret ()
        | Some vm \<Rightarrow>
            next_do
              (try_catch
                (next_do (dom_state env vm) (\<lambda>d. if d \<noteq> Gone \<and> d \<noteq> ShutOff then dom_destroy env vm else ret ()))
                (\<lambda>_. ret ())) (\<lambda>_.
            modify (\<lambda>s. s\<lparr>vs_vm := None\<rparr>))) (\<lambda>_.
     next_do (remove_file env (vs_overlay s)) (\<lambda>_.
     modify (\<lambda>s. s\<lparr>vs_overlay := []\<rparr>))))"

definition boot_shared :: "'d virt_env \<Rightarrow> vm_config \<Rightarrow> string vm_run" where
  "boot_shared env cfg =
     next_do (release_vm env) (\<lambda>_.
     next_do (boot_fresh_vm env cfg SharedOverlay) (\<lambda>vm.
     next_do (modify (\<lambda>s. s\<lparr>vs_vm := Some vm\<rparr>)) (\<lambda>_. ret vm)))"

definition ensure_vm :: "'d virt_env \<Rightarrow> vm_config \<Rightarrow> string vm_run" where
  "ensure_vm env cfg =
     next_do get_state (\<lambda>s.
       case vs_vm s of
         None \<Rightarrow> boot_shared env cfg
       | Some vm \<Rightarrow> next_do (dom_state env vm) (\<lambda>d. if d = Gone then boot_shared env cfg else ret vm))"

subsection \<open>Numbers in guest output\<close>

text \<open>\<open>std::stol\<close> and \<open>std::stoi\<close>: an exception without digits or out of range.\<close>

definition std_sto :: "string \<Rightarrow> int \<Rightarrow> string \<Rightarrow> vm_exn + int" where
  "std_sto fn limit s =
     (case leading_number s of
        None \<Rightarrow> Inl (StdError fn)
      | Some (i, rest) \<Rightarrow> if i < - limit \<or> i \<ge> limit then Inl (StdError fn) else Inr i)"

definition std_stol :: "string \<Rightarrow> vm_exn + int" where
  "std_stol s = std_sto ''stol'' (2 ^ 63) s"

definition std_stoi :: "string \<Rightarrow> vm_exn + int" where
  "std_stoi s = std_sto ''stoi'' (2 ^ 31) s"

subsection \<open>Test cases\<close>

definition t_boot_and_agent :: "'d virt_env \<Rightarrow> vm_config \<Rightarrow> unit vm_run" where
  "t_boot_and_agent env cfg =
     next_do (ensure_vm env cfg) (\<lambda>vm.
     next_do (dom_state env vm) (\<lambda>d.
     next_do (dom_state env vm) (\<lambda>d2.
     next_do (vm_require (d = Running) (''domain is not running after boot: '' @ show_dom_state d2)) (\<lambda>_.
     next_do (agent_alive env vm) (\<lambda>alive.
     next_do (vm_require alive ''guest agent stopped answering'') (\<lambda>_.
     next_do (dom_info env vm) (\<lambda>i.
     require_eq (uint (di_vcpus i)) (uint (vc_vcpus cfg)) ''vCPU count reported by libvirt'')))))))"

definition t_pause_resume :: "'d virt_env \<Rightarrow> vm_config \<Rightarrow> unit vm_run" where
  "t_pause_resume env cfg =
     next_do (ensure_vm env cfg) (\<lambda>vm.
     next_do (dom_suspend env vm) (\<lambda>_.
     next_do (state_becomes env vm Paused 10) (\<lambda>b.
     next_do (vm_require b (''domain did not reach '' @ sq ''paused'')) (\<lambda>_.
     next_do (dom_resume env vm) (\<lambda>_.
     next_do (state_becomes env vm Running 10) (\<lambda>b.
     next_do (vm_require b (''domain did not return to '' @ sq ''running'')) (\<lambda>_.
     next_do (wait_until env 30000 1000 (agent_alive env vm)) (\<lambda>b.
     vm_require b ''guest agent unreachable 30s after resume''))))))))"

definition t_vcpu_count :: "'d virt_env \<Rightarrow> json_lib \<Rightarrow> vm_config \<Rightarrow> unit vm_run" where
  "t_vcpu_count env lib cfg =
     next_do (ensure_vm env cfg) (\<lambda>vm.
     next_do (guest_sh env lib vm ''nproc'') (\<lambda>r.
     next_do (require_eq (er_exit_code r) 0 ''nproc exit code'') (\<lambda>_.
     next_do (from_sum (std_stoi (er_out r))) (\<lambda>n.
     require_eq n (sint (vc_vcpus cfg)) ''vCPUs visible inside the guest''))))"

definition t_memory :: "'d virt_env \<Rightarrow> json_lib \<Rightarrow> vm_config \<Rightarrow> unit vm_run" where
  "t_memory env lib cfg =
     next_do (ensure_vm env cfg) (\<lambda>vm.
     next_do (guest_sh env lib vm (''awk '' @ sq ''/^MemTotal:/ {print $2}'' @ '' /proc/meminfo'')) (\<lambda>r.
     next_do (require_eq (er_exit_code r) 0 ''meminfo read exit code'') (\<lambda>_.
     next_do (from_sum (std_stol (er_out r))) (\<lambda>guest_kib.
     let configured_kib = uint (vc_mem_mib cfg) * 1024 in
     next_do (vm_require (guest_kib \<le> configured_kib)
       (''guest reports more memory than configured ('' @ show_int guest_kib @ '' kiB)'')) (\<lambda>_.
     vm_require (guest_kib * 100 \<ge> configured_kib * 70)
       (''guest reports less than 70% of configured memory ('' @ show_int guest_kib @ '' kiB)''))))))"

definition t_hypervisor_flag :: "'d virt_env \<Rightarrow> json_lib \<Rightarrow> vm_config \<Rightarrow> unit vm_run" where
  "t_hypervisor_flag env lib cfg =
     next_do (ensure_vm env cfg) (\<lambda>vm.
     next_do (guest_sh env lib vm (''grep -m1 '' @ sq ''^flags'' @
       '' /proc/cpuinfo | grep -qw hypervisor && echo yes || echo no'')) (\<lambda>r.
     next_do (require_eq (er_exit_code r) 0 ''cpuinfo probe exit code'') (\<lambda>_.
     vm_require (starts_with ''yes'' (er_out r)) (''guest CPU does not advertise the '' @ sq ''hypervisor'' @ '' flag''))))"

definition t_exit_code :: "'d virt_env \<Rightarrow> json_lib \<Rightarrow> vm_config \<Rightarrow> unit vm_run" where
  "t_exit_code env lib cfg =
     next_do (ensure_vm env cfg) (\<lambda>vm.
     next_do (guest_sh env lib vm ''exit 7'') (\<lambda>r.
     next_do (vm_require (er_exited r) ''command did not finish'') (\<lambda>_.
     require_eq (er_exit_code r) 7 ''exit code propagated through the guest agent'')))"

definition t_stdout_capture :: "'d virt_env \<Rightarrow> json_lib \<Rightarrow> vm_config \<Rightarrow> unit vm_run" where
  "t_stdout_capture env lib cfg =
     next_do (ensure_vm env cfg) (\<lambda>vm.
     next_do (guest_sh env lib vm ''printf hello-vmtest; printf oops >&2'') (\<lambda>r.
     next_do (require_eq (er_exit_code r) 0 ''exit code'') (\<lambda>_.
     next_do (vm_require (er_out r = ''hello-vmtest'') (''stdout mismatch: '' @ sq (er_out r))) (\<lambda>_.
     vm_require (er_err r = ''oops'') (''stderr mismatch: '' @ sq (er_err r))))))"

definition t_graceful_shutdown :: "'d virt_env \<Rightarrow> vm_config \<Rightarrow> unit vm_run" where
  "t_graceful_shutdown env cfg =
     next_do (ensure_vm env cfg) (\<lambda>vm.
     next_do (dom_shutdown env vm) (\<lambda>_.
     next_do (wait_until env (1000 * vc_shutdown_timeout cfg) 1000
       (next_do (dom_state env vm) (\<lambda>d. ret (d = Gone \<or> d = ShutOff)))) (\<lambda>stopped.
     next_do (vm_require stopped (''guest did not shut down within '' @ show_int (vc_shutdown_timeout cfg) @ ''s'')) (\<lambda>_.
     release_vm env))))"

definition soak_body :: "'d virt_env \<Rightarrow> vm_config \<Rightarrow> nat \<Rightarrow> unit vm_run" where
  "soak_body env cfg i =
     next_do (boot_fresh_vm env cfg LocalOverlay) (\<lambda>vm.
     next_do (agent_alive env vm) (\<lambda>alive.
     next_do (vm_require alive (''iteration '' @ show_nat i @ '': guest agent not alive'')) (\<lambda>_.
     next_do (dom_destroy env vm) (\<lambda>_.
     next_do (state_becomes env vm Gone 15) (\<lambda>gone.
     next_do (if gone then ret True else next_do (dom_state env vm) (\<lambda>d. ret (d = ShutOff))) (\<lambda>ok.
     vm_require ok (''iteration '' @ show_nat i @ '': domain still present after destroy'')))))))"

text \<open>\<open>Context::remove_file(overlay)\<close> on the local variable.\<close>

definition remove_local :: "'d virt_env \<Rightarrow> unit vm_run" where
  "remove_local env = next_do get_state (\<lambda>s. remove_file env (vs_local s))"

definition soak_iteration :: "'d virt_env \<Rightarrow> vm_config \<Rightarrow> nat \<Rightarrow> unit vm_run" where
  "soak_iteration env cfg i =
     next_do (set_overlay LocalOverlay []) (\<lambda>_.
     next_do
       (try_catch (soak_body env cfg i) (\<lambda>e.
         next_do (remove_local env) (\<lambda>_.
         throw (StdError (''iteration '' @ show_nat i @ ''/'' @ show_int (vc_iterations cfg) @ '': '' @ what_of e))))) (\<lambda>_.
     remove_local env))"

fun soak_loop :: "'d virt_env \<Rightarrow> vm_config \<Rightarrow> nat list \<Rightarrow> unit vm_run" where
  "soak_loop env cfg [] = ret ()"
| "soak_loop env cfg (i # is) = next_do (soak_iteration env cfg i) (\<lambda>_. soak_loop env cfg is)"

definition t_boot_destroy_soak :: "'d virt_env \<Rightarrow> vm_config \<Rightarrow> unit vm_run" where
  "t_boot_destroy_soak env cfg =
     (if vc_iterations cfg \<le> 0 then throw (SkipTest ''pass --iterations N to enable the soak test'')
      else next_do (release_vm env) (\<lambda>_. soak_loop env cfg [1..<Suc (nat (vc_iterations cfg))]))"

subsection \<open>Running the tests\<close>

record test_case =
  tc_suite :: string
  tc_name :: string
  tc_fn :: "unit vm_run"

datatype test_outcome = TPassed | TFailed | TSkipped

record 'd test_result =
  tr_suite :: string
  tr_name :: string
  tr_outcome :: test_outcome
  tr_message :: string
  tr_seconds :: 'd

definition mk_test :: "string \<Rightarrow> string \<Rightarrow> unit vm_run \<Rightarrow> test_case" where
  "mk_test suite name fn = \<lparr>tc_suite = suite, tc_name = name, tc_fn = fn\<rparr>"

definition build_tests :: "'d virt_env \<Rightarrow> json_lib \<Rightarrow> vm_config \<Rightarrow> test_case list" where
  "build_tests env lib cfg =
     [mk_test ''lifecycle'' ''boot_and_agent_ping'' (t_boot_and_agent env cfg),
      mk_test ''lifecycle'' ''pause_resume'' (t_pause_resume env cfg),
      mk_test ''guest'' ''vcpu_count_matches'' (t_vcpu_count env lib cfg),
      mk_test ''guest'' ''memory_matches'' (t_memory env lib cfg),
      mk_test ''guest'' ''hypervisor_cpu_flag'' (t_hypervisor_flag env lib cfg),
      mk_test ''guest'' ''exit_code_propagates'' (t_exit_code env lib cfg),
      mk_test ''guest'' ''stdout_stderr_capture'' (t_stdout_capture env lib cfg),
      mk_test ''lifecycle'' ''graceful_shutdown'' (t_graceful_shutdown env cfg),
      mk_test ''stress'' ''boot_destroy_soak'' (t_boot_destroy_soak env cfg)]"

definition matches_filter :: "test_case \<Rightarrow> string \<Rightarrow> bool" where
  "matches_filter t flt \<longleftrightarrow> flt = [] \<or> contains flt (tc_suite t @ ''.'' @ tc_name t)"

definition outcome_of :: "vm_exn + unit \<Rightarrow> test_outcome \<times> string" where
  "outcome_of r =
     (case r of Inr _ \<Rightarrow> (TPassed, []) | Inl (SkipTest m) \<Rightarrow> (TSkipped, m) | Inl (StdError m) \<Rightarrow> (TFailed, m))"

definition run_test :: "'d virt_env \<Rightarrow> test_case \<Rightarrow> vm_state \<Rightarrow> 'd test_result \<times> vm_state" where
  "run_test env t s =
     (case tc_fn t s of (r, s') \<Rightarrow>
        (\<lparr>tr_suite = tc_suite t, tr_name = tc_name t, tr_outcome = fst (outcome_of r), tr_message = snd (outcome_of r),
          tr_seconds = ve_seconds env (vs_tick s) (vs_tick s')\<rparr>, s'))"

fun run_each :: "'d virt_env \<Rightarrow> string \<Rightarrow> test_case list \<Rightarrow> vm_state \<Rightarrow> 'd test_result list \<times> vm_state" where
  "run_each env flt [] s = ([], s)"
| "run_each env flt (t # ts) s =
     (if \<not> matches_filter t flt then run_each env flt ts s
      else case run_test env t s of (r, s') \<Rightarrow>
        (case run_each env flt ts s' of (rs, s'') \<Rightarrow> (r # rs, s'')))"

text \<open>\<open>release_vm\<close> swallows every exception, so it always returns.\<close>

definition run_tests :: "'d virt_env \<Rightarrow> vm_config \<Rightarrow> test_case list \<Rightarrow> vm_state \<Rightarrow> 'd test_result list \<times> vm_state" where
  "run_tests env cfg tests s =
     (case run_each env (vc_filter cfg) tests s of (rs, s') \<Rightarrow> (rs, snd (release_vm env s')))"

definition log_line :: "('d \<Rightarrow> string) \<Rightarrow> 'd test_result \<Rightarrow> string" where
  "log_line fmt r =
     ''['' @ (if tr_outcome r = TPassed then ''PASS'' else if tr_outcome r = TFailed then ''FAIL'' else ''SKIP'') @
     ''] '' @ tr_suite r @ ''.'' @ tr_name r @ '' ('' @ fmt (tr_seconds r) @ ''s)'' @
     (if tr_message r \<noteq> [] then '' - '' @ tr_message r else []) @ nl"

end
