(* ===== verification/Vmtest_Report.thy ===== *)
theory Vmtest_Report
  imports Vmtest_Tests
begin

section \<open>Report and program of the VM tests (vmtest/junit.cpp, vmtest/main.cpp)\<close>

text \<open>
  The JUnit report groups the results by suite, in the order in which the suites first appear. Durations are of
  the type parameter \<open>'d\<close>; adding them and printing them with three decimals are arguments.
\<close>

record 'd counts =
  n_tests :: int
  n_failures :: int
  n_skipped :: int
  n_seconds :: 'd

definition count_result :: "('d \<Rightarrow> 'd \<Rightarrow> 'd) \<Rightarrow> 'd counts \<Rightarrow> 'd test_result \<Rightarrow> 'd counts" where
  "count_result add c r =
     \<lparr>n_tests = n_tests c + 1,
      n_failures = n_failures c + (if tr_outcome r = TFailed then 1 else 0),
      n_skipped = n_skipped c + (if tr_outcome r = TSkipped then 1 else 0),
      n_seconds = add (n_seconds c) (tr_seconds r)\<rparr>"

definition count_results :: "('d \<Rightarrow> 'd \<Rightarrow> 'd) \<Rightarrow> 'd \<Rightarrow> 'd test_result list \<Rightarrow> 'd counts" where
  "count_results add zero rs =
     foldl (count_result add) \<lparr>n_tests = 0, n_failures = 0, n_skipped = 0, n_seconds = zero\<rparr> rs"

text \<open>The grouping: the order of the suites, and their results in a map.\<close>

definition group_step ::
  "'d test_result \<Rightarrow> string list \<times> (string, 'd test_result list) omap \<Rightarrow> string list \<times> (string, 'd test_result list) omap" where
  "group_step r g =
     (case omap_get (snd g) (tr_suite r) of
        None \<Rightarrow> (fst g @ [tr_suite r], omap_put (tr_suite r) [r] (snd g))
      | Some rs \<Rightarrow> (fst g, omap_put (tr_suite r) (rs @ [r]) (snd g)))"

definition group_by_suite ::
  "'d test_result list \<Rightarrow> string list \<times> (string, 'd test_result list) omap" where
  "group_by_suite results = fold group_step results ([], [])"

text \<open>\<open>by_suite[suite]\<close>\<close>

definition suite_results :: "string list \<times> (string, 'd test_result list) omap \<Rightarrow> string \<Rightarrow> 'd test_result list" where
  "suite_results g suite = (case omap_get (snd g) suite of None \<Rightarrow> [] | Some rs \<Rightarrow> rs)"

definition qattr :: "string \<Rightarrow> string \<Rightarrow> string" where
  "qattr k v = '' '' @ k @ ''='' @ [CHR 0x22] @ v @ [CHR 0x22]"

definition count_attrs :: "('d \<Rightarrow> string) \<Rightarrow> string \<Rightarrow> 'd counts \<Rightarrow> string" where
  "count_attrs fmt name c =
     qattr ''name'' (vm_xml_escape name) @ qattr ''tests'' (show_int (n_tests c)) @
     qattr ''failures'' (show_int (n_failures c)) @ qattr ''skipped'' (show_int (n_skipped c)) @
     qattr ''time'' (fmt (n_seconds c))"

definition render_case :: "('d \<Rightarrow> string) \<Rightarrow> 'd test_result \<Rightarrow> string" where
  "render_case fmt r =
     ''    <testcase'' @ qattr ''classname'' (vm_xml_escape (tr_suite r)) @ qattr ''name'' (vm_xml_escape (tr_name r)) @
     qattr ''time'' (fmt (tr_seconds r)) @
     (case tr_outcome r of
        TPassed \<Rightarrow> ''/>'' @ nl
      | TFailed \<Rightarrow> ''>'' @ nl @ ''      <failure'' @ qattr ''message'' (vm_xml_escape (tr_message r)) @ ''/>'' @ nl @
          ''    </testcase>'' @ nl
      | TSkipped \<Rightarrow> ''>'' @ nl @ ''      <skipped'' @ qattr ''message'' (vm_xml_escape (tr_message r)) @ ''/>'' @ nl @
          ''    </testcase>'' @ nl)"

definition render_suite ::
  "('d \<Rightarrow> string) \<Rightarrow> ('d \<Rightarrow> 'd \<Rightarrow> 'd) \<Rightarrow> 'd \<Rightarrow> string list \<times> (string, 'd test_result list) omap \<Rightarrow> string \<Rightarrow> string" where
  "render_suite fmt add zero g suite =
     ''  <testsuite'' @ count_attrs fmt suite (count_results add zero (suite_results g suite)) @ ''>'' @ nl @
     concat (map (render_case fmt) (suite_results g suite)) @
     ''  </testsuite>'' @ nl"

definition vm_render_junit ::
  "('d \<Rightarrow> string) \<Rightarrow> ('d \<Rightarrow> 'd \<Rightarrow> 'd) \<Rightarrow> 'd \<Rightarrow> string \<Rightarrow> 'd test_result list \<Rightarrow> string" where
  "vm_render_junit fmt add zero run_name results =
     (let g = group_by_suite results in
      ''<?xml'' @ qattr ''version'' ''1.0'' @ qattr ''encoding'' ''UTF-8'' @ ''?>'' @ nl @
      ''<testsuites'' @ count_attrs fmt run_name (count_results add zero results) @ ''>'' @ nl @
      concat (map (render_suite fmt add zero g) (fst g)) @
      ''</testsuites>'' @ nl)"

subsection \<open>The program\<close>

record 'd vm_exit =
  vx_status :: int
  vx_out :: string
  vx_err :: string
  vx_results :: "'d test_result list"
  vx_junit :: "string option"
  vx_state :: vm_state

text \<open>A return before the context is built.\<close>

definition vm_stopped :: "int \<Rightarrow> string \<Rightarrow> string \<Rightarrow> 'd vm_exit" where
  "vm_stopped n out err =
     \<lparr>vx_status = n, vx_out = out, vx_err = err, vx_results = [], vx_junit = None, vx_state = initial_vm_state\<rparr>"

definition count_outcome :: "test_outcome \<Rightarrow> 'd test_result list \<Rightarrow> nat" where
  "count_outcome oc rs = length (filter (\<lambda>r. tr_outcome r = oc) rs)"

abbreviation failed_tests :: "'d test_result list \<Rightarrow> nat" where
  "failed_tests \<equiv> count_outcome TFailed"

definition list_tests :: "test_case list \<Rightarrow> string" where
  "list_tests ts = concat (map (\<lambda>t. tc_suite t @ ''.'' @ tc_name t @ nl) ts)"

definition vm_summary :: "('d \<Rightarrow> string) \<Rightarrow> 'd test_result list \<Rightarrow> string" where
  "vm_summary fmt1 rs =
     concat (map (log_line fmt1) rs) @ nl @ show_nat (length rs) @ '' tests, '' @ show_nat (count_outcome TFailed rs) @
     '' failed, '' @ show_nat (count_outcome TSkipped rs) @ '' skipped'' @ nl"

text \<open>\<open>fmt1\<close> and \<open>fmt\<close> print a duration with one and with three decimals.\<close>

definition vm_main ::
  "string \<Rightarrow> 'd virt_env \<Rightarrow> json_lib \<Rightarrow> (string \<Rightarrow> bool) \<Rightarrow> (string \<Rightarrow> bool) \<Rightarrow> ('d \<Rightarrow> string) \<Rightarrow> ('d \<Rightarrow> string)
     \<Rightarrow> ('d \<Rightarrow> 'd \<Rightarrow> 'd) \<Rightarrow> 'd \<Rightarrow> string list \<Rightarrow> 'd vm_exit" where
  "vm_main prog env lib exists writable fmt1 fmt add zero args =
     (let parsed = parse_command_line args; cfg = pr_cfg parsed; tests = build_tests env lib cfg in
      if pr_help parsed then vm_stopped 0 (usage_text prog) []
      else if pr_error parsed \<noteq> [] then vm_stopped 2 [] (''error: '' @ pr_error parsed @ nl @ nl @ usage_text prog)
      else if vc_list cfg then vm_stopped 0 (list_tests tests) []
      else if vc_image cfg = [] then vm_stopped 2 [] (''error: --image is required'' @ nl @ nl @ usage_text prog)
      else if \<not> exists (vc_image cfg) then vm_stopped 2 [] (''error: image not found: '' @ vc_image cfg @ nl)
      else case run_tests env cfg tests initial_vm_state of (results, s) \<Rightarrow>
        if vc_junit cfg \<noteq> [] \<and> \<not> writable (vc_junit cfg)
        then \<lparr>vx_status = 2, vx_out = vm_summary fmt1 results, vx_err = ''error: cannot write '' @ vc_junit cfg @ nl,
          vx_results = results, vx_junit = None, vx_state = s\<rparr>
        else \<lparr>vx_status = (if failed_tests results = 0 then 0 else 1),
          vx_out = vm_summary fmt1 results @
            (if vc_junit cfg \<noteq> [] then ''JUnit report written to '' @ vc_junit cfg @ nl else []),
          vx_err = [], vx_results = results,
          vx_junit = (if vc_junit cfg \<noteq> [] then Some (vm_render_junit fmt add zero ''vmtest'' results) else None),
          vx_state = s\<rparr>)"

end
