(* ===== verification/Vmtest_Wp.thy ===== *)
theory Vmtest_Wp
  imports Vmtest_Report
begin

section \<open>Reasoning about the VM tests\<close>

text \<open>
  Weakest preconditions for computations that return or throw, as rewrite rules (the collection \<open>wp_simps\<close>),
  and the frame rule: a state predicate that stays true as the call counter grows, the connection opens and domains
  stop is kept by everything that only talks to libvirt and to the guest.
\<close>

named_theorems wp_simps
named_theorems keeps_rules

definition wp :: "'a vm_run \<Rightarrow> ('a \<Rightarrow> vm_state \<Rightarrow> bool) \<Rightarrow> (vm_exn \<Rightarrow> vm_state \<Rightarrow> bool) \<Rightarrow> vm_state \<Rightarrow> bool" where
  "wp m Q E s = (case m s of (Inl e, s') \<Rightarrow> E e s' | (Inr x, s') \<Rightarrow> Q x s')"

lemma wp_ret [wp_simps]: "wp (ret x) Q E s = Q x s"
  by (simp add: wp_def ret_def)

lemma wp_throw [wp_simps]: "wp (throw e) Q E s = E e s"
  by (simp add: wp_def throw_def)

lemma wp_next_do [wp_simps]: "wp (next_do m f) Q E s = wp m (\<lambda>x. wp (f x) Q E) E s"
  by (simp add: wp_def next_do_def split: prod.splits sum.splits)

lemma wp_try_catch [wp_simps]: "wp (try_catch m h) Q E s = wp m Q (\<lambda>e. wp (h e) Q E) s"
  by (simp add: wp_def try_catch_def split: prod.splits sum.splits)

lemma wp_get_state [wp_simps]: "wp get_state Q E s = Q s s"
  by (simp add: wp_def get_state_def)

lemma wp_modify [wp_simps]: "wp (modify f) Q E s = Q () (f s)"
  by (simp add: wp_def modify_def)

lemma wp_ask [wp_simps]: "wp (ask f) Q E s = Q (f (vs_tick s)) (s\<lparr>vs_tick := Suc (vs_tick s)\<rparr>)"
  by (simp add: wp_def ask_def)

lemma wp_mono: "wp m Q E s \<Longrightarrow> (\<And>x s. Q x s \<Longrightarrow> Q' x s) \<Longrightarrow> (\<And>e s. E e s \<Longrightarrow> E' e s) \<Longrightarrow> wp m Q' E' s"
  by (auto simp: wp_def split: prod.splits sum.splits)

lemma wp_final: "wp m (\<lambda>_. P) (\<lambda>_. P) s \<Longrightarrow> P (snd (m s))"
  by (auto simp: wp_def split: prod.splits sum.splits)

definition keeps :: "(vm_state \<Rightarrow> bool) \<Rightarrow> 'a vm_run \<Rightarrow> bool" where
  "keeps P m \<longleftrightarrow> (\<forall>s. P s \<longrightarrow> wp m (\<lambda>_. P) (\<lambda>_. P) s)"

lemma keepsI: "(\<And>s. P s \<Longrightarrow> wp m (\<lambda>_. P) (\<lambda>_. P) s) \<Longrightarrow> keeps P m"
  by (simp add: keeps_def)

lemma keepsD: "keeps P m \<Longrightarrow> P s \<Longrightarrow> wp m (\<lambda>_. P) (\<lambda>_. P) s"
  by (simp add: keeps_def)

lemma keeps_final: "keeps P m \<Longrightarrow> P s \<Longrightarrow> P (snd (m s))"
  by (auto dest: keepsD wp_final)

lemma keeps_ret [keeps_rules]: "keeps P (ret x)"
  by (simp add: keeps_def wp_simps)

lemma keeps_throw [keeps_rules]: "keeps P (throw e)"
  by (simp add: keeps_def wp_simps)

lemma keeps_get_state [keeps_rules]: "keeps P get_state"
  by (simp add: keeps_def wp_simps)

lemma keeps_next_do [keeps_rules]: "keeps P m \<Longrightarrow> (\<And>x. keeps P (f x)) \<Longrightarrow> keeps P (next_do m f)"
  by (auto simp: keeps_def wp_simps intro: wp_mono)

lemma keeps_try_catch [keeps_rules]: "keeps P m \<Longrightarrow> (\<And>e. keeps P (h e)) \<Longrightarrow> keeps P (try_catch m h)"
  by (auto simp: keeps_def wp_simps intro: wp_mono)

lemma keeps_if [keeps_rules]: "keeps P m \<Longrightarrow> keeps P m' \<Longrightarrow> keeps P (if b then m else m')"
  by simp

lemma keeps_check_call [keeps_rules]: "keeps P (check_call what r)"
  by (auto simp: keeps_def check_call_def wp_simps split: sum.split)

lemma keeps_from_sum [keeps_rules]: "keeps P (from_sum r)"
  by (auto simp: keeps_def from_sum_def wp_simps split: sum.split)

lemma keeps_vm_require [keeps_rules]: "keeps P (vm_require b msg)"
  by (simp add: vm_require_def keeps_rules)

lemma keeps_require_eq [keeps_rules]: "keeps P (require_eq a b msg)"
  by (simp add: require_eq_def keeps_rules)

lemma keeps_poll: "keeps P probe \<Longrightarrow> keeps P (poll n ok probe)"
  by (induction n) (auto intro!: keeps_rules)

locale framed =
  fixes P :: "vm_state \<Rightarrow> bool"
  assumes frame_tick: "P s \<Longrightarrow> vs_tick s \<le> n \<Longrightarrow> P (s\<lparr>vs_tick := n\<rparr>)"
    and frame_conn: "P s \<Longrightarrow> P (s\<lparr>vs_conn := True\<rparr>)"
    and frame_stop: "P s \<Longrightarrow> P (s\<lparr>vs_domains := removeAll vm (vs_domains s)\<rparr>)"
begin

lemma frame_tick_stop: "P s \<Longrightarrow> vs_tick s \<le> n \<Longrightarrow> P (s\<lparr>vs_tick := n, vs_domains := removeAll vm (vs_domains s)\<rparr>)"
  using frame_stop [OF frame_tick [of s n], of vm] by simp

lemma frame_tick_conn: "P s \<Longrightarrow> vs_tick s \<le> n \<Longrightarrow> P (s\<lparr>vs_tick := n, vs_conn := True\<rparr>)"
  using frame_conn [OF frame_tick [of s n]] by simp

lemma keeps_ask: "keeps P (ask f)"
  by (auto simp: keeps_def wp_simps intro: frame_tick)

lemma keeps_wait_for: "keeps P probe \<Longrightarrow> keeps P (wait_for env a b ok probe)"
  by (auto simp: wait_for_def intro!: keeps_rules keeps_ask keeps_poll)

lemma keeps_wait_until: "keeps P probe \<Longrightarrow> keeps P (wait_until env a b probe)"
  by (auto simp: wait_until_def intro!: keeps_rules keeps_wait_for split: prod.split)

lemma keeps_dom_state: "keeps P (dom_state env vm)"
  by (auto simp: dom_state_def keeps_def wp_simps intro: frame_tick frame_tick_stop split: state_answer.split)

lemma keeps_dom_ops:
  "keeps P (dom_suspend env vm)" "keeps P (dom_resume env vm)" "keeps P (dom_shutdown env vm)"
  "keeps P (dom_destroy env vm)" "keeps P (dom_info env vm)" "keeps P (agent_command env vm cmd t)"
  "keeps P (run_cmd env args)"
  by (auto simp: dom_suspend_def dom_resume_def dom_shutdown_def dom_destroy_def dom_info_def agent_command_def
      run_cmd_def keeps_def wp_simps check_call_def intro: frame_tick frame_tick_stop
      split: sum.split)

lemma keeps_connection: "keeps P (connection env cfg)"
  by (auto simp: connection_def open_connection_def keeps_def wp_simps check_call_def
      intro: frame_tick frame_tick_conn split: sum.split)

lemma keeps_agent_alive: "keeps P (agent_alive env vm)"
  by (auto simp: agent_alive_def intro!: keeps_rules keeps_dom_ops)

lemma keeps_state_becomes: "keeps P (state_becomes env vm want t)"
  by (auto simp: state_becomes_def intro!: keeps_rules keeps_wait_until keeps_dom_state)

lemma keeps_wait_for_agent: "keeps P (wait_for_agent env cfg vm)"
  by (auto simp: wait_for_agent_def intro!: keeps_rules keeps_wait_until keeps_agent_alive)

lemma keeps_guest_sh: "keeps P (guest_sh env lib vm script)"
  by (auto simp: guest_sh_def guest_exec_def intro!: keeps_rules keeps_dom_ops keeps_wait_for
      split: option.split prod.split)

lemmas frame_rules = keeps_rules keeps_wait_until keeps_dom_state keeps_dom_ops keeps_connection
  keeps_agent_alive keeps_state_becomes keeps_wait_for_agent keeps_guest_sh

text \<open>\<open>release_vm\<close> stops the shared guest whatever the calls answer.\<close>

lemma wp_stop_guest:
  assumes "P s" "\<And>x s'. P s' \<Longrightarrow> Q x s'"
  shows "wp (try_catch (next_do (dom_state env vm)
      (\<lambda>d. if d \<noteq> Gone \<and> d \<noteq> ShutOff then dom_destroy env vm else ret ())) (\<lambda>_. ret ())) Q E s"
proof -
  have "keeps P (next_do (dom_state env vm) (\<lambda>d. if d \<noteq> Gone \<and> d \<noteq> ShutOff then dom_destroy env vm else ret ()))"
    by (intro frame_rules)
  then show ?thesis
    unfolding wp_try_catch wp_ret using assms(2) by (intro wp_mono [OF keepsD [where P = P, OF _ assms(1)]])
qed

text \<open>Whatever keeps the predicate when the shared guest is booted or released, every test keeps it.\<close>

lemma keeps_tests:
  assumes "keeps P (ensure_vm env cfg)" "keeps P (release_vm env)" "keeps P (t_boot_destroy_soak env cfg)"
    and "t \<in> set (build_tests env lib cfg)"
  shows "keeps P (tc_fn t)"
  using assms(4)
  by (auto simp: build_tests_def mk_test_def t_boot_and_agent_def t_pause_resume_def t_vcpu_count_def t_memory_def
      t_hypervisor_flag_def t_exit_code_def t_stdout_capture_def t_graceful_shutdown_def Let_def
      intro!: frame_rules assms(1-3))

lemma keeps_run_each:
  assumes "\<And>t. t \<in> set ts \<Longrightarrow> keeps P (tc_fn t)" "P s"
  shows "P (snd (run_each env flt ts s))"
  using assms
proof (induction ts arbitrary: s)
  case (Cons t ts)
  have "P (snd (tc_fn t s))" using Cons.prems by (auto intro: keeps_final)
  then have "P (snd (run_test env t s))" by (simp add: run_test_def split_beta)
  moreover have "P (snd (run_each env flt ts s'))" if "P s'" for s'
    by (rule Cons.IH [OF _ that]) (rule Cons.prems(1), simp)
  ultimately show ?case using Cons.prems(2) by (simp add: split_beta)
qed simp

end

text \<open>A predicate that does not look at the running domains at all is also kept by starting one.\<close>

locale framed_start = framed +
  assumes frame_start: "P s \<Longrightarrow> P (s\<lparr>vs_domains := ds, vs_auto := as\<rparr>)"
begin

lemma frame_start_only: "P s \<Longrightarrow> P (s\<lparr>vs_domains := ds\<rparr>)"
  using frame_start [of s "vs_auto s" ds] by simp

lemma keeps_create: "keeps P (create_transient env xml name)"
  unfolding create_transient_def create_xml_def
  by (intro keeps_rules keeps_ask) (auto simp: keeps_def wp_modify intro: frame_start frame_start_only split: sum.split)

text \<open>The part of \<open>boot_fresh_vm\<close> behind the creation of the overlay.\<close>

lemma keeps_boot_tail:
  assumes "keeps P (remove_file env p)"
  shows "keeps P (try_catch
       (next_do (connection env cfg) (\<lambda>_. next_do (create_transient env xml name) (\<lambda>vm.
         next_do (wait_for_agent env cfg vm) (\<lambda>_. ret vm))))
       (\<lambda>e. next_do (remove_file env p) (\<lambda>_. throw e)))"
  by (intro frame_rules keeps_create assms)

end

end
