(* ===== verification/Vmtest_Lifecycle.thy ===== *)
theory Vmtest_Lifecycle
  imports Vmtest_Wp
begin

section \<open>Disks and domains of the VM tests\<close>

text \<open>
  Two effects of a run that outlive it: overlay files and running domains. Each is an invariant that the frame
  rules carry through the test cases; only booting, releasing and the soak test need an argument of their own.
\<close>

subsection \<open>Overlay files\<close>

text \<open>
  A file that nobody will remove: \<open>qemu-img\<close> failed after it had created it (\<open>make_overlay\<close> throws before its caller
  has noted the name). And a file whose removal was tried and failed (\<open>remove_file\<close> ignores the error).
\<close>

definition qemu_img_args :: "'d virt_env \<Rightarrow> vm_config \<Rightarrow> 32 word \<Rightarrow> string list" where
  "qemu_img_args env cfg i =
     [''qemu-img'', ''create'', ''-q'', ''-f'', ''qcow2'', ''-F'', vc_image_format cfg, ''-b'',
      ve_absolute env (vc_image cfg), overlay_path env cfg i]"

definition exited_with_0 :: "32 word option \<Rightarrow> bool" where
  "exited_with_0 r \<longleftrightarrow> (\<exists>status. r = Some status \<and> wifexited status \<and> wexitstatus status = 0)"

definition half_made :: "'d virt_env \<Rightarrow> vm_config \<Rightarrow> string set" where
  "half_made env cfg = {overlay_path env cfg i |i t.
     \<not> exited_with_0 (ve_spawn env t (qemu_img_args env cfg i)) \<and> ve_wrote env (Suc t) (overlay_path env cfg i)}"

definition unremovable :: "'d virt_env \<Rightarrow> string set" where
  "unremovable env = {p. \<exists>t. \<not> ve_removed env t p}"

definition left_behind :: "'d virt_env \<Rightarrow> vm_config \<Rightarrow> string set" where
  "left_behind env cfg = half_made env cfg \<union> unremovable env"

text \<open>The other overlay files on disk are those the two variables name.\<close>

definition files_shared :: "'d virt_env \<Rightarrow> vm_config \<Rightarrow> vm_state \<Rightarrow> bool" where
  "files_shared env cfg s \<longleftrightarrow> set (vs_files s) \<subseteq> {vs_overlay s} - {[]} \<union> left_behind env cfg"

definition files_both :: "'d virt_env \<Rightarrow> vm_config \<Rightarrow> vm_state \<Rightarrow> bool" where
  "files_both env cfg s \<longleftrightarrow> set (vs_files s) \<subseteq> {vs_overlay s, vs_local s} - {[]} \<union> left_behind env cfg"

definition files_gone :: "'d virt_env \<Rightarrow> vm_config \<Rightarrow> vm_state \<Rightarrow> bool" where
  "files_gone env cfg s \<longleftrightarrow> set (vs_files s) \<subseteq> left_behind env cfg"

interpretation shared: framed_start "files_shared env cfg" for env :: "'d virt_env" and cfg
  by unfold_locales (simp_all add: files_shared_def)

interpretation both: framed_start "files_both env cfg" for env :: "'d virt_env" and cfg
  by unfold_locales (simp_all add: files_both_def)

lemma wp_remove_file:
  "wp (remove_file env p) Q E s =
    (if p = [] then Q () s
     else Q () (if ve_removed env (vs_tick s) p then s\<lparr>vs_tick := Suc (vs_tick s), vs_files := removeAll p (vs_files s)\<rparr>
       else s\<lparr>vs_tick := Suc (vs_tick s)\<rparr>))"
  by (simp add: remove_file_def wp_simps)

lemma overlay_path_nonempty: "overlay_path env cfg i \<noteq> []"
  by (simp add: overlay_path_def path_join_def vm_name_def)

lemma wp_make_overlay:
  assumes "\<And>n. Q (overlay_path env cfg i) (s\<lparr>vs_tick := n, vs_files := overlay_path env cfg i # vs_files s\<rparr>)"
    and "\<And>n. E (s\<lparr>vs_tick := n\<rparr>)"
    and "\<And>n. overlay_path env cfg i \<in> left_behind env cfg \<Longrightarrow>
      E (s\<lparr>vs_tick := n, vs_files := overlay_path env cfg i # vs_files s\<rparr>)"
  shows "wp (make_overlay env cfg i) Q (\<lambda>_. E) s"
proof -
  let ?r = "ve_spawn env (vs_tick s) (qemu_img_args env cfg i)"
  let ?rc = "case ?r of None \<Rightarrow> - 1 | Some status \<Rightarrow> if wifexited status then sint (wexitstatus status) else - 1"
  have rc: "?rc = 0 \<longleftrightarrow> exited_with_0 ?r"
    by (auto simp: exited_with_0_def signed_eq_0_iff split: option.split)
  have left: "overlay_path env cfg i \<in> left_behind env cfg"
    if "\<not> exited_with_0 ?r" "ve_wrote env (Suc (vs_tick s)) (overlay_path env cfg i)"
    using that unfolding left_behind_def half_made_def by blast
  show ?thesis
    using assms rc left
    by (auto simp: make_overlay_def Let_def run_cmd_def wp_simps qemu_img_args_def)
qed

text \<open>The overlay that \<open>boot_fresh_vm\<close> creates is the one its argument names, or it is removed again.\<close>

lemma left_unremovable: "unremovable env \<subseteq> left_behind env cfg"
  by (simp add: left_behind_def)

lemma keeps_remove_file:
  "keeps (files_shared env cfg) (remove_file env p)" "keeps (files_both env cfg) (remove_file env p)"
  by (auto intro!: keepsI simp: wp_remove_file files_shared_def files_both_def)

lemma boot_fresh_shared:
  assumes "files_gone env cfg s"
  shows "wp (boot_fresh_vm env cfg SharedOverlay) (\<lambda>_. files_shared env cfg) (\<lambda>_. files_shared env cfg) s"
  unfolding boot_fresh_vm_def Let_def wp_next_do wp_modify wp_get_state set_overlay_def
  using assms
  by (auto intro!: wp_make_overlay keepsD [where P = "files_shared env cfg"] shared.keeps_boot_tail keeps_remove_file
      simp: overlay_path_nonempty files_shared_def files_gone_def)

lemma boot_fresh_local:
  assumes "files_shared env cfg s"
  shows "wp (boot_fresh_vm env cfg LocalOverlay) (\<lambda>_. files_both env cfg) (\<lambda>_. files_both env cfg) s"
  unfolding boot_fresh_vm_def Let_def wp_next_do wp_modify wp_get_state set_overlay_def
  using assms
  by (auto intro!: wp_make_overlay keepsD [where P = "files_both env cfg"] both.keeps_boot_tail keeps_remove_file
      simp: overlay_path_nonempty files_shared_def files_both_def)

definition files_at :: "'d virt_env \<Rightarrow> vm_config \<Rightarrow> string \<Rightarrow> vm_state \<Rightarrow> bool" where
  "files_at env cfg p s \<longleftrightarrow> vs_overlay s = p \<and> set (vs_files s) \<subseteq> {p} - {[]} \<union> left_behind env cfg"

interpretation at: framed_start "files_at env cfg p" for env :: "'d virt_env" and cfg p
  by unfold_locales (simp_all add: files_at_def)

lemma removeAll_only: "set xs \<subseteq> {p} \<Longrightarrow> removeAll p xs = []"
  by (induction xs) auto

lemma release_clears:
  assumes "files_shared env cfg s"
  shows "wp (release_vm env) (\<lambda>_ s'. files_gone env cfg s' \<and> vs_overlay s' = [] \<and> vs_vm s' = None) E s"
proof -
  let ?p = "vs_overlay s"
  have rm: "wp (remove_file env ?p) (\<lambda>_ s'. files_gone env cfg s' \<and> vs_vm s' = None) E s'"
    if "files_at env cfg ?p s'" "vs_vm s' = None" for s'
    using that left_unremovable [of env cfg]
    by (auto simp: wp_remove_file files_at_def files_gone_def unremovable_def)
  have start: "files_at env cfg ?p s" using assms by (simp add: files_at_def files_shared_def)
  show ?thesis
  proof (cases "vs_vm s")
    case None
    show ?thesis
      unfolding release_vm_def wp_next_do wp_get_state None option.case wp_ret wp_modify
      using rm [OF start None] by (simp add: files_gone_def)
  next
    case (Some vm)
    show ?thesis
      unfolding release_vm_def wp_next_do wp_get_state Some option.case wp_modify
    proof (rule at.wp_stop_guest [OF start], goal_cases)
      case (1 x s')
      then show ?case using rm [of "s'\<lparr>vs_vm := None\<rparr>"] by (simp add: wp_simps files_at_def files_gone_def)
    qed
  qed
qed

lemma gone_shared: "files_gone env cfg s \<Longrightarrow> files_shared env cfg s"
  by (auto simp: files_gone_def files_shared_def)

lemma release_keeps: "keeps (files_shared env cfg) (release_vm env)"
  by (rule keepsI, rule wp_mono [OF release_clears [where E = "\<lambda>_ _. False"]]) (auto intro: gone_shared)

lemma wp_false_throw: "wp m Q (\<lambda>_ _. False) s \<Longrightarrow> wp m Q E s"
  by (erule wp_mono) auto

lemma boot_shared_keeps: "keeps (files_shared env cfg) (boot_shared env cfg)"
  unfolding boot_shared_def
  by (auto intro!: keepsI wp_mono [OF release_clears [where E = "\<lambda>_ _. False"]] wp_mono [OF boot_fresh_shared]
      simp: wp_next_do wp_modify wp_ret) (simp_all add: files_shared_def)

lemma ensure_keeps: "keeps (files_shared env cfg) (ensure_vm env cfg)"
  unfolding ensure_vm_def by (auto intro!: shared.frame_rules boot_shared_keeps split: option.split)

text \<open>Between two iterations of the soak test only the shared overlay can be left.\<close>

lemma soak_body_both:
  assumes "files_shared env cfg s"
  shows "wp (soak_body env cfg i) (\<lambda>_. files_both env cfg) (\<lambda>_. files_both env cfg) s"
proof -
  have "keeps (files_both env cfg) (next_do (agent_alive env vm) (\<lambda>alive.
     next_do (vm_require alive msg) (\<lambda>_.
     next_do (dom_destroy env vm) (\<lambda>_.
     next_do (state_becomes env vm Gone 15) (\<lambda>gone.
     next_do (if gone then ret True else next_do (dom_state env vm) (\<lambda>d. ret (d = ShutOff))) (\<lambda>ok.
     vm_require ok msg'))))))" for vm msg msg'
    by (intro both.frame_rules)
  then show ?thesis
    unfolding soak_body_def wp_next_do [of "boot_fresh_vm env cfg LocalOverlay"]
    by (rule wp_mono [OF boot_fresh_local [OF assms] keepsD])
qed

lemma remove_local_clears:
  assumes "files_both env cfg s"
  shows "wp (remove_local env) (\<lambda>_. files_shared env cfg) E s"
  using assms left_unremovable [of env cfg]
  by (auto simp: remove_local_def wp_simps wp_remove_file files_both_def files_shared_def unremovable_def)

lemma soak_iteration_keeps: "keeps (files_shared env cfg) (soak_iteration env cfg i)"
  unfolding soak_iteration_def set_overlay_def
  by (auto intro!: keepsI wp_mono [OF soak_body_both] wp_mono [OF remove_local_clears [where E = "\<lambda>_ _. False"]]
      simp: wp_next_do wp_try_catch wp_modify wp_throw) (simp_all add: files_shared_def)

lemma soak_loop_keeps: "keeps (files_shared env cfg) (soak_loop env cfg is)"
  by (induction "is") (auto intro!: keeps_rules soak_iteration_keeps)

lemma soak_keeps: "keeps (files_shared env cfg) (t_boot_destroy_soak env cfg)"
  by (simp add: t_boot_destroy_soak_def keeps_rules release_keeps soak_loop_keeps del: upt_Suc)

lemma run_tests_clean:
  assumes "files_shared env cfg s"
  shows "set (vs_files (snd (run_tests env cfg (build_tests env lib cfg) s))) \<subseteq> left_behind env cfg"
proof -
  let ?r = "run_each env (vc_filter cfg) (build_tests env lib cfg) s"
  have "files_shared env cfg (snd ?r)"
    using assms shared.keeps_tests [OF ensure_keeps release_keeps soak_keeps]
    by (rule shared.keeps_run_each [rotated])
  then have "wp (release_vm env) (\<lambda>_. files_gone env cfg) (\<lambda>_. files_gone env cfg) (snd ?r)"
    by (rule wp_mono [OF release_clears]) simp_all
  then have "files_gone env cfg (snd (release_vm env (snd ?r)))" by (rule wp_final)
  then show ?thesis by (simp add: run_tests_def split_beta files_gone_def)
qed

lemma vm_main_state:
  assumes "\<And>cfg. cfg = pr_cfg (parse_command_line args) \<Longrightarrow>
      Q (snd (run_tests env cfg (build_tests env lib cfg) initial_vm_state))" "Q initial_vm_state"
  shows "Q (vx_state (vm_main prog env lib exists writable fmt1 fmt add zero args))"
  using assms(1) [OF refl] assms(2)
  by (simp add: vm_main_def Let_def vm_stopped_def split_beta)

text \<open>
  Property C26. The harness cleans up its disks: whatever libvirt, the guests, the clock, \<open>qemu-img\<close> and the file
  system do, whichever tests pass, fail or are skipped, an overlay file is left when the program ends only if it
  could not be removed when that was tried, or if a \<open>qemu-img\<close> that failed had created it. So nothing is left when
  removals succeed and no \<open>qemu-img\<close> fails half-way.
\<close>

theorem overlays_removed:
  "set (vs_files (vx_state (vm_main prog env lib exists writable fmt1 fmt add zero args))) \<subseteq>
     left_behind env (pr_cfg (parse_command_line args))"
proof (rule vm_main_state [where Q = "\<lambda>s. set (vs_files s) \<subseteq> left_behind env (pr_cfg (parse_command_line args))"])
  fix cfg assume "cfg = pr_cfg (parse_command_line args)"
  then show "set (vs_files (snd (run_tests env cfg (build_tests env lib cfg) initial_vm_state))) \<subseteq>
      left_behind env (pr_cfg (parse_command_line args))"
    using run_tests_clean [of env cfg initial_vm_state lib] by (simp add: files_shared_def initial_vm_state_def)
qed (simp add: initial_vm_state_def)

subsection \<open>Demonstration environment\<close>

text \<open>Every call succeeds, but guests answer only if \<open>alive\<close> holds.\<close>

definition vm_demo_env :: "bool \<Rightarrow> nat virt_env" where
  "vm_demo_env alive =
     \<lparr>ve_open = (\<lambda>t u. Inr ()), ve_create = (\<lambda>t x flags. Inr ()), ve_state = (\<lambda>t v. StateIs 1), ve_op = (\<lambda>t op v. Inr ()),
      ve_info = (\<lambda>t v. Inr (1048576, 2)), ve_agent = (\<lambda>t v c n. if alive then Inr [] else Inl (Some ''no agent'')),
      ve_spawn = (\<lambda>t c. Some 0), ve_wrote = (\<lambda>t p. False), ve_removed = (\<lambda>t p. True), ve_polls = (\<lambda>t a b. 1),
      ve_seconds = (\<lambda>t u. u - t), ve_pid = 7, ve_absolute = (\<lambda>p. p)\<rparr>"

definition vm_demo_lib :: json_lib where
  "vm_demo_lib = \<lparr>jl_parse = (\<lambda>t. None), jl_dump = (\<lambda>v. []), jl_float_long = (\<lambda>w. 0), jl_float_int = (\<lambda>w. 0),
     jl_type_error = (\<lambda>k v. k)\<rparr>"

definition vm_demo_run :: "bool \<Rightarrow> string \<Rightarrow> nat vm_exit" where
  "vm_demo_run alive flt =
     vm_main ''vmtest'' (vm_demo_env alive) vm_demo_lib (\<lambda>p. True) (\<lambda>p. True) show_nat show_nat (+) 0 [''--image'', ''i'', ''--filter'', flt]"

theorem overlays_removed_witness: "vs_files (vx_state (vm_demo_run False ''boot'')) = []"
proof -
  have "wifexited 0" "wexitstatus 0 = 0" by code_simp+
  then have "left_behind (vm_demo_env False) cfg = {}" for cfg
    by (simp add: left_behind_def half_made_def unremovable_def vm_demo_env_def exited_with_0_def)
  then show ?thesis unfolding vm_demo_run_def using overlays_removed by (metis set_empty subset_empty)
qed

text \<open>The exception is real: a \<open>qemu-img\<close> that creates the file and then fails (status 1) leaves it behind for good.\<close>

theorem failed_qemu_img_leaks:
  "let env = (vm_demo_env True)\<lparr>ve_spawn := (\<lambda>t c. Some 0x100), ve_wrote := (\<lambda>t p. True)\<rparr>;
       x = vm_main ''vmtest'' env vm_demo_lib (\<lambda>p. True) (\<lambda>p. True) show_nat show_nat (+) 0 [''--image'', ''i'', ''--filter'', ''boot_and'']
   in map tr_outcome (vx_results x) = [TFailed] \<and> vs_files (vx_state x) = [''/var/tmp/vmtest-7-1.qcow2'']"
  by code_simp

subsection \<open>Domains\<close>

text \<open>
  What it takes: a guest that is waited for answers the ping while the wait lasts, and once it has answered it goes on
  to; the state can be read, and a domain can be destroyed.
\<close>

definition answers :: "'d virt_env \<Rightarrow> nat \<Rightarrow> string \<Rightarrow> bool" where
  "answers env t vm \<longleftrightarrow> (\<exists>r. ve_agent env t vm ping 2 = Inr r)"

definition host_ok :: "'d virt_env \<Rightarrow> vm_config \<Rightarrow> bool" where
  "host_ok env cfg \<longleftrightarrow>
     (\<forall>t vm. \<exists>k \<le> ve_polls env t (1000 * vc_boot_timeout cfg) 2000. answers env (Suc t + k) vm) \<and>
     (\<forall>t vm. answers env t vm \<longrightarrow> answers env (Suc t) vm) \<and>
     (\<forall>t vm e. ve_state env t vm \<noteq> StateError e \<and> ve_op env t Destroy vm = Inr ())"

text \<open>The only domain that may run is the shared guest; no domain runs at all.\<close>

definition domains_shared :: "vm_state \<Rightarrow> bool" where
  "domains_shared s \<longleftrightarrow> set (vs_domains s) \<subseteq> set_option (vs_vm s)"

definition no_domains :: "vm_state \<Rightarrow> bool" where
  "no_domains s \<longleftrightarrow> vs_domains s = [] \<and> vs_vm s = None"

interpretation dom_shared: framed domains_shared
  by unfold_locales (auto simp: domains_shared_def)

interpretation dom_none: framed no_domains
  by unfold_locales (auto simp: no_domains_def)

lemma wp_agent_alive:
  "wp (agent_alive env vm) Q E s = Q (answers env (vs_tick s) vm) (s\<lparr>vs_tick := Suc (vs_tick s)\<rparr>)"
  by (cases "ve_agent env (vs_tick s) vm ping 2")
    (simp_all add: answers_def agent_alive_def agent_command_def wp_simps check_call_def)

lemma wp_poll_alive:
  assumes "k \<le> n" "answers env (vs_tick s + k) vm"
    and "\<And>m. answers env m vm \<Longrightarrow> Q (True, True) (s\<lparr>vs_tick := Suc m\<rparr>)"
  shows "wp (poll n (\<lambda>b. b) (agent_alive env vm)) Q E s"
  using assms
proof (induction n arbitrary: k s)
  case 0
  then show ?case by (simp add: wp_simps wp_agent_alive)
next
  case (Suc n)
  show ?case
  proof (cases "answers env (vs_tick s) vm")
    case True
    then show ?thesis using Suc.prems(3) by (simp add: wp_simps wp_agent_alive)
  next
    case False
    then obtain j where "k = Suc j" using Suc.prems(2) by (cases k) auto
    then have "wp (poll n (\<lambda>b. b) (agent_alive env vm)) Q E (s\<lparr>vs_tick := Suc (vs_tick s)\<rparr>)"
      using Suc.prems by (intro Suc.IH [of j]) simp_all
    then show ?thesis using False by (simp add: wp_simps wp_agent_alive)
  qed
qed

lemma wp_wait_for_agent:
  assumes "host_ok env cfg" "\<And>m. answers env (Suc m) vm \<Longrightarrow> Q () (s\<lparr>vs_tick := Suc m\<rparr>)"
  shows "wp (wait_for_agent env cfg vm) Q E s"
proof -
  let ?n = "ve_polls env (vs_tick s) (1000 * vc_boot_timeout cfg) 2000"
  obtain k where "k \<le> ?n" "answers env (Suc (vs_tick s) + k) vm"
    using assms(1) unfolding host_ok_def by blast
  moreover have "answers env (Suc m) vm" if "answers env m vm" for m
    using assms(1) that unfolding host_ok_def by blast
  ultimately show ?thesis
    using assms(2)
    by (auto simp: wait_for_agent_def wait_until_def wait_for_def wp_simps intro!: wp_poll_alive)
qed

lemma wp_dom_state:
  "host_ok env cfg \<Longrightarrow> wp (dom_state env vm) Q E s =
    (let a = ve_state env (vs_tick s) vm; s' = s\<lparr>vs_tick := Suc (vs_tick s)\<rparr>
     in Q (case a of NoDomain \<Rightarrow> Gone | StateError e \<Rightarrow> Gone | StateIs n \<Rightarrow> dom_state_of n)
       (if seen_stopped a then s'\<lparr>vs_domains := removeAll vm (vs_domains s')\<rparr> else s'))"
  by (auto simp: dom_state_def wp_simps host_ok_def Let_def split: state_answer.split)

lemma wp_dom_destroy:
  "host_ok env cfg \<Longrightarrow> wp (dom_destroy env vm) Q E s =
    Q () (s\<lparr>vs_tick := Suc (vs_tick s), vs_domains := removeAll vm (vs_domains s)\<rparr>)"
  by (simp add: dom_destroy_def wp_simps check_call_def host_ok_def)

lemma keeps_remove_domains: "keeps domains_shared (remove_file env p)" "keeps no_domains (remove_file env p)"
  by (auto intro!: keepsI simp: remove_file_def wp_simps domains_shared_def no_domains_def)

lemma release_stops:
  assumes "host_ok env cfg" "domains_shared s"
  shows "wp (release_vm env) (\<lambda>_. no_domains) E s"
proof -
  have rm: "wp (remove_file env p) (\<lambda>_ s'. vs_domains s' = [] \<and> vs_vm s' = None) E s'" if "no_domains s'" for s' p
    using that by (auto simp: remove_file_def wp_simps no_domains_def)
  show ?thesis
  proof (cases "vs_vm s")
    case None
    then have "no_domains s" using assms(2) by (simp add: domains_shared_def no_domains_def)
    then show ?thesis
      unfolding release_vm_def wp_next_do wp_get_state None option.case wp_ret wp_modify
      using rm by (simp add: no_domains_def)
  next
    case (Some vm)
    have empty: "removeAll vm (vs_domains s) = []"
      using assms(2) Some by (intro removeAll_only) (simp add: domains_shared_def)
    have "wp (next_do (dom_state env vm) (\<lambda>d. if d \<noteq> Gone \<and> d \<noteq> ShutOff then dom_destroy env vm else ret ()))
        (\<lambda>_ s'. vs_domains s' = []) (\<lambda>_ _. False) s"
      using empty assms(1)
      by (auto simp: wp_next_do wp_dom_state wp_dom_destroy wp_ret Let_def seen_stopped_def dom_state_of_def
          host_ok_def split: state_answer.split if_splits)
    then show ?thesis
      unfolding release_vm_def wp_next_do wp_get_state Some option.case wp_try_catch wp_ret wp_modify
      by (auto elim!: wp_mono intro!: rm [unfolded no_domains_def] simp: no_domains_def)
  qed
qed

text \<open>Starting a guest: its domain is the only one, or none was started.\<close>

lemma keeps_make_overlay: "keeps no_domains (make_overlay env cfg i)"
  unfolding make_overlay_def Let_def
  by (intro dom_none.frame_rules dom_none.keeps_ask) (auto intro!: keepsI simp: wp_modify no_domains_def)

lemma create_one:
  assumes "host_ok env cfg" "no_domains s"
  shows "wp (try_catch
       (next_do (connection env cfg) (\<lambda>_. next_do (create_transient env xml name) (\<lambda>vm.
         next_do (wait_for_agent env cfg vm) (\<lambda>_. ret vm))))
       (\<lambda>e. next_do (remove_file env p) (\<lambda>_. throw e)))
     (\<lambda>vm s'. vs_domains s' = [vm] \<and> vs_vm s' = None \<and> answers env (vs_tick s') vm) (\<lambda>_. no_domains) s"
proof -
  have rm: "wp (remove_file env p) (\<lambda>_. no_domains) E s'" if "no_domains s'" for s' E
    using that by (auto simp: remove_file_def wp_simps no_domains_def)
  have c: "wp (create_transient env xml name) (\<lambda>vm s'. vs_domains s' = [vm] \<and> vs_vm s' = None) (\<lambda>_. no_domains) s'"
    if "no_domains s'" for s'
    using that
    by (auto simp: create_transient_def create_xml_def wp_simps check_call_def no_domains_def split: sum.split)
  have "wp (next_do (connection env cfg) (\<lambda>_. next_do (create_transient env xml name) (\<lambda>vm.
         next_do (wait_for_agent env cfg vm) (\<lambda>_. ret vm))))
      (\<lambda>vm s'. vs_domains s' = [vm] \<and> vs_vm s' = None \<and> answers env (vs_tick s') vm) (\<lambda>_. no_domains) s"
    unfolding wp_next_do wp_ret
    by (intro wp_mono [OF keepsD [where P = no_domains, OF dom_none.keeps_connection assms(2)]])
      (auto intro!: wp_mono [OF c] wp_wait_for_agent [OF assms(1)])
  then show ?thesis
    unfolding wp_try_catch wp_next_do wp_throw by (auto elim!: wp_mono intro!: rm)
qed

lemma boot_fresh_domain:
  assumes "host_ok env cfg" "no_domains s"
  shows "wp (boot_fresh_vm env cfg slot)
    (\<lambda>vm s'. vs_domains s' = [vm] \<and> vs_vm s' = None \<and> answers env (vs_tick s') vm) (\<lambda>_. no_domains) s"
proof -
  have "no_domains (s\<lparr>vs_next_id := vs_next_id s + 1\<rparr>)" using assms(2) by (simp add: no_domains_def)
  note overlay = keepsD [where P = no_domains, OF keeps_make_overlay this]
  have slot: "no_domains s' \<Longrightarrow> no_domains
      (case slot of SharedOverlay \<Rightarrow> s'\<lparr>vs_overlay := p\<rparr> | LocalOverlay \<Rightarrow> s'\<lparr>vs_local := p\<rparr>)" for s' p
    by (simp add: no_domains_def split: overlay_slot.split)
  show ?thesis
    unfolding boot_fresh_vm_def Let_def wp_next_do [of "modify f" for f] wp_next_do [of get_state]
      wp_next_do [of "make_overlay e c i" for e c i] wp_next_do [of "set_overlay e p" for e p]
      wp_modify wp_get_state set_overlay_def
    by (rule wp_mono [OF overlay create_one [OF assms(1) slot]])
qed

lemma no_domains_shared: "no_domains s \<Longrightarrow> domains_shared s"
  by (simp add: no_domains_def domains_shared_def)

lemma release_keeps_shared: "host_ok env cfg \<Longrightarrow> keeps domains_shared (release_vm env)"
  by (auto intro!: keepsI wp_mono [OF release_stops [where E = "\<lambda>_ _. False"]] no_domains_shared)

lemma boot_shared_domain: "host_ok env cfg \<Longrightarrow> keeps domains_shared (boot_shared env cfg)"
  unfolding boot_shared_def
  by (auto intro!: keepsI wp_mono [OF release_stops [where E = "\<lambda>_ _. False"]] wp_mono [OF boot_fresh_domain]
      simp: wp_next_do wp_modify wp_ret intro: no_domains_shared)
    (simp_all add: domains_shared_def no_domains_def)

lemma ensure_domain: "host_ok env cfg \<Longrightarrow> keeps domains_shared (ensure_vm env cfg)"
  unfolding ensure_vm_def by (auto intro!: dom_shared.frame_rules boot_shared_domain split: option.split)

lemma soak_body_domain:
  assumes "host_ok env cfg"
  shows "keeps no_domains (soak_body env cfg i)"
proof (rule keepsI)
  fix s assume s: "no_domains s"
  have rest: "keeps no_domains (next_do (state_becomes env vm Gone 15) (\<lambda>gone.
     next_do (if gone then ret True else next_do (dom_state env vm) (\<lambda>d. ret (d = ShutOff))) (\<lambda>ok.
     vm_require ok msg)))" for vm msg
    by (intro dom_none.frame_rules)
  have "no_domains (s'\<lparr>vs_tick := n, vs_domains := removeAll vm (vs_domains s')\<rparr>)"
    if "vs_domains s' = [vm] \<and> vs_vm s' = None" for s' vm n
    using that by (simp add: no_domains_def)
  then show "wp (soak_body env cfg i) (\<lambda>_. no_domains) (\<lambda>_. no_domains) s"
    unfolding soak_body_def wp_next_do [of "boot_fresh_vm e c o'" for e c o'] wp_next_do [of "agent_alive e v" for e v]
      wp_next_do [of "vm_require b m" for b m] wp_next_do [of "dom_destroy e v" for e v]
    by (intro wp_mono [OF boot_fresh_domain [OF assms s]])
      (simp_all add: wp_agent_alive wp_dom_destroy [OF assms] vm_require_def [of True] wp_ret keepsD [OF rest])
qed

lemma soak_domain: "host_ok env cfg \<Longrightarrow> keeps domains_shared (t_boot_destroy_soak env cfg)"
proof -
  assume h: "host_ok env cfg"
  have "keeps no_domains (soak_iteration env cfg i)" for i
    unfolding soak_iteration_def remove_local_def
    by (intro dom_none.frame_rules soak_body_domain [OF h] keeps_remove_domains)
      (auto intro!: keepsI simp: set_overlay_def wp_modify no_domains_def)
  then have loop: "keeps no_domains (soak_loop env cfg is)" for "is"
    by (induction "is") (auto intro!: keeps_rules)
  show ?thesis
  proof (rule keepsI)
    fix s assume "domains_shared s"
    then show "wp (t_boot_destroy_soak env cfg) (\<lambda>_. domains_shared) (\<lambda>_. domains_shared) s"
      using h unfolding t_boot_destroy_soak_def
      by (auto simp: wp_next_do wp_throw simp del: upt_Suc
          intro!: wp_mono [OF release_stops [where E = "\<lambda>_ _. False"]] wp_mono [OF keepsD [OF loop]] no_domains_shared)
  qed
qed

lemma run_tests_stops:
  assumes "host_ok env cfg" "domains_shared s"
  shows "vs_domains (snd (run_tests env cfg (build_tests env lib cfg) s)) = []"
proof -
  let ?r = "run_each env (vc_filter cfg) (build_tests env lib cfg) s"
  have "domains_shared (snd ?r)"
    using assms(2) dom_shared.keeps_tests [OF ensure_domain release_keeps_shared soak_domain, OF assms(1) assms(1) assms(1)]
    by (rule dom_shared.keeps_run_each [rotated])
  then have "wp (release_vm env) (\<lambda>_. no_domains) (\<lambda>_. no_domains) (snd ?r)" by (rule release_stops [OF assms(1)])
  then have "no_domains (snd (release_vm env (snd ?r)))" by (rule wp_final)
  then show ?thesis by (simp add: run_tests_def split_beta no_domains_def)
qed


text \<open>Guests that answer only from the sixth call on, while each wait polls up to nine times.\<close>

definition slow_env :: "nat virt_env" where
  "slow_env = (vm_demo_env True)\<lparr>ve_agent := (\<lambda>t v c n. if t < 6 then Inl None else Inr []), ve_polls := (\<lambda>t a b. 8)\<rparr>"


end
