(* ===== verification/Vmtest_Results.thy ===== *)
theory Vmtest_Results
  imports Vmtest_Lifecycle
begin

section \<open>Results of the VM tests\<close>

text \<open>
  Which tests are reported, what the exit status and the JUnit report say, what a failed boot leaves behind, and
  what reaches a test of the output of a command in the guest.
\<close>

subsection \<open>Results\<close>

lemma run_each_filter:
  "run_each env flt ts s = run_each env [] (filter (\<lambda>t. matches_filter t flt) ts) s"
  by (induction ts arbitrary: s) (simp_all add: matches_filter_def split: prod.split)

lemma run_each_names:
  "map (\<lambda>r. (tr_suite r, tr_name r)) (fst (run_each env flt ts s)) =
   map (\<lambda>t. (tc_suite t, tc_name t)) (filter (\<lambda>t. matches_filter t flt) ts)"
  by (induction ts arbitrary: s) (auto simp: run_test_def split_beta)

definition vm_demo_cfg :: vm_config where
  "vm_demo_cfg = default_config\<lparr>vc_filter := ''boot_and'', vc_image := ''i''\<rparr>"

lemma demo_selected:
  "filter (\<lambda>t. matches_filter t (vc_filter vm_demo_cfg)) (build_tests env lib cfg) =
   [mk_test ''lifecycle'' ''boot_and_agent_ping'' (t_boot_and_agent env cfg)]"
  by (simp add: vm_demo_cfg_def build_tests_def matches_filter_def mk_test_def starts_with_def)

lemma demo_run_tests:
  "run_tests env vm_demo_cfg (build_tests env lib vm_demo_cfg) s =
    (case run_test env (mk_test ''lifecycle'' ''boot_and_agent_ping'' (t_boot_and_agent env vm_demo_cfg)) s of
       (r, s') \<Rightarrow> ([r], snd (release_vm env s')))"
  unfolding run_tests_def run_each_filter [where flt = "vc_filter vm_demo_cfg"] demo_selected
  by (simp add: matches_filter_def split: prod.split)

text \<open>
  A guest that does not boot is left running: the test that started it fails, its disk is removed
  under it, and when the tests have ended the domain has still not been destroyed. It goes only when the
  connection is closed.
\<close>

theorem failed_boot_leaves_domain:
  "case run_tests (vm_demo_env False) vm_demo_cfg (build_tests (vm_demo_env False) vm_demo_lib vm_demo_cfg) initial_vm_state of
     (rs, s) \<Rightarrow> map tr_outcome rs = [TFailed] \<and> vs_files s = [] \<and> vs_domains s = [''vmtest-7-1'']"
  unfolding demo_run_tests by code_simp

subsection \<open>Exit status and report\<close>

lemma failed_tests_0: "failed_tests rs = 0 \<longleftrightarrow> list_all (\<lambda>r. tr_outcome r \<noteq> TFailed) rs"
  by (induction rs) (auto simp: count_outcome_def)

text \<open>The states between the selected tests: each test starts where the one before it ended.\<close>

definition in_sequence :: "'d virt_env \<Rightarrow> test_case list \<Rightarrow> vm_state \<Rightarrow> 'd test_result list \<Rightarrow> vm_state list \<Rightarrow> bool" where
  "in_sequence env ts s rs states \<longleftrightarrow>
     length states = Suc (length ts) \<and> states ! 0 = s \<and> length rs = length ts \<and>
     (\<forall>i < length ts. (rs ! i, states ! Suc i) = run_test env (ts ! i) (states ! i))"

lemma run_each_in_sequence:
  "\<exists>states. in_sequence env ts s (fst (run_each env [] ts s)) states \<and> last states = snd (run_each env [] ts s)"
proof (induction ts arbitrary: s)
  case Nil
  show ?case by (intro exI [of _ "[s]"]) (simp add: in_sequence_def)
next
  case (Cons t ts)
  obtain r s1 where r: "run_test env t s = (r, s1)" by fastforce
  obtain states where states: "in_sequence env ts s1 (fst (run_each env [] ts s1)) states"
    "last states = snd (run_each env [] ts s1)"
    using Cons by blast
  have "in_sequence env (t # ts) s (r # fst (run_each env [] ts s1)) (s # states)"
    using states(1) r by (auto simp: in_sequence_def less_Suc_eq_0_disj)
  moreover have "states \<noteq> []" using states(1) by (auto simp: in_sequence_def)
  ultimately show ?case
    using states(2) r by (intro exI [of _ "s # states"]) (simp add: matches_filter_def split_beta)
qed

text \<open>
  Property C30. Every selected test is run once, in order, and reported with what its function did: there are states, the first
  the initial one, such that each result carries the name of its test, the outcome and message that the test's function
  gave in the state the test before left (returned: passed; \<open>SkipTest\<close>: skipped; any other exception: failed), and the time
  between the two states; after the last one the shared guest is released. The exit status is 0 exactly when no test failed and
  the requested report could be written.
\<close>

theorem selected_tests_reported:
  assumes "parse_command_line args = \<lparr>pr_cfg = cfg, pr_error = [], pr_help = False\<rparr>"
    and "\<not> vc_list cfg" "vc_image cfg \<noteq> []" "exists (vc_image cfg)"
    and "x = vm_main prog env lib exists writable fmt1 fmt add zero args"
    and "selected = filter (\<lambda>t. matches_filter t (vc_filter cfg)) (build_tests env lib cfg)"
  shows "length (vx_results x) = length selected \<and>
    (\<exists>states. length states = Suc (length selected) \<and> states ! 0 = initial_vm_state \<and>
       vx_state x = snd (release_vm env (last states)) \<and>
       (\<forall>i < length selected. let t = selected ! i; r = vx_results x ! i in
          states ! Suc i = snd (tc_fn t (states ! i)) \<and>
          tr_suite r = tc_suite t \<and> tr_name r = tc_name t \<and>
          tr_seconds r = ve_seconds env (vs_tick (states ! i)) (vs_tick (states ! Suc i)) \<and>
          (case fst (tc_fn t (states ! i)) of
             Inr _ \<Rightarrow> tr_outcome r = TPassed \<and> tr_message r = []
           | Inl (SkipTest m) \<Rightarrow> tr_outcome r = TSkipped \<and> tr_message r = m
           | Inl (StdError m) \<Rightarrow> tr_outcome r = TFailed \<and> tr_message r = m))) \<and>
    (vx_status x = 0 \<longleftrightarrow> (vc_junit cfg = [] \<or> writable (vc_junit cfg)) \<and>
      list_all (\<lambda>r. tr_outcome r \<noteq> TFailed) (vx_results x)) \<and>
    vx_junit x = (if vc_junit cfg \<noteq> [] \<and> writable (vc_junit cfg)
      then Some (vm_render_junit fmt add zero ''vmtest'' (vx_results x)) else None)"
proof -
  obtain rs s where r: "run_each env (vc_filter cfg) (build_tests env lib cfg) initial_vm_state = (rs, s)" by fastforce
  have x: "vx_results x = rs" "vx_status x = (if vc_junit cfg \<noteq> [] \<and> \<not> writable (vc_junit cfg) then 2
      else if failed_tests rs = 0 then 0 else 1)"
    "vx_junit x = (if vc_junit cfg \<noteq> [] \<and> writable (vc_junit cfg)
      then Some (vm_render_junit fmt add zero ''vmtest'' rs) else None)" "vx_state x = snd (release_vm env s)"
    using assms(1-5) by (simp_all add: vm_main_def run_tests_def r)
  have "run_each env [] selected initial_vm_state = (rs, s)"
    unfolding assms(6) run_each_filter [symmetric] by (rule r)
  then obtain states where states: "length states = Suc (length selected)" "states ! 0 = initial_vm_state"
    "last states = s" "length rs = length selected"
    and each: "\<And>i. i < length selected \<Longrightarrow> (rs ! i, states ! Suc i) = run_test env (selected ! i) (states ! i)"
    using run_each_in_sequence [of env selected initial_vm_state] by (auto simp: in_sequence_def)
  have "let t = selected ! i; r = vx_results x ! i in
      states ! Suc i = snd (tc_fn t (states ! i)) \<and> tr_suite r = tc_suite t \<and> tr_name r = tc_name t \<and>
      tr_seconds r = ve_seconds env (vs_tick (states ! i)) (vs_tick (states ! Suc i)) \<and>
      (case fst (tc_fn t (states ! i)) of
         Inr _ \<Rightarrow> tr_outcome r = TPassed \<and> tr_message r = []
       | Inl (SkipTest m) \<Rightarrow> tr_outcome r = TSkipped \<and> tr_message r = m
       | Inl (StdError m) \<Rightarrow> tr_outcome r = TFailed \<and> tr_message r = m)" if "i < length selected" for i
    using each [OF that] unfolding x(1)
    by (auto simp: run_test_def outcome_of_def Let_def split: prod.splits sum.splits vm_exn.splits)
  with states show ?thesis unfolding x by (auto simp: failed_tests_0)
qed

lemma vm_demo_args:
  "parse_command_line [''--image'', ''i'', ''--filter'', ''boot_and''] = \<lparr>pr_cfg = vm_demo_cfg, pr_error = [], pr_help = False\<rparr>"
  by code_simp

theorem selected_tests_reported_witness:
  "\<exists>r. vx_results (vm_demo_run True ''boot_and'') = [r] \<and> tr_name r = ''boot_and_agent_ping'' \<and> tr_outcome r = TPassed"
proof -
  let ?t = "mk_test ''lifecycle'' ''boot_and_agent_ping'' (t_boot_and_agent (vm_demo_env True) vm_demo_cfg)"
  let ?x = "vm_demo_run True ''boot_and''"
  have cfg: "\<not> vc_list vm_demo_cfg" "vc_image vm_demo_cfg \<noteq> []" by (simp_all add: vm_demo_cfg_def default_config_def)
  have passed: "fst (t_boot_and_agent (vm_demo_env True) vm_demo_cfg initial_vm_state) = Inr ()" by code_simp
  have x: "?x = vm_main ''vmtest'' (vm_demo_env True) vm_demo_lib (\<lambda>p. True) (\<lambda>p. True) show_nat show_nat (+) 0
      [''--image'', ''i'', ''--filter'', ''boot_and'']"
    by (simp add: vm_demo_run_def)
  note report = selected_tests_reported [where exists = "\<lambda>p. True", OF vm_demo_args cfg TrueI x demo_selected [symmetric]]
  have one: "length (vx_results ?x) = 1" using conjunct1 [OF report] by simp
  obtain states where first: "states ! 0 = initial_vm_state" and each: "\<forall>i < length [?t]. let t = [?t] ! i; r = vx_results ?x ! i in
          states ! Suc i = snd (tc_fn t (states ! i)) \<and>
          tr_suite r = tc_suite t \<and> tr_name r = tc_name t \<and>
          tr_seconds r = ve_seconds (vm_demo_env True) (vs_tick (states ! i)) (vs_tick (states ! Suc i)) \<and>
          (case fst (tc_fn t (states ! i)) of
             Inr _ \<Rightarrow> tr_outcome r = TPassed \<and> tr_message r = []
           | Inl (SkipTest m) \<Rightarrow> tr_outcome r = TSkipped \<and> tr_message r = m
           | Inl (StdError m) \<Rightarrow> tr_outcome r = TFailed \<and> tr_message r = m)"
    using conjunct1 [OF conjunct2 [OF report]] by blast
  have "tr_name (vx_results ?x ! 0) = ''boot_and_agent_ping'' \<and> tr_outcome (vx_results ?x ! 0) = TPassed"
    using each [rule_format, of 0] passed by (simp add: first mk_test_def Let_def)
  then show ?thesis using one by (intro exI [of _ "vx_results ?x ! 0"]) (auto simp: length_Suc_conv)
qed

text \<open>The suites in the order in which they first appear.\<close>

definition first_seen :: "string list \<Rightarrow> string list" where
  "first_seen xs = rev (remdups (rev xs))"

lemma first_seen_snoc: "first_seen (xs @ [x]) = (if x \<in> set xs then first_seen xs else first_seen xs @ [x])"
  by (simp add: first_seen_def)

lemma group_by_suite_snoc: "group_by_suite (rs @ [r]) = group_step r (group_by_suite rs)"
  by (simp add: group_by_suite_def)

definition groups_ok :: "'d test_result list \<Rightarrow> string list \<times> (string, 'd test_result list) omap \<Rightarrow> bool" where
  "groups_ok rs g \<longleftrightarrow> omap_ok (snd g) \<and> fst g = first_seen (map tr_suite rs) \<and>
     (\<forall>k. omap_get (snd g) k = (if k \<in> set (map tr_suite rs) then Some (filter (\<lambda>r. tr_suite r = k) rs) else None))"

lemma group_by_suite_ok: "groups_ok rs (group_by_suite rs)"
proof (induction rs rule: rev_induct)
  case Nil
  then show ?case by (simp add: groups_ok_def group_by_suite_def first_seen_def)
next
  case (snoc r rs)
  then show ?case
    unfolding group_by_suite_snoc groups_ok_def group_step_def
    by (auto simp: first_seen_snoc om.get_put om.ok_put filter_empty_conv image_iff)
qed

lemma suite_results_filter:
  "suite_results (group_by_suite rs) suite = filter (\<lambda>r. tr_suite r = suite) rs"
  using group_by_suite_ok [of rs] by (auto simp: groups_ok_def suite_results_def empty_filter_conv image_iff)

lemma first_seen_props: "distinct (first_seen xs)" "set (first_seen xs) = set xs"
  by (simp_all add: first_seen_def)

lemma mset_grouped:
  "distinct ks \<Longrightarrow> mset (concat (map (\<lambda>k. filter (\<lambda>r. f r = k) rs) ks)) = mset (filter (\<lambda>r. f r \<in> set ks) rs)"
proof (induction ks)
  case (Cons k ks)
  have "mset (filter (\<lambda>r. f r \<in> set (k # ks)) rs) =
      mset (filter (\<lambda>r. f r = k) rs) + mset (filter (\<lambda>r. f r \<in> set ks) rs)"
    using Cons.prems by (induction rs) auto
  with Cons show ?case by simp
qed simp

lemma count_results_eq:
  "n_tests (count_results add zero rs) = int (length rs)"
  "n_failures (count_results add zero rs) = int (length (filter (\<lambda>r. tr_outcome r = TFailed) rs))"
  "n_skipped (count_results add zero rs) = int (length (filter (\<lambda>r. tr_outcome r = TSkipped) rs))"
  by (induction rs rule: rev_induct) (simp_all add: count_results_def count_result_def)

lemma grouped_results:
  "mset (concat (map (suite_results (group_by_suite rs)) (first_seen (map tr_suite rs)))) = mset rs"
proof -
  have all: "filter (\<lambda>r. tr_suite r \<in> set (first_seen (map tr_suite rs))) rs = rs"
    unfolding first_seen_props(2) by (rule filter_True) simp
  have f: "suite_results (group_by_suite rs) = (\<lambda>k. filter (\<lambda>r. tr_suite r = k) rs)"
    by (rule ext) (rule suite_results_filter)
  show ?thesis
    unfolding f using mset_grouped [OF first_seen_props(1), of tr_suite rs "map tr_suite rs"] unfolding all .
qed

lemma sum_over_suites:
  fixes rs :: "'d test_result list"
  shows "sum_list (map (\<lambda>s. int (length (filter P (suite_results (group_by_suite rs) s)))) (first_seen (map tr_suite rs))) =
    int (length (filter P rs))"
proof -
  have "length (filter P (concat (map (suite_results (group_by_suite rs)) (first_seen (map tr_suite rs))))) =
      length (filter P rs)"
    by (rule mset_eq_length) (unfold mset_filter grouped_results, rule refl)
  moreover have "int (length (filter P (concat (map f ks)))) = sum_list (map (\<lambda>s. int (length (filter P (f s)))) ks)"
    for f :: "string \<Rightarrow> 'd test_result list" and ks
    by (induction ks) simp_all
  ultimately show ?thesis by metis
qed

text \<open>
  The report groups the results by suite: the suites stand in the order in which they first appear, each
  once; under each are its results in their order; every result is reported exactly once; and the counts of the
  suites add up to the counts in the header.
\<close>

theorem report_groups_results:
  fixes results :: "'d test_result list"
  defines "g \<equiv> group_by_suite results"
  shows "fst g = first_seen (map tr_suite results) \<and> distinct (fst g) \<and>
    (\<forall>suite. suite_results g suite = filter (\<lambda>r. tr_suite r = suite) results) \<and>
    mset (concat (map (suite_results g) (fst g))) = mset results \<and>
    sum_list (map (\<lambda>s. n_tests (count_results add zero (suite_results g s))) (fst g)) = n_tests (count_results add zero results) \<and>
    sum_list (map (\<lambda>s. n_failures (count_results add zero (suite_results g s))) (fst g)) =
      n_failures (count_results add zero results) \<and>
    sum_list (map (\<lambda>s. n_skipped (count_results add zero (suite_results g s))) (fst g)) =
      n_skipped (count_results add zero results)"
proof -
  have order: "fst g = first_seen (map tr_suite results)"
    using group_by_suite_ok [of results] by (simp add: groups_ok_def g_def)
  show ?thesis
    unfolding order count_results_eq
    using grouped_results [of results] sum_over_suites [of "\<lambda>r. True" results] sum_over_suites [of _ results]
    by (simp add: g_def suite_results_filter first_seen_props(1))
qed

subsection \<open>Replies of the guest agent\<close>

text \<open>
  How the JSON library reads an integer: one with a minus sign as \<open>number_integer\<close>, any other one as
  \<open>number_unsigned\<close>.
\<close>

definition json_number :: "int \<Rightarrow> json" where
  "json_number n = (if n < 0 then JInt (word_of_int n) else JUInt (word_of_int n))"

text \<open>
  A reply that is not an error, and its \<open>return\<close> object. The agent's protocol (\<open>guest-exec-status\<close>) for a finished
  command: \<open>exited\<close>, then \<open>exitcode\<close> or \<open>signal\<close>, and the output in base64, where \<open>out-data\<close> and \<open>err-data\<close> may be
  missing if there was none. Other members are allowed.
\<close>

definition good_return :: "json \<Rightarrow> json option" where
  "good_return j =
     (case j of
        JObject m \<Rightarrow> (if field j ''error'' \<noteq> None then None
          else case field j ''return'' of Some (JObject r) \<Rightarrow> Some (JObject r) | _ \<Rightarrow> None)
      | _ \<Rightarrow> None)"

definition data_field :: "json \<Rightarrow> string \<Rightarrow> string \<Rightarrow> bool" where
  "data_field r key s \<longleftrightarrow> field r key = Some (JString (base64_encode s)) \<or> s = [] \<and> field r key = None"

definition status_reply :: "string \<Rightarrow> int \<Rightarrow> string \<Rightarrow> string \<Rightarrow> json \<Rightarrow> bool" where
  "status_reply key n out err j \<longleftrightarrow>
     (case good_return j of
        None \<Rightarrow> False
      | Some r \<Rightarrow> field r ''exited'' = Some (JBool True) \<and> field r key = Some (json_number n) \<and>
          (key \<noteq> ''exitcode'' \<longrightarrow> field r ''exitcode'' = None) \<and>
          data_field r ''out-data'' out \<and> data_field r ''err-data'' err)"

lemma int_of_word:
  assumes "- (2 ^ 31) \<le> n" "n < 2 ^ 31"
  shows "sint (ucast (word_of_int n :: 64 word) :: 32 word) = n"
proof -
  have "(ucast (word_of_int n :: 64 word) :: 32 word) = word_of_int n" by transfer simp
  then show ?thesis using assms by (simp add: signed_of_int signed_take_bit_int_eq_self)
qed

lemma get_int_number: "- (2 ^ 31) \<le> n \<Longrightarrow> n < 2 ^ 31 \<Longrightarrow> get_int lib (json_number n) = Inr n"
  using int_of_word [of n] by (simp add: get_int_def json_number_def)

lemma get_long_number: "- (2 ^ 63) \<le> n \<Longrightarrow> n < 2 ^ 63 \<Longrightarrow> get_long lib (json_number n) = Inr n"
  by (simp add: get_long_def json_number_def signed_of_int signed_take_bit_int_eq_self)

lemma good_return_parsed:
  assumes "jl_parse lib w = Some j" "good_return j = Some r"
  shows "parse_reply lib w = Inr j" "return_object j = Some r" "\<exists>m. r = JObject m"
  using assms
  by (auto simp: good_return_def parse_reply_def return_object_def as_object_def split: json.splits option.splits if_splits)

lemma data_field_decoded: "data_field r key s \<Longrightarrow> decode_field r key = s"
proof -
  have "base64_decode (base64_encode s) = s" using b64_encoded [of s 0] by (simp add: base64_decode_def)
  then show "data_field r key s \<Longrightarrow> decode_field r key = s"
    by (auto simp: data_field_def decode_field_def as_string_def)
qed

lemma status_reply_parsed:
  assumes "jl_parse lib w = Some j" "status_reply key n out err j" "- (2 ^ 31) \<le> n" "n < 2 ^ 31"
  shows "key = ''exitcode'' \<Longrightarrow> parse_exec_status lib w = Inr \<lparr>er_exited = True, er_exit_code = n, er_out = out, er_err = err\<rparr>"
    and "key = ''signal'' \<Longrightarrow> parse_exec_status lib w = Inr \<lparr>er_exited = True, er_exit_code = 128 + n, er_out = out, er_err = err\<rparr>"
proof -
  obtain r where r: "good_return j = Some r" and f: "field r ''exited'' = Some (JBool True)" "field r key = Some (json_number n)"
    "key \<noteq> ''exitcode'' \<longrightarrow> field r ''exitcode'' = None" "data_field r ''out-data'' out" "data_field r ''err-data'' err"
    using assms(2) by (auto simp: status_reply_def split: option.splits)
  note reads = good_return_parsed [OF assms(1) r] get_int_number [OF assms(3,4)] f(1-3)
    data_field_decoded [OF f(4)] data_field_decoded [OF f(5)]
  show "key = ''exitcode'' \<Longrightarrow> parse_exec_status lib w = Inr \<lparr>er_exited = True, er_exit_code = n, er_out = out, er_err = err\<rparr>"
    "key = ''signal'' \<Longrightarrow> parse_exec_status lib w = Inr \<lparr>er_exited = True, er_exit_code = 128 + n, er_out = out, er_err = err\<rparr>"
    using reads by (simp_all add: parse_exec_status_def get_bool_def parse_exit_code_def)
qed

text \<open>
  Property C32. What a command in the guest printed reaches the test unchanged, whatever bytes it printed, and so does
  its exit code; a command killed by signal \<open>n\<close> is seen with exit code \<open>128 + n\<close>. The replies are those of the agent's
  protocol as the JSON library reads them, with or without the members of an output that is empty.
\<close>

theorem guest_output_round_trip:
  assumes "jl_parse lib txt = Some j" "status_reply ''exitcode'' n out err j" "- (2 ^ 31) \<le> n" "n < 2 ^ 31"
    and "jl_parse lib txt2 = Some j2" "status_reply ''signal'' k out err j2" "0 < k" "k < 128"
  shows "parse_exec_status lib txt = Inr \<lparr>er_exited = True, er_exit_code = n, er_out = out, er_err = err\<rparr> \<and>
    parse_exec_status lib txt2 = Inr \<lparr>er_exited = True, er_exit_code = 128 + k, er_out = out, er_err = err\<rparr>"
  using status_reply_parsed(1) [OF assms(1-4)] status_reply_parsed(2) [OF assms(5,6)] assms(7,8) by simp

text \<open>The replies of a command that printed nothing on its standard error, and of one that was killed.\<close>

definition reply_lib :: json_lib where
  "reply_lib = vm_demo_lib\<lparr>jl_parse := (\<lambda>t. Some (JObject [(''return'',
     if t = [] then JObject [(''exitcode'', JUInt 3), (''exited'', JBool True), (''out-data'', JString ''aGVsbG8='')]
     else JObject [(''exited'', JBool True), (''out-data'', JString ''aGVsbG8=''), (''signal'', JUInt 9)])]))\<rparr>"

theorem guest_output_round_trip_witness:
  "parse_exec_status reply_lib [] = Inr \<lparr>er_exited = True, er_exit_code = 3, er_out = ''hello'', er_err = []\<rparr> \<and>
   parse_exec_status reply_lib ''s'' = Inr \<lparr>er_exited = True, er_exit_code = 137, er_out = ''hello'', er_err = []\<rparr>"
proof -
  have s: "status_reply ''exitcode'' 3 ''hello'' [] (the (jl_parse reply_lib []))"
    "status_reply ''signal'' 9 ''hello'' [] (the (jl_parse reply_lib ''s''))"
    by code_simp+
  have p: "jl_parse reply_lib w = Some (the (jl_parse reply_lib w))" for w by (simp add: reply_lib_def)
  show ?thesis using guest_output_round_trip [OF p s(1) _ _ p s(2)] by simp
qed

end
