(* ===== verification/Vmtest_Verdicts.thy ===== *)
theory Vmtest_Verdicts
  imports Vmtest_Results
begin

section \<open>What the guest tests say about the guest\<close>

text \<open>
  A guest whose agent follows its protocol runs the scripts of the tests; what they print and return is a function
  \<open>behave\<close> of the script. From the replies, through JSON, base64 and the polling loop, to the exit status of the program: a
  run of all tests that ends with 0 has checked the guest's processors, memory, flags, exit codes and output.
\<close>

subsection \<open>The protocol of the guest agent\<close>

text \<open>The replies to \<open>guest-exec\<close> and to \<open>guest-exec-status\<close> of a running command; other members are allowed.\<close>

definition pid_reply :: "int \<Rightarrow> json \<Rightarrow> bool" where
  "pid_reply pid j \<longleftrightarrow>
     (case good_return j of None \<Rightarrow> False | Some r \<Rightarrow> field r ''pid'' = Some (json_number pid))"

definition running_reply :: "json \<Rightarrow> bool" where
  "running_reply j \<longleftrightarrow>
     (case good_return j of None \<Rightarrow> False | Some r \<Rightarrow> field r ''exited'' = Some (JBool False))"

text \<open>
  When the script is started at tick \<open>t\<close>, the agent answers with a process id, and from then on says that the process is
  running until, before the deadline of the polling loop, it reports the exit code and the output.
\<close>

definition guest_runs :: "'d virt_env \<Rightarrow> json_lib \<Rightarrow> string \<Rightarrow> nat \<Rightarrow> string \<Rightarrow> int \<times> string \<times> string \<Rightarrow> bool" where
  "guest_runs env lib vm t script res \<longleftrightarrow>
     (\<exists>pid k. 0 \<le> pid \<and> pid < 2 ^ 63 \<and> k \<le> ve_polls env (Suc t) 30000 200 \<and>
       (\<exists>txt j. ve_agent env t vm (jl_dump lib (exec_command ''/bin/sh'' [''-c'', script])) 10 = Inr txt \<and>
          jl_parse lib txt = Some j \<and> pid_reply pid j) \<and>
       (\<forall>i \<le> k. \<exists>txt j. ve_agent env (t + 2 + i) vm (jl_dump lib (status_command pid)) 10 = Inr txt \<and>
          jl_parse lib txt = Some j \<and>
          (if i < k then running_reply j else case res of (n, out, err) \<Rightarrow> status_reply ''exitcode'' n out err j)))"

definition result_of :: "int \<times> string \<times> string \<Rightarrow> exec_result" where
  "result_of res = (case res of (n, out, err) \<Rightarrow> \<lparr>er_exited = True, er_exit_code = n, er_out = out, er_err = err\<rparr>)"

lemma parse_pid_reply:
  assumes "jl_parse lib txt = Some j" "pid_reply pid j" "0 \<le> pid" "pid < 2 ^ 63"
  shows "parse_exec_pid lib txt = Inr (Some pid)"
proof -
  obtain r where r: "good_return j = Some r" "field r ''pid'' = Some (json_number pid)"
    using assms(2) by (auto simp: pid_reply_def split: option.splits)
  then show ?thesis
    using good_return_parsed [OF assms(1) r(1)] get_long_number [of pid lib] assms(3,4)
    by (simp add: parse_exec_pid_def)
qed

lemma parse_running_reply:
  assumes "jl_parse lib txt = Some j" "running_reply j"
  shows "parse_exec_status lib txt = Inr default_exec_result"
proof -
  obtain r where r: "good_return j = Some r" "field r ''exited'' = Some (JBool False)"
    using assms(2) by (auto simp: running_reply_def split: option.splits)
  then show ?thesis
    using good_return_parsed [OF assms(1) r(1)] by (simp add: parse_exec_status_def get_bool_def)
qed

lemma parse_status_reply:
  assumes "jl_parse lib rp = Some j" "status_reply ''exitcode'' n out err j" "- (2 ^ 31) \<le> n" "n < 2 ^ 31"
  shows "parse_exec_status lib rp = Inr (result_of (n, out, err))"
  using status_reply_parsed(1) [OF assms] by (simp add: result_of_def)

subsection \<open>Polling\<close>

lemma next_do_Inr: "m s = (Inr x, s') \<Longrightarrow> next_do m f s = f x s'"
  by (simp add: next_do_def)

lemma from_sum_Inr: "from_sum (Inr x) = ret x"
  by (simp add: from_sum_def)

lemma ret_applied: "ret x s = (Inr x, s)"
  by (simp add: ret_def)

lemma wait_for_applied: "wait_for env a b ok probe s = poll (ve_polls env (vs_tick s) a b) ok probe (s\<lparr>vs_tick := Suc (vs_tick s)\<rparr>)"
  by (simp add: wait_for_def next_do_def ask_def)

text \<open>A probe that consumes one tick and becomes good at the \<open>k\<close>-th call stops the loop there.\<close>

lemma poll_until:
  assumes "k \<le> n" "\<And>i. i < k \<Longrightarrow> \<exists>x. probe (s\<lparr>vs_tick := t + i\<rparr>) = (Inr x, s\<lparr>vs_tick := Suc (t + i)\<rparr>) \<and> \<not> ok x"
    and "probe (s\<lparr>vs_tick := t + k\<rparr>) = (Inr y, s\<lparr>vs_tick := Suc (t + k)\<rparr>)" "ok y"
  shows "poll n ok probe (s\<lparr>vs_tick := t\<rparr>) = (Inr (True, y), s\<lparr>vs_tick := Suc (t + k)\<rparr>)"
  using assms
proof (induction k arbitrary: n t)
  case 0
  then show ?case by (cases n) (simp_all add: next_do_def ret_def)
next
  case (Suc k)
  then obtain m where n: "n = Suc m" by (cases n) auto
  from Suc.prems(2) [of 0] obtain x where x: "probe (s\<lparr>vs_tick := t\<rparr>) = (Inr x, s\<lparr>vs_tick := Suc t\<rparr>)" "\<not> ok x" by auto
  have "poll m ok probe (s\<lparr>vs_tick := Suc t\<rparr>) = (Inr (True, y), s\<lparr>vs_tick := Suc (Suc t + k)\<rparr>)"
  proof (rule Suc.IH)
    show "\<exists>x. probe (s\<lparr>vs_tick := Suc t + i\<rparr>) = (Inr x, s\<lparr>vs_tick := Suc (Suc t + i)\<rparr>) \<and> \<not> ok x" if "i < k" for i
      using Suc.prems(2) [of "Suc i"] that by simp
  qed (use Suc.prems n in simp_all)
  then show ?case using x n by (simp add: next_do_def)
qed

lemma guest_sh_runs:
  assumes runs: "guest_runs env lib vm (vs_tick s) script res" and n: "- (2 ^ 31) \<le> fst res" "fst res < 2 ^ 31"
  shows "\<exists>k. guest_sh env lib vm script s = (Inr (result_of res), s\<lparr>vs_tick := k\<rparr>)"
proof -
  let ?t = "vs_tick s"
  let ?last = "\<lambda>j. case res of (n, out, err) \<Rightarrow> status_reply ''exitcode'' n out err j"
  obtain pid k start j0 where k: "k \<le> ve_polls env (Suc ?t) 30000 200" and pid: "0 \<le> pid" "pid < 2 ^ 63"
    and start: "ve_agent env ?t vm (jl_dump lib (exec_command ''/bin/sh'' [''-c'', script])) 10 = Inr start"
      "jl_parse lib start = Some j0" "pid_reply pid j0"
    and polls: "\<And>i. i \<le> k \<Longrightarrow>
      \<exists>txt j. ve_agent env (?t + 2 + i) vm (jl_dump lib (status_command pid)) 10 = Inr txt \<and>
        jl_parse lib txt = Some j \<and> (if i < k then running_reply j else ?last j)"
    using runs unfolding guest_runs_def by blast
  define probe where "probe = next_do (agent_command env vm (jl_dump lib (status_command pid)) 10)
    (\<lambda>txt. from_sum (parse_exec_status lib txt))"
  have answer: "\<exists>txt j. probe (s\<lparr>vs_tick := ?t + 2 + i\<rparr>) = (parse_exec_status lib txt, s\<lparr>vs_tick := Suc (?t + 2 + i)\<rparr>) \<and>
      jl_parse lib txt = Some j \<and> (if i < k then running_reply j else ?last j)"
    if i: "i \<le> k" for i
  proof -
    from polls [OF i] obtain rp j where "ve_agent env (?t + 2 + i) vm (jl_dump lib (status_command pid)) 10 = Inr rp"
      "jl_parse lib rp = Some j" "if i < k then running_reply j else ?last j"
      by blast
    then show ?thesis
      by (intro exI [of _ rp] exI [of _ j]) (simp add: probe_def agent_command_def next_do_def ask_def check_call_def
          from_sum_def ret_def throw_def split: sum.split)
  qed
  have "probe (s\<lparr>vs_tick := ?t + 2 + i\<rparr>) = (Inr default_exec_result, s\<lparr>vs_tick := Suc (?t + 2 + i)\<rparr>)" if "i < k" for i
    using answer [of i] that parse_running_reply by fastforce
  moreover have "probe (s\<lparr>vs_tick := ?t + 2 + k\<rparr>) = (Inr (result_of res), s\<lparr>vs_tick := Suc (?t + 2 + k)\<rparr>)"
    using answer [of k] n by (cases res) (auto simp: parse_status_reply)
  ultimately have "poll (ve_polls env (Suc ?t) 30000 200) er_exited probe (s\<lparr>vs_tick := ?t + 2\<rparr>) =
      (Inr (True, result_of res), s\<lparr>vs_tick := Suc (?t + 2 + k)\<rparr>)"
    using k by (intro poll_until) (auto simp: default_exec_result_def result_of_def split: prod.split)
  moreover have "agent_command env vm (jl_dump lib (exec_command ''/bin/sh'' [''-c'', script])) 10 s = (Inr start, s\<lparr>vs_tick := Suc ?t\<rparr>)"
    using start(1) by (simp add: agent_command_def next_do_def ask_def check_call_def ret_def)
  ultimately show ?thesis
    using parse_pid_reply [OF start(2,3) pid]
    by (intro exI [of _ "Suc (?t + 2 + k)"])
      (simp add: guest_sh_def guest_exec_def next_do_Inr from_sum_Inr ret_applied wait_for_applied probe_def [symmetric])
qed

subsection \<open>Computations that never skip\<close>

text \<open>Only the soak test throws \<open>SkipTest\<close>: whatever else fails, fails the test.\<close>

named_theorems skip_rules

definition never_skips :: "'a vm_run \<Rightarrow> bool" where
  "never_skips m \<longleftrightarrow> (\<forall>s. wp m (\<lambda>_ _. True) (\<lambda>e _. \<exists>x. e = StdError x) s)"

lemma never_skips_next_do [skip_rules]: "never_skips m \<Longrightarrow> (\<And>x. never_skips (f x)) \<Longrightarrow> never_skips (next_do m f)"
  unfolding never_skips_def wp_simps by (blast intro: wp_mono)

lemma never_skips_try_catch [skip_rules]:
  "never_skips m \<Longrightarrow> (\<And>x. never_skips (h (StdError x))) \<Longrightarrow> never_skips (try_catch m h)"
  unfolding never_skips_def wp_simps by (blast intro: wp_mono)

lemma never_skips_basic [skip_rules]:
  "never_skips (ret x)" "never_skips (throw (StdError e))" "never_skips get_state" "never_skips (modify g)" "never_skips (ask a)"
  by (simp_all add: never_skips_def wp_simps)

lemma never_skips_branches [skip_rules]:
  "never_skips m \<Longrightarrow> never_skips m' \<Longrightarrow> never_skips (if b then m else m')"
  "never_skips m1 \<Longrightarrow> (\<And>x. never_skips (m2 x)) \<Longrightarrow> never_skips (case p of None \<Rightarrow> m1 | Some x \<Rightarrow> m2 x)"
  "(\<And>x y. never_skips (m3 x y)) \<Longrightarrow> never_skips (case q of (x, y) \<Rightarrow> m3 x y)"
  by (simp_all split: option.split prod.split)

lemma never_skips_calls [skip_rules]:
  "never_skips (check_call what r)" "never_skips (vm_require b msg)" "never_skips (require_eq i j msg)"
  by (auto simp: check_call_def vm_require_def require_eq_def intro: skip_rules split: sum.split)

lemma never_skips_poll [skip_rules]: "never_skips probe \<Longrightarrow> never_skips (poll n ok probe)"
  by (induction n) (auto intro!: skip_rules)

lemma never_skips_wait [skip_rules]:
  "never_skips probe \<Longrightarrow> never_skips (wait_for env a b ok probe)" "never_skips pred \<Longrightarrow> never_skips (wait_until env a b pred)"
  by (auto simp: wait_for_def wait_until_def intro!: skip_rules)

lemma never_skips_domain [skip_rules]:
  "never_skips (dom_state env vm)" "never_skips (dom_destroy env vm)" "never_skips (create_transient env xml name)"
  "never_skips (agent_command env vm cmd t)" "never_skips (connection env cfg)" "never_skips (remove_file env p)"
  by (auto simp: dom_state_def dom_destroy_def create_transient_def create_xml_def agent_command_def connection_def open_connection_def
      remove_file_def intro!: skip_rules split: state_answer.split)

lemma never_skips_boot [skip_rules]: "never_skips (boot_fresh_vm env cfg slot)"
  by (auto simp: boot_fresh_vm_def make_overlay_def run_cmd_def set_overlay_def wait_for_agent_def agent_alive_def Let_def
      intro!: skip_rules)

lemma never_skips_ensure_vm [skip_rules]: "never_skips (ensure_vm env cfg)"
  by (auto simp: ensure_vm_def boot_shared_def release_vm_def intro!: skip_rules)

text \<open>The parsers of the replies only throw exceptions that fail a test.\<close>

definition plain_error :: "vm_exn + 'a \<Rightarrow> bool" where
  "plain_error r \<longleftrightarrow> (case r of Inl (SkipTest m) \<Rightarrow> False | _ \<Rightarrow> True)"

lemma plain_error_basic [simp]: "plain_error (Inr x)" "plain_error (Inl (StdError m))"
  by (simp_all add: plain_error_def)

lemma plain_error_and_then: "plain_error r \<Longrightarrow> (\<And>x. plain_error (f x)) \<Longrightarrow> plain_error (and_then r f)"
  by (cases r) (simp_all add: plain_error_def and_then_def)

lemma plain_error_get:
  "plain_error (get_long lib v)" "plain_error (get_int lib v)" "plain_error (get_bool lib v)" "plain_error (get_text lib v)"
  by (auto simp: get_long_def get_int_def get_bool_def get_text_def split: json.split)

lemma plain_error_parse:
  "plain_error (parse_exec_pid lib rp)" "plain_error (parse_exec_status lib rp)"
  "plain_error (std_stoi w)" "plain_error (std_stol w)"
  by (auto simp: parse_exec_pid_def parse_exec_status_def parse_reply_def parse_exit_code_def std_stoi_def std_stol_def std_sto_def
      intro!: plain_error_and_then plain_error_get split: option.split)

lemma never_skips_from_sum [skip_rules]: "plain_error r \<Longrightarrow> never_skips (from_sum r)"
  by (auto simp: plain_error_def from_sum_def intro: skip_rules split: sum.splits vm_exn.splits)

lemma never_skips_guest_sh [skip_rules]: "never_skips (guest_sh env lib vm script)"
  by (auto simp: guest_sh_def guest_exec_def intro!: skip_rules plain_error_parse)

lemma not_failed_returns:
  assumes "never_skips (tc_fn t)" "tr_outcome (fst (run_test env t s)) \<noteq> TFailed"
  shows "\<exists>s'. tc_fn t s = (Inr (), s')"
proof (cases "tc_fn t s")
  case (Pair r s')
  have "wp (tc_fn t) (\<lambda>_ _. True) (\<lambda>e _. \<exists>x. e = StdError x) s" using assms(1) by (simp add: never_skips_def)
  then show ?thesis using assms(2) Pair by (cases r) (auto simp: wp_def run_test_def outcome_of_def)
qed

subsection \<open>A guest that is given to a test has answered\<close>

definition has_answered :: "'d virt_env \<Rightarrow> string \<Rightarrow> vm_state \<Rightarrow> bool" where
  "has_answered env vm s \<longleftrightarrow> (\<exists>u < vs_tick s. answers env u vm)"

definition shared_answered :: "'d virt_env \<Rightarrow> vm_state \<Rightarrow> bool" where
  "shared_answered env s \<longleftrightarrow> (\<forall>vm. vs_vm s = Some vm \<longrightarrow> has_answered env vm s)"

lemma has_answered_later: "has_answered env vm s \<Longrightarrow> vs_tick s \<le> n \<Longrightarrow> has_answered env vm (s\<lparr>vs_tick := n\<rparr>)"
  unfolding has_answered_def using order.strict_trans2 by fastforce

lemma has_answered_frame:
  "has_answered env vm (s\<lparr>vs_conn := c\<rparr>) = has_answered env vm s" "has_answered env vm (s\<lparr>vs_domains := ds\<rparr>) = has_answered env vm s"
  "has_answered env vm (s\<lparr>vs_domains := ds, vs_auto := as\<rparr>) = has_answered env vm s"
  by (simp_all add: has_answered_def)

interpretation ans: framed_start "has_answered env vm" for env :: "'d virt_env" and vm
  by unfold_locales (simp_all add: has_answered_later has_answered_frame)

interpretation shared_ans: framed_start "shared_answered env" for env :: "'d virt_env"
  by unfold_locales (simp_all add: shared_answered_def has_answered_later has_answered_frame)

lemma wp_any: "(\<And>x s. Q x s) \<Longrightarrow> (\<And>e s. E e s) \<Longrightarrow> wp m Q E s"
  by (auto simp: wp_def split: prod.splits sum.splits)

lemma wp_both: "wp m Q E s \<Longrightarrow> wp m Q' E' s \<Longrightarrow> wp m (\<lambda>x s. Q x s \<and> Q' x s) (\<lambda>e s. E e s \<and> E' e s) s"
  by (auto simp: wp_def split: prod.splits sum.splits)

lemma poll_answers:
  "wp (poll n (\<lambda>b. b) (agent_alive env vm)) (\<lambda>r s'. fst r \<longrightarrow> has_answered env vm s') (\<lambda>_ _. True) s"
  by (induction n arbitrary: s) (auto simp: wp_simps wp_agent_alive has_answered_def)

lemma wait_answers: "wp (wait_for_agent env cfg vm) (\<lambda>_. has_answered env vm) (\<lambda>_ _. True) s"
  unfolding wait_for_agent_def wait_until_def wait_for_def wp_next_do wp_ask
  by (rule wp_mono [OF poll_answers]) (auto simp: wp_simps split: prod.split)

lemma boot_answers: "wp (boot_fresh_vm env cfg slot) (has_answered env) (\<lambda>_ _. True) s"
  unfolding boot_fresh_vm_def Let_def wp_next_do wp_try_catch wp_throw wp_ret wp_modify wp_get_state
  by (intro wp_any TrueI wp_mono [OF wait_answers])

lemma shared_answered_rules:
  "keeps (shared_answered env) (modify (\<lambda>s. s\<lparr>vs_vm := None\<rparr>))" "keeps (shared_answered env) (modify (\<lambda>s. s\<lparr>vs_overlay := p\<rparr>))"
  "keeps (shared_answered env) (modify (\<lambda>s. s\<lparr>vs_next_id := vs_next_id s + 1\<rparr>))"
  "keeps (shared_answered env) (modify (\<lambda>s. if b then s\<lparr>vs_files := f (vs_files s)\<rparr> else s))"
  "keeps (shared_answered env) (set_overlay slot p)"
  by (auto intro!: keepsI simp: wp_modify shared_answered_def has_answered_def set_overlay_def split: overlay_slot.split)

lemmas answered_rules = shared_ans.frame_rules shared_ans.keeps_ask shared_answered_rules

lemma answered_remove: "keeps (shared_answered env) (remove_file env' p)"
  unfolding remove_file_def by (intro answered_rules)

lemma answered_release: "keeps (shared_answered env) (release_vm env')"
  unfolding release_vm_def by (auto intro!: answered_rules answered_remove split: option.split)

lemma answered_boot: "keeps (shared_answered env) (boot_fresh_vm env' cfg slot)"
  unfolding boot_fresh_vm_def make_overlay_def Let_def
  by (intro answered_rules shared_ans.keeps_create answered_remove)

lemma boot_shared_answers:
  assumes "shared_answered env s"
  shows "wp (boot_shared env cfg) (\<lambda>vm s'. has_answered env vm s' \<and> shared_answered env s') (\<lambda>_. shared_answered env) s"
proof -
  have boot: "wp (boot_fresh_vm env cfg SharedOverlay) (\<lambda>vm s'. has_answered env vm s' \<and> shared_answered env s')
      (\<lambda>_. shared_answered env) s'" if "shared_answered env s'" for s'
    by (rule wp_mono [OF wp_both [OF boot_answers keepsD [OF answered_boot that]]]) simp_all
  show ?thesis
    unfolding boot_shared_def wp_next_do wp_modify wp_ret
    by (rule wp_mono [OF keepsD [OF answered_release assms]])
      (auto intro!: wp_mono [OF boot] simp: shared_answered_def has_answered_def)
qed

lemma ensure_answers:
  assumes "shared_answered env s"
  shows "wp (ensure_vm env cfg) (\<lambda>vm s'. has_answered env vm s' \<and> shared_answered env s') (\<lambda>_. shared_answered env) s"
proof (cases "vs_vm s")
  case None
  then show ?thesis using boot_shared_answers [OF assms] by (simp add: ensure_vm_def wp_simps)
next
  case (Some vm)
  then have "has_answered env vm s" using assms by (simp add: shared_answered_def)
  from wp_both [OF keepsD [OF ans.keeps_dom_state this] keepsD [OF shared_ans.keeps_dom_state assms], of env vm]
  show ?thesis
    unfolding ensure_vm_def wp_next_do wp_get_state Some option.case
    by (rule wp_mono) (auto simp: wp_ret intro: boot_shared_answers)
qed

lemma answered_ensure: "keeps (shared_answered env) (ensure_vm env cfg)"
  by (auto intro!: keepsI wp_mono [OF ensure_answers])

lemma answered_soak: "keeps (shared_answered env) (t_boot_destroy_soak env cfg)"
proof -
  have "keeps (shared_answered env) (soak_iteration env cfg i)" for i
    unfolding soak_iteration_def remove_local_def soak_body_def
    by (intro answered_rules answered_remove answered_boot)
  then have "keeps (shared_answered env) (soak_loop env cfg is)" for "is"
    by (induction "is") (auto intro!: keeps_rules)
  then show ?thesis
    unfolding t_boot_destroy_soak_def by (intro answered_rules answered_release)
qed

subsection \<open>A guest test that does not fail\<close>

lemma run_each_reports:
  assumes "\<And>t. t \<in> set ts \<Longrightarrow> keeps P (tc_fn t)" "P s" "t \<in> set ts" "matches_filter t flt"
  shows "\<exists>s'. P s' \<and> fst (run_test env t s') \<in> set (fst (run_each env flt ts s))"
  using assms
proof (induction ts arbitrary: s)
  case (Cons u us)
  obtain r s1 where u: "run_test env u s = (r, s1)" by fastforce
  have "P (snd (tc_fn u s))" using Cons.prems(1,2) by (auto intro: keeps_final)
  then have s1: "P s1" using u by (auto simp: run_test_def split_beta)
  show ?case
  proof (cases "t = u")
    case True
    then show ?thesis using Cons.prems(2,4) u by (intro exI [of _ s]) (simp add: split_beta)
  next
    case False
    then have t: "t \<in> set us" using Cons.prems(3) by simp
    have "\<exists>s'. P s' \<and> fst (run_test env t s') \<in> set (fst (run_each env flt us s'')) " if "P s''" for s''
      using Cons.IH [OF _ that t Cons.prems(4)] Cons.prems(1) by simp
    then show ?thesis using Cons.prems(2) s1 u by (force simp: split_beta)
  qed
qed simp

text \<open>What the script returned has been judged.\<close>

lemma guest_test_judges:
  assumes "tc_fn t = next_do (ensure_vm env cfg) (\<lambda>vm. next_do (guest_sh env lib vm script) judge)"
    and runs: "\<And>vm u k. answers env u vm \<Longrightarrow> u < k \<Longrightarrow> guest_runs env lib vm k script res"
    and "- (2 ^ 31) \<le> fst res" "fst res < 2 ^ 31" "tc_fn t s = (Inr (), s')" "shared_answered env s"
  obtains s1 s2 where "judge (result_of res) s1 = (Inr (), s2)"
proof -
  obtain vm s1 where e: "ensure_vm env cfg s = (Inr vm, s1)"
    "next_do (guest_sh env lib vm script) judge s1 = (Inr (), s')"
    using assms(1,5) by (auto simp: next_do_def split: prod.splits sum.splits)
  then have "has_answered env vm s1" using ensure_answers [OF assms(6), of cfg] by (simp add: wp_def)
  then have "guest_runs env lib vm (vs_tick s1) script res" using runs by (auto simp: has_answered_def)
  then obtain k where "guest_sh env lib vm script s1 = (Inr (result_of res), s1\<lparr>vs_tick := k\<rparr>)"
    using guest_sh_runs [OF _ assms(3,4)] by blast
  with e show thesis using that by (simp add: next_do_Inr)
qed

subsection \<open>The exit status\<close>

text \<open>The scripts of the guest tests.\<close>

definition memory_script :: string where
  "memory_script = ''awk '' @ sq ''/^MemTotal:/ {print $2}'' @ '' /proc/meminfo''"

definition hypervisor_script :: string where
  "hypervisor_script = ''grep -m1 '' @ sq ''^flags'' @ '' /proc/cpuinfo | grep -qw hypervisor && echo yes || echo no''"

definition guest_scripts :: "string list" where
  "guest_scripts = [''nproc'', memory_script, hypervisor_script, ''exit 7'', ''printf hello-vmtest; printf oops >&2'']"

text \<open>The guest is what the configuration asks for.\<close>

definition guest_fits :: "vm_config \<Rightarrow> (string \<Rightarrow> int \<times> string \<times> string) \<Rightarrow> bool" where
  "guest_fits cfg behave \<longleftrightarrow>
     (\<exists>out err. behave ''nproc'' = (0, out, err) \<and> std_stoi out = Inr (sint (vc_vcpus cfg))) \<and>
     (\<exists>out err kib. behave memory_script = (0, out, err) \<and> std_stol out = Inr kib \<and>
        70 * (uint (vc_mem_mib cfg) * 1024) \<le> 100 * kib \<and> kib \<le> uint (vc_mem_mib cfg) * 1024) \<and>
     (\<exists>out err. behave hypervisor_script = (0, out, err) \<and> starts_with ''yes'' out) \<and>
     (\<exists>out err. behave ''exit 7'' = (7, out, err)) \<and>
     behave ''printf hello-vmtest; printf oops >&2'' = (0, ''hello-vmtest'', ''oops'')"

lemma judge_returns:
  "require_eq i j msg s = (Inr (), s') \<longleftrightarrow> i = j \<and> s' = s"
  "vm_require b msg s = (Inr (), s') \<longleftrightarrow> b \<and> s' = s"
  "next_do (require_eq i j msg) f s = (Inr (), s') \<longleftrightarrow> i = j \<and> f () s = (Inr (), s')"
  "next_do (vm_require b msg) f s = (Inr (), s') \<longleftrightarrow> b \<and> f () s = (Inr (), s')"
  "next_do (from_sum r) g s = (Inr (), s') \<longleftrightarrow> (\<exists>x. r = Inr x \<and> g x s = (Inr (), s'))"
  by (auto simp: require_eq_def vm_require_def from_sum_def next_do_def ret_def throw_def split: sum.split)

lemma guest_tests_never_skip:
  "never_skips (t_vcpu_count env lib cfg)" "never_skips (t_memory env lib cfg)" "never_skips (t_hypervisor_flag env lib cfg)"
  "never_skips (t_exit_code env lib cfg)" "never_skips (t_stdout_capture env lib cfg)"
  by (auto simp: t_vcpu_count_def t_memory_def t_hypervisor_flag_def t_exit_code_def t_stdout_capture_def Let_def
      intro!: skip_rules plain_error_parse)

lemma in_build_tests:
  "mk_test ''guest'' ''vcpu_count_matches'' (t_vcpu_count env lib cfg) \<in> set (build_tests env lib cfg)"
  "mk_test ''guest'' ''memory_matches'' (t_memory env lib cfg) \<in> set (build_tests env lib cfg)"
  "mk_test ''guest'' ''hypervisor_cpu_flag'' (t_hypervisor_flag env lib cfg) \<in> set (build_tests env lib cfg)"
  "mk_test ''guest'' ''exit_code_propagates'' (t_exit_code env lib cfg) \<in> set (build_tests env lib cfg)"
  "mk_test ''guest'' ''stdout_stderr_capture'' (t_stdout_capture env lib cfg) \<in> set (build_tests env lib cfg)"
  by (simp_all add: build_tests_def)

lemma mk_test_fn [simp]: "tc_fn (mk_test su nm fn) = fn"
  by (simp add: mk_test_def)

text \<open>
  Property C31. What exit status 0 of \<open>vmtest\<close> means for the guest: when all tests run, and an agent that has answered a ping
  follows its protocol from then on, the guest sees as many processors as configured, between 70 and 100 per cent of the configured
  memory, and the hypervisor flag, and exit codes and both output streams of its commands arrive unchanged.
\<close>

theorem exit_zero_means_guest_fits:
  assumes "parse_command_line args = \<lparr>pr_cfg = cfg, pr_error = [], pr_help = False\<rparr>"
    and "\<not> vc_list cfg" "vc_image cfg \<noteq> []" "exists (vc_image cfg)" "vc_filter cfg = []"
    and runs: "\<And>vm u t script. answers env u vm \<Longrightarrow> u < t \<Longrightarrow> script \<in> set guest_scripts \<Longrightarrow>
      guest_runs env lib vm t script (behave script)"
    and codes: "\<And>script. - (2 ^ 31) \<le> fst (behave script) \<and> fst (behave script) < 2 ^ 31"
    and "vx_status (vm_main prog env lib exists writable fmt1 fmt add zero args) = 0"
  shows "guest_fits cfg behave"
proof -
  let ?ts = "build_tests env lib cfg"
  obtain rs s where r: "run_each env [] ?ts initial_vm_state = (rs, s)" by fastforce
  have "failed_tests rs = 0"
    using assms(1-5,8) by (auto simp: vm_main_def run_tests_def r split: if_splits)
  then have ok: "list_all (\<lambda>r. tr_outcome r \<noteq> TFailed) rs" by (simp add: failed_tests_0)
  have start: "shared_answered env initial_vm_state" by (simp add: shared_answered_def initial_vm_state_def)
  have keep: "keeps (shared_answered env) (tc_fn t)" if "t \<in> set ?ts" for t
    by (rule shared_ans.keeps_tests [OF answered_ensure answered_release answered_soak that])
  have passed: "\<exists>s1 s2. shared_answered env s1 \<and> tc_fn t s1 = (Inr (), s2)" if "t \<in> set ?ts" "never_skips (tc_fn t)" for t
    using run_each_reports [OF keep start that(1), of "[]" env] not_failed_returns [OF that(2)] ok
    by (fastforce simp: matches_filter_def r list_all_iff)
  have judged: "\<exists>s1 s2. judge (result_of (behave script)) s1 = (Inr (), s2)"
    if "t \<in> set ?ts" "never_skips (tc_fn t)" "script \<in> set guest_scripts"
      "tc_fn t = next_do (ensure_vm env cfg) (\<lambda>vm. next_do (guest_sh env lib vm script) judge)" for t script judge
  proof -
    from passed [OF that(1,2)] obtain s1 s2 where s: "shared_answered env s1" "tc_fn t s1 = (Inr (), s2)" by blast
    show ?thesis
      by (rule guest_test_judges [OF that(4) _ conjunct1 [OF codes] conjunct2 [OF codes] s(2,1)])
        (use runs that(3) in blast)+
  qed
  note run = judged [OF in_build_tests(1), unfolded mk_test_fn, OF guest_tests_never_skip(1) _ t_vcpu_count_def]
    judged [OF in_build_tests(2), unfolded mk_test_fn, OF guest_tests_never_skip(2) _ t_memory_def [folded memory_script_def]]
    judged [OF in_build_tests(3), unfolded mk_test_fn, OF guest_tests_never_skip(3) _ t_hypervisor_flag_def [folded hypervisor_script_def]]
    judged [OF in_build_tests(4), unfolded mk_test_fn, OF guest_tests_never_skip(4) _ t_exit_code_def]
    judged [OF in_build_tests(5), unfolded mk_test_fn, OF guest_tests_never_skip(5) _ t_stdout_capture_def]
  have b: "\<exists>n out err. behave script = (n, out, err)" for script by (cases "behave script") auto
  show ?thesis
    unfolding guest_fits_def
  proof (intro conjI)
    show "\<exists>out err. behave ''nproc'' = (0, out, err) \<and> std_stoi out = Inr (sint (vc_vcpus cfg))"
      using run(1) b [of "''nproc''"] by (auto simp: guest_scripts_def judge_returns result_of_def)
    show "\<exists>out err kib. behave memory_script = (0, out, err) \<and> std_stol out = Inr kib \<and>
        70 * (uint (vc_mem_mib cfg) * 1024) \<le> 100 * kib \<and> kib \<le> uint (vc_mem_mib cfg) * 1024"
      using run(2) b [of memory_script] by (auto simp: guest_scripts_def judge_returns result_of_def Let_def mult.commute)
    show "\<exists>out err. behave hypervisor_script = (0, out, err) \<and> starts_with ''yes'' out"
      using run(3) b [of hypervisor_script] by (auto simp: guest_scripts_def judge_returns result_of_def)
    show "\<exists>out err. behave ''exit 7'' = (7, out, err)"
      using run(4) b [of "''exit 7''"] by (auto simp: guest_scripts_def judge_returns result_of_def)
    show "behave ''printf hello-vmtest; printf oops >&2'' = (0, ''hello-vmtest'', ''oops'')"
      using run(5) b [of "''printf hello-vmtest; printf oops >&2''"] by (auto simp: guest_scripts_def judge_returns result_of_def)
  qed
qed

subsubsection \<open>A guest that fits\<close>

text \<open>
  The agent echoes every command; the library reads the echo of a script as the process id, which is its place in the list, and
  the echo of a process id, a script behind a hash, as the finished command.
\<close>

definition fit_behave :: "string \<Rightarrow> int \<times> string \<times> string" where
  "fit_behave script =
     (if script = ''nproc'' then (0, ''2'', [])
      else if script = memory_script then (0, ''1000000'', [])
      else if script = hypervisor_script then (0, ''yes'', [])
      else if script = ''exit 7'' then (7, [], [])
      else (0, ''hello-vmtest'', ''oops''))"

definition fit_dump :: "json \<Rightarrow> string" where
  "fit_dump v =
     (case Option.bind (field v ''arguments'') (\<lambda>a. field a ''pid'') of
        Some (JInt w) \<Rightarrow> CHR ''#'' # (guest_scripts ! unat w)
      | _ \<Rightarrow>
        (case Option.bind (field v ''arguments'') (\<lambda>a. field a ''arg'') of
           Some (JArray [x, JString script]) \<Rightarrow> script
         | _ \<Rightarrow> []))"

text \<open>The finished command, without the members of an output that is empty.\<close>

definition fit_status_reply :: "int \<times> string \<times> string \<Rightarrow> json" where
  "fit_status_reply res =
     (case res of (n, out, err) \<Rightarrow>
        JObject [(''return'', JObject ((if err = [] then [] else [(''err-data'', JString (base64_encode err))]) @
          [(''exitcode'', json_number n), (''exited'', JBool True)] @
          (if out = [] then [] else [(''out-data'', JString (base64_encode out))])))])"

definition fit_parse :: "string \<Rightarrow> json option" where
  "fit_parse w =
     (if w \<noteq> [] \<and> hd w = CHR ''#'' then Some (fit_status_reply (fit_behave (tl w)))
      else Some (JObject [(''return'', JObject [(''pid'', json_number (int (length (takeWhile (\<lambda>s. s \<noteq> w) guest_scripts))))])]))"

definition fit_lib :: json_lib where
  "fit_lib = vm_demo_lib\<lparr>jl_parse := fit_parse, jl_dump := fit_dump\<rparr>"

definition fit_env :: "(nat \<Rightarrow> int) \<Rightarrow> nat virt_env" where
  "fit_env f = (vm_demo_env True)\<lparr>ve_agent := (\<lambda>t v c n. Inr c), ve_state := (\<lambda>t v. StateIs (f t))\<rparr>"

text \<open>The guest is paused at the call after its suspension and has shut down at the call after its shutdown.\<close>

definition fit_demo :: "nat virt_env" where
  "fit_demo = fit_env (\<lambda>t. if t = 13 then 3 else if 42 \<le> t then 5 else 1)"

definition fit_cfg :: vm_config where
  "fit_cfg = default_config\<lparr>vc_image := ''i''\<rparr>"

definition fit_state :: "nat \<Rightarrow> vm_state" where
  "fit_state n =
     \<lparr>vs_tick = n, vs_conn = True, vs_vm = Some ''vmtest-7-1'', vs_overlay = ''/var/tmp/vmtest-7-1.qcow2'', vs_local = [],
      vs_next_id = 1, vs_files = [''/var/tmp/vmtest-7-1.qcow2''], vs_domains = [''vmtest-7-1''],
      vs_auto = [''vmtest-7-1'']\<rparr>"

lemma fit_memory_text: "std_stol ''1000000'' = Inr 1000000"
  by (simp add: std_stol_def std_sto_def leading_number_def c_space_def c_digit_def read_digits_def read_nat_def digit_val_def Let_def)

lemma fit_memory: "t_memory fit_demo fit_lib fit_cfg (fit_state 23) = (Inr (), fit_state 27)"
proof -
  have "ensure_vm fit_demo fit_cfg (fit_state 23) = (Inr ''vmtest-7-1'', fit_state 24)" by code_simp
  moreover have "guest_sh fit_demo fit_lib ''vmtest-7-1'' memory_script (fit_state 24) =
      (Inr (result_of (0, ''1000000'', [])), fit_state 27)" by code_simp
  ultimately show ?thesis
    unfolding t_memory_def memory_script_def [symmetric]
    by (simp add: next_do_Inr judge_returns result_of_def fit_cfg_def default_config_def from_sum_Inr ret_applied fit_memory_text)
qed

lemma fit_tests:
  "t_boot_and_agent fit_demo fit_cfg initial_vm_state = (Inr (), fit_state 10)"
  "t_pause_resume fit_demo fit_cfg (fit_state 10) = (Inr (), fit_state 19)"
  "t_vcpu_count fit_demo fit_lib fit_cfg (fit_state 19) = (Inr (), fit_state 23)"
  "t_hypervisor_flag fit_demo fit_lib fit_cfg (fit_state 27) = (Inr (), fit_state 31)"
  "t_exit_code fit_demo fit_lib fit_cfg (fit_state 31) = (Inr (), fit_state 35)"
  "t_stdout_capture fit_demo fit_lib fit_cfg (fit_state 35) = (Inr (), fit_state 39)"
  "fst (t_graceful_shutdown fit_demo fit_cfg (fit_state 39)) = Inr ()"
  by code_simp+

lemma fit_args: "parse_command_line [''--image'', ''i''] = \<lparr>pr_cfg = fit_cfg, pr_error = [], pr_help = False\<rparr>"
  by code_simp

lemma fit_selects: "matches_filter t []"
  by (simp add: matches_filter_def)

lemma fit_status: "vx_status (vm_main ''vmtest'' fit_demo fit_lib (\<lambda>p. True) (\<lambda>p. True) show_nat show_nat (+) 0 [''--image'', ''i'']) = 0"
proof -
  obtain s where shut: "t_graceful_shutdown fit_demo fit_cfg (fit_state 39) = (Inr (), s)"
    using fit_tests(7) by (metis prod.collapse)
  have soak: "t_boot_destroy_soak fit_demo fit_cfg s = (Inl (SkipTest ''pass --iterations N to enable the soak test''), s)"
    by (simp add: t_boot_destroy_soak_def fit_cfg_def default_config_def throw_def)
  have "list_all (\<lambda>r. tr_outcome r \<noteq> TFailed) (fst (run_each fit_demo [] (build_tests fit_demo fit_lib fit_cfg) initial_vm_state))"
    by (simp add: build_tests_def fit_selects run_test_def fit_tests fit_memory shut soak outcome_of_def)
  then have "failed_tests (fst (run_each fit_demo [] (build_tests fit_demo fit_lib fit_cfg) initial_vm_state)) = 0"
    by (simp add: failed_tests_0)
  moreover have "\<not> vc_list fit_cfg" "vc_image fit_cfg \<noteq> []" "vc_filter fit_cfg = []" "vc_junit fit_cfg = []"
    by (simp_all add: fit_cfg_def default_config_def)
  ultimately show ?thesis by (simp add: vm_main_def fit_args run_tests_def split_beta Let_def)
qed

definition fit_pid :: "string \<Rightarrow> int" where
  "fit_pid script = int (length (takeWhile (\<lambda>s. s \<noteq> script) guest_scripts))"

lemma fit_protocol:
  "list_all (\<lambda>s. pid_reply (fit_pid s) (the (fit_parse (fit_dump (exec_command ''/bin/sh'' [''-c'', s])))) \<and>
     0 \<le> fit_pid s \<and> fit_pid s < 2 ^ 63 \<and>
     (case fit_behave s of (n, out, err) \<Rightarrow>
       status_reply ''exitcode'' n out err (the (fit_parse (fit_dump (status_command (fit_pid s))))))) guest_scripts"
  by code_simp

lemma fit_parse_Some: "fit_parse w = Some (the (fit_parse w))"
  by (simp add: fit_parse_def)

lemma fit_runs: "script \<in> set guest_scripts \<Longrightarrow> guest_runs fit_demo fit_lib vm t script (fit_behave script)"
proof -
  assume s: "script \<in> set guest_scripts"
  note p = fit_protocol [unfolded list_all_iff, rule_format, OF s]
  note last = conjunct2 [OF conjunct2 [OF conjunct2 [OF p]]]
  have reply: "ve_agent fit_demo t vm (jl_dump fit_lib v) 10 = Inr (fit_dump v) \<and>
      jl_parse fit_lib (fit_dump v) = Some (the (fit_parse (fit_dump v)))" for t v
    unfolding fit_parse_Some [symmetric] by (simp add: fit_demo_def fit_env_def fit_lib_def)
  have "\<exists>txt j. ve_agent fit_demo u vm (jl_dump fit_lib (status_command (fit_pid script))) 10 = Inr txt \<and>
      jl_parse fit_lib txt = Some j \<and>
      (if i < 0 then running_reply j else case fit_behave script of (n, out, err) \<Rightarrow> status_reply ''exitcode'' n out err j)"
    for i u :: nat
    by (rule exI [of _ "fit_dump (status_command (fit_pid script))"],
        rule exI [of _ "the (fit_parse (fit_dump (status_command (fit_pid script))))"])
      (simp only: not_less_zero if_False reply last simp_thms)
  moreover have "\<exists>txt j. ve_agent fit_demo t vm (jl_dump fit_lib (exec_command ''/bin/sh'' [''-c'', script])) 10 = Inr txt \<and>
      jl_parse fit_lib txt = Some j \<and> pid_reply (fit_pid script) j" for t
    using p reply [of t "exec_command ''/bin/sh'' [''-c'', script]"] by blast
  ultimately show ?thesis
    unfolding guest_runs_def using p
    by (intro exI [of _ "fit_pid script"] exI [of _ 0]) (simp only: le0 simp_thms)
qed

theorem exit_zero_means_guest_fits_witness: "guest_fits fit_cfg fit_behave"
proof -
  have codes: "- (2 ^ 31) \<le> fst (fit_behave script) \<and> fst (fit_behave script) < 2 ^ 31" for script
    by (simp add: fit_behave_def)
  show ?thesis
    by (rule exit_zero_means_guest_fits [OF fit_args _ _ _ _ fit_runs codes fit_status]) (simp_all add: fit_cfg_def default_config_def)
qed

end
