(* ===== verification/Vmtest_Handles.thy ===== *)
theory Vmtest_Handles
  imports Vmtest_Lifecycle Transition_System
begin

section \<open>Who owns the libvirt handles (vmtest/virt.hpp, virt.cpp), and the end of the program\<close>

text \<open>
  \<open>Domain\<close> is a move-only owner of a \<open>virDomainPtr\<close>, \<open>Connection\<close> the owner of the \<open>virConnectPtr\<close>. The state has
  the \<open>Domain\<close> objects that exist, a map from the places of the program where one can live (the member \<open>vm_\<close>, local
  variables, temporaries), the handles libvirt has given out, numbered from 0, and the log of \<open>virDomainFree\<close>. libvirt
  counts references: a connection is closed for good when its own reference and those of all its domain handles are gone.
\<close>

subsection \<open>Objects and operations\<close>

record dom_obj =
  do_handle :: "nat option"
  do_name :: string

record 'v handle_state =
  hs_objs :: "'v \<Rightarrow> dom_obj option"
  hs_next :: nat
  hs_freed :: "nat list"
  hs_conn :: bool

definition default_domain :: dom_obj where
  "default_domain = \<lparr>do_handle = None, do_name = []\<rparr>"

definition make_domain :: "nat \<Rightarrow> string \<Rightarrow> dom_obj" where
  "make_domain d name = \<lparr>do_handle = Some d, do_name = name\<rparr>"

definition dom_valid :: "dom_obj \<Rightarrow> bool" where
  "dom_valid d \<longleftrightarrow> do_handle d \<noteq> None"

text \<open>The destructor, on the log; the moved-from object: a null handle, and of the name nothing is known, here it is empty.\<close>

definition free_domain :: "dom_obj \<Rightarrow> nat list \<Rightarrow> nat list" where
  "free_domain d log = (case do_handle d of Some h \<Rightarrow> log @ [h] | None \<Rightarrow> log)"

definition move_construct :: "dom_obj \<Rightarrow> dom_obj \<times> dom_obj" where
  "move_construct src = (\<lparr>do_handle = do_handle src, do_name = do_name src\<rparr>, src\<lparr>do_handle := None, do_name := []\<rparr>)"

definition move_assign :: "'v \<Rightarrow> 'v \<Rightarrow> 'v handle_state \<Rightarrow> 'v handle_state" where
  "move_assign v w s =
     (if v = w then s
      else case (hs_objs s v, hs_objs s w) of
        (Some d, Some src) \<Rightarrow>
          s\<lparr>hs_freed := free_domain d (hs_freed s),
            hs_objs := (hs_objs s)(v \<mapsto> fst (move_construct src), w \<mapsto> snd (move_construct src))\<rparr>
      | _ \<Rightarrow> s)"

text \<open>\<open>Domain::create_transient\<close>; \<open>started\<close> says whether \<open>virDomainCreateXML\<close> returned a handle. Otherwise it throws.\<close>

definition create_domain :: "bool \<Rightarrow> 'v \<Rightarrow> string \<Rightarrow> 'v handle_state \<Rightarrow> 'v handle_state" where
  "create_domain started v name s =
     (if \<not> started then s
      else s\<lparr>hs_objs := (hs_objs s)(v \<mapsto> make_domain (hs_next s) name), hs_next := Suc (hs_next s)\<rparr>)"

datatype 'v handle_op =
    Connect bool
  | Disconnect
  | Default 'v
  | Create bool 'v string
  | Move 'v 'v
  | Assign 'v 'v
  | Drop 'v

text \<open>
  A place holds at most one object; a domain is created on an open connection, and \<open>virConnectOpen\<close> may fail: then the
  constructor throws and there is no \<open>Connection\<close> object. There is at most one connection, as in \<open>Context\<close>.
\<close>

fun handle_legal :: "'v handle_op \<Rightarrow> 'v handle_state \<Rightarrow> bool" where
  "handle_legal (Connect opened) s \<longleftrightarrow> \<not> hs_conn s"
| "handle_legal Disconnect s \<longleftrightarrow> hs_conn s"
| "handle_legal (Default v) s \<longleftrightarrow> hs_objs s v = None"
| "handle_legal (Create started v name) s \<longleftrightarrow> hs_conn s \<and> hs_objs s v = None"
| "handle_legal (Move v w) s \<longleftrightarrow> hs_objs s v = None \<and> hs_objs s w \<noteq> None"
| "handle_legal (Assign v w) s \<longleftrightarrow> hs_objs s v \<noteq> None \<and> hs_objs s w \<noteq> None"
| "handle_legal (Drop v) s \<longleftrightarrow> hs_objs s v \<noteq> None"

fun handle_step :: "'v handle_op \<Rightarrow> 'v handle_state \<Rightarrow> 'v handle_state" where
  "handle_step (Connect opened) s = s\<lparr>hs_conn := opened\<rparr>"
| "handle_step Disconnect s = s\<lparr>hs_conn := False\<rparr>"
| "handle_step (Default v) s = s\<lparr>hs_objs := (hs_objs s)(v \<mapsto> default_domain)\<rparr>"
| "handle_step (Create started v name) s = create_domain started v name s"
| "handle_step (Move v w) s =
     (case hs_objs s w of
        Some src \<Rightarrow> s\<lparr>hs_objs := (hs_objs s)(v \<mapsto> fst (move_construct src), w \<mapsto> snd (move_construct src))\<rparr>
      | None \<Rightarrow> s)"
| "handle_step (Assign v w) s = move_assign v w s"
| "handle_step (Drop v) s =
     (case hs_objs s v of
        Some d \<Rightarrow> s\<lparr>hs_freed := free_domain d (hs_freed s), hs_objs := (hs_objs s)(v := None)\<rparr>
      | None \<Rightarrow> s)"

definition no_handles :: "'v handle_state" where
  "no_handles = \<lparr>hs_objs = (\<lambda>_. None), hs_next = 0, hs_freed = [], hs_conn = False\<rparr>"

definition legal_step :: "'v handle_state \<Rightarrow> 'v handle_op \<Rightarrow> 'v handle_state \<Rightarrow> bool" where
  "legal_step s e s' \<longleftrightarrow> handle_legal e s \<and> s' = handle_step e s"

text \<open>The references to the connection that libvirt counts.\<close>

definition conn_refs :: "'v handle_state \<Rightarrow> nat" where
  "conn_refs s = (if hs_conn s then 1 else 0) + card {h. h < hs_next s \<and> h \<notin> set (hs_freed s)}"

subsection \<open>Every handle has one owner and is freed once\<close>

definition holds :: "('v \<Rightarrow> dom_obj option) \<Rightarrow> 'v \<Rightarrow> nat \<Rightarrow> bool" where
  "holds objs v h \<longleftrightarrow> (\<exists>d. objs v = Some d \<and> do_handle d = Some h)"

definition handles_ok :: "'v handle_state \<Rightarrow> bool" where
  "handles_ok s \<longleftrightarrow>
     distinct (hs_freed s) \<and>
     (\<forall>h \<in> set (hs_freed s). h < hs_next s) \<and>
     (\<forall>v h. holds (hs_objs s) v h \<longrightarrow> h < hs_next s \<and> h \<notin> set (hs_freed s)) \<and>
     (\<forall>v w h. holds (hs_objs s) v h \<longrightarrow> holds (hs_objs s) w h \<longrightarrow> v = w) \<and>
     (\<forall>h < hs_next s. h \<in> set (hs_freed s) \<or> (\<exists>v. holds (hs_objs s) v h))"

lemma handles_okI:
  assumes "distinct freed" "\<And>h. h \<in> set freed \<Longrightarrow> h < n"
    and "\<And>v h. holds objs v h \<Longrightarrow> h < n \<and> h \<notin> set freed"
    and "\<And>v w h. holds objs v h \<Longrightarrow> holds objs w h \<Longrightarrow> v = w"
    and "\<And>h. h < n \<Longrightarrow> h \<notin> set freed \<Longrightarrow> \<exists>v. holds objs v h"
  shows "handles_ok \<lparr>hs_objs = objs, hs_next = n, hs_freed = freed, hs_conn = c\<rparr>"
  unfolding handles_ok_def using assms by simp blast

lemma handles_okD:
  assumes "handles_ok s"
  shows "distinct (hs_freed s)" "h \<in> set (hs_freed s) \<Longrightarrow> h < hs_next s"
    and "holds (hs_objs s) v h \<Longrightarrow> h < hs_next s \<and> h \<notin> set (hs_freed s)"
    and "holds (hs_objs s) v h \<Longrightarrow> holds (hs_objs s) w h \<Longrightarrow> v = w"
    and "h < hs_next s \<Longrightarrow> h \<notin> set (hs_freed s) \<Longrightarrow> \<exists>v. holds (hs_objs s) v h"
proof -
  note all = assms [unfolded handles_ok_def]
  show "distinct (hs_freed s)" using all by blast
  show "h \<in> set (hs_freed s) \<Longrightarrow> h < hs_next s" using all by blast
  show "holds (hs_objs s) v h \<Longrightarrow> h < hs_next s \<and> h \<notin> set (hs_freed s)" using all by simp
  show "holds (hs_objs s) v h \<Longrightarrow> holds (hs_objs s) w h \<Longrightarrow> v = w" using all by simp
  show "h < hs_next s \<Longrightarrow> h \<notin> set (hs_freed s) \<Longrightarrow> \<exists>v. holds (hs_objs s) v h" using all by blast
qed

lemma holds_update [simp]:
  "holds (objs(v := x)) w h \<longleftrightarrow> (if w = v then (\<exists>d. x = Some d \<and> do_handle d = Some h) else holds objs w h)"
  by (simp add: holds_def)

lemma move_construct_handles [simp]:
  "do_handle (fst (move_construct src)) = do_handle src" "do_handle (snd (move_construct src)) = None"
  by (simp_all add: move_construct_def)

text \<open>Three things can happen to the handles: a new one, one that changes its place, and one that is freed.\<close>

lemma ok_new:
  assumes "handles_ok s" "hs_objs s v = None" "do_handle d = Some (hs_next s)"
  shows "handles_ok (s\<lparr>hs_objs := (hs_objs s)(v \<mapsto> d), hs_next := Suc (hs_next s)\<rparr>)"
proof -
  note ok = handles_okD [OF assms(1)]
  have none: "\<not> holds (hs_objs s) v h" for h using assms(2) by (simp add: holds_def)
  have "handles_ok \<lparr>hs_objs = (hs_objs s)(v \<mapsto> d), hs_next = Suc (hs_next s), hs_freed = hs_freed s, hs_conn = hs_conn s\<rparr>"
  proof (rule handles_okI)
    show "h < Suc (hs_next s)" if "h \<in> set (hs_freed s)" for h using ok(2) [OF that] by simp
    show "h < Suc (hs_next s) \<and> h \<notin> set (hs_freed s)" if "holds ((hs_objs s)(v \<mapsto> d)) w h" for w h
      using that assms(3) ok(2) [of h] ok(3) [of w h] by (auto split: if_splits)
    show "w = u" if "holds ((hs_objs s)(v \<mapsto> d)) w h" "holds ((hs_objs s)(v \<mapsto> d)) u h" for w u h
      using that assms(3) ok(3) [of w h] ok(3) [of u h] ok(4) [of w h u] by (auto split: if_splits)
    show "\<exists>w. holds ((hs_objs s)(v \<mapsto> d)) w h" if h: "h < Suc (hs_next s)" "h \<notin> set (hs_freed s)" for h
    proof (cases "h = hs_next s")
      case True
      then show ?thesis using assms(3) by (intro exI [of _ v]) simp
    next
      case False
      then obtain w where "holds (hs_objs s) w h" using ok(5) [of h] h by auto
      then show ?thesis using none by (intro exI [of _ w]) auto
    qed
  qed (rule ok(1))
  then show ?thesis by (cases s) simp
qed

lemma ok_move:
  assumes "handles_ok s" "hs_objs s v = None \<or> do_handle (the (hs_objs s v)) = None" "hs_objs s w = Some src" "v \<noteq> w"
    and "do_handle d = do_handle src" "do_handle d' = None"
  shows "handles_ok (s\<lparr>hs_objs := (hs_objs s)(v \<mapsto> d, w \<mapsto> d')\<rparr>)"
proof -
  note ok = handles_okD [OF assms(1)]
  let ?objs = "(hs_objs s)(v \<mapsto> d, w \<mapsto> d')"
  have none: "\<not> holds (hs_objs s) v h" for h using assms(2) by (auto simp: holds_def)
  have new: "holds ?objs u h \<longleftrightarrow> (if u = v then holds (hs_objs s) w h else u \<noteq> w \<and> holds (hs_objs s) u h)" for u h
    using assms(3-6) by (auto simp: holds_def)
  have "handles_ok \<lparr>hs_objs = ?objs, hs_next = hs_next s, hs_freed = hs_freed s, hs_conn = hs_conn s\<rparr>"
  proof (rule handles_okI)
    show "h < hs_next s \<and> h \<notin> set (hs_freed s)" if "holds ?objs u h" for u h
      using that ok(3) unfolding new by (auto split: if_splits)
    show "u = x" if "holds ?objs u h" "holds ?objs x h" for u x h
      using that ok(4) unfolding new by (auto split: if_splits)
    show "\<exists>u. holds ?objs u h" if "h < hs_next s" "h \<notin> set (hs_freed s)" for h
      using ok(5) [OF that] none unfolding new by metis
  qed (use ok in auto)
  then show ?thesis by (cases s) simp
qed

lemma ok_free:
  assumes "handles_ok s" "hs_objs s v = Some d" "x = None \<or> do_handle (the x) = None"
  shows "handles_ok (s\<lparr>hs_freed := free_domain d (hs_freed s), hs_objs := (hs_objs s)(v := x)\<rparr>)"
proof -
  note ok = handles_okD [OF assms(1)]
  let ?objs = "(hs_objs s)(v := x)" and ?log = "free_domain d (hs_freed s)"
  have d: "holds (hs_objs s) v h \<longleftrightarrow> do_handle d = Some h" for h using assms(2) by (simp add: holds_def)
  have log: "set ?log = set (hs_freed s) \<union> {h. do_handle d = Some h}"
    by (auto simp: free_domain_def split: option.split)
  have new: "holds ?objs u h \<longleftrightarrow> u \<noteq> v \<and> holds (hs_objs s) u h" for u h
    using assms(3) by (auto simp: holds_def)
  have "handles_ok \<lparr>hs_objs = ?objs, hs_next = hs_next s, hs_freed = ?log, hs_conn = hs_conn s\<rparr>"
  proof (rule handles_okI)
    show "distinct ?log" using ok(1) ok(3) [of v] d by (auto simp: free_domain_def split: option.split)
    show "h < hs_next s" if "h \<in> set ?log" for h using that ok(2) [of h] ok(3) [of v h] d log by auto
    show "h < hs_next s \<and> h \<notin> set ?log" if "holds ?objs u h" for u h
      using that ok(3) [of u h] ok(4) [of u h v] d log unfolding new by auto
    show "u = w" if "holds ?objs u h" "holds ?objs w h" for u w h
      using that ok(4) unfolding new by blast
    show "\<exists>u. holds ?objs u h" if "h < hs_next s" "h \<notin> set ?log" for h
      using ok(5) [of h] that d log unfolding new by (metis UnI1 UnI2 mem_Collect_eq)
  qed
  then show ?thesis by (cases s) simp
qed

lemma handles_ok_step:
  assumes ok: "handles_ok s" and step: "legal_step s e s'"
  shows "handles_ok s'"
proof (cases e)
  case (Connect b)
  then show ?thesis using assms by (simp add: legal_step_def handles_ok_def)
next
  case Disconnect
  then show ?thesis using assms by (simp add: legal_step_def handles_ok_def)
next
  case (Default v)
  have "holds ((hs_objs s)(v \<mapsto> default_domain)) w h \<longleftrightarrow> holds (hs_objs s) w h" for w h
    using Default step by (auto simp: legal_step_def default_domain_def holds_def)
  then show ?thesis using ok Default step unfolding legal_step_def handles_ok_def by simp
next
  case (Create started v name)
  then show ?thesis using ok ok_new [OF ok, of v "make_domain (hs_next s) name"] step
    by (auto simp: legal_step_def create_domain_def make_domain_def)
next
  case (Move v w)
  then obtain src where o: "hs_objs s v = None" "hs_objs s w = Some src" using step by (auto simp: legal_step_def)
  then have "v \<noteq> w" by auto
  from ok_move [OF ok _ o(2) this, of "fst (move_construct src)" "snd (move_construct src)"] show ?thesis
    using Move o step by (simp add: legal_step_def)
next
  case (Assign v w)
  then obtain d src where o: "hs_objs s v = Some d" "hs_objs s w = Some src" using step by (auto simp: legal_step_def)
  let ?s = "s\<lparr>hs_freed := free_domain d (hs_freed s), hs_objs := (hs_objs s)(v \<mapsto> default_domain)\<rparr>"
  have "handles_ok ?s" by (rule ok_free [OF ok o(1)]) (simp add: default_domain_def)
  then show ?thesis
    using ok_move [of ?s v w src "fst (move_construct src)" "snd (move_construct src)"] Assign o ok step
    by (auto simp: legal_step_def move_assign_def default_domain_def)
next
  case (Drop v)
  then show ?thesis using ok_free [OF ok, of v _ None] step by (auto simp: legal_step_def)
qed

lemma handles_ok_initial: "handles_ok no_handles"
  by (simp add: no_handles_def handles_ok_def holds_def)

interpretation handles: transition_system "\<lambda>s. s = no_handles" legal_step handles_ok
  by unfold_locales (auto intro: handles_ok_initial handles_ok_step)

text \<open>
  Property C29. Handles: whatever objects a program makes, moves, assigns (to themselves included) and destroys, no handle is freed
  twice and none that an object still holds has been freed; and once every object is gone, all handles that libvirt gave
  out have been freed, so that with the connection's own reference the last one goes.
\<close>

theorem domain_handles_freed_once:
  assumes "run_of legal_step no_handles es s"
  shows "distinct (hs_freed s) \<and> (\<forall>v d h. hs_objs s v = Some d \<and> do_handle d = Some h \<longrightarrow> h \<notin> set (hs_freed s)) \<and>
    (hs_objs s = (\<lambda>_. None) \<longrightarrow> set (hs_freed s) = {..< hs_next s} \<and> (\<not> hs_conn s \<longrightarrow> conn_refs s = 0))"
proof -
  have ok: "handles_ok s" by (rule handles.inv_reached [OF refl assms])
  have all: "set (hs_freed s) = {..< hs_next s}" if "hs_objs s = (\<lambda>_. None)"
  proof -
    have "\<not> holds (hs_objs s) v h" for v h using that by (simp add: holds_def)
    then show ?thesis using handles_okD(2,5) [OF ok] by blast
  qed
  then have "conn_refs s = 0" if "hs_objs s = (\<lambda>_. None)" "\<not> hs_conn s"
    using that by (simp add: conn_refs_def)
  then show ?thesis using handles_okD(1) [OF ok] handles_okD(3) [OF ok] all by (auto simp: holds_def)
qed

text \<open>The life of the shared guest: created in \<open>boot_fresh_vm\<close>, returned, moved into the context, replaced, dropped.\<close>

definition guest_ops :: "string handle_op list" where
  "guest_ops =
     [Connect True, Create True ''vm'' ''vmtest-7-1'', Move ''ret'' ''vm'', Drop ''vm'', Move ''vm_'' ''ret'', Drop ''ret'',
      Create True ''vm'' ''vmtest-7-2'', Assign ''vm_'' ''vm'', Assign ''vm_'' ''vm_'', Drop ''vm'', Drop ''vm_'', Disconnect]"

fun run_handles :: "'v handle_op list \<Rightarrow> 'v handle_state \<Rightarrow> 'v handle_state option" where
  "run_handles [] s = Some s"
| "run_handles (e # es) s = (if handle_legal e s then run_handles es (handle_step e s) else None)"

lemma run_handles_run: "run_handles es s = Some s' \<Longrightarrow> run_of legal_step s es s'"
  by (induction es arbitrary: s) (auto simp: run_of_Cons legal_step_def split: if_splits)

theorem domain_handles_freed_once_witness:
  "\<exists>s. run_handles guest_ops no_handles = Some s \<and> set (hs_freed s) = {..< 2} \<and> conn_refs s = 0"
proof -
  obtain s where s: "run_handles guest_ops no_handles = Some s" "hs_objs s = (\<lambda>_. None)" "hs_next s = 2" "\<not> hs_conn s"
    by (simp add: guest_ops_def no_handles_def create_domain_def move_assign_def move_construct_def make_domain_def
        free_domain_def fun_eq_iff)
  then show ?thesis using domain_handles_freed_once [OF run_handles_run [OF s(1)]] by auto
qed

end
