(* ===== verification/Vmtest_Exit.thy ===== *)
theory Vmtest_Exit
  imports Vmtest_Handles
begin

section \<open>The end of a vmtest run: the context goes, and with it the connection\<close>

text \<open>
  When \<open>main\<close> returns, \<open>ctx\<close> is destroyed: \<open>Context::~Context\<close> releases the shared guest once more, then its members
  go, \<open>vm_\<close> before \<open>conn_\<close>. What libvirt does when the connection is closed is the parameter \<open>on_close\<close>: given the
  domains that were started on the connection with AUTODESTROY, and those that run, it gives those that still run.
\<close>

definition close_connection :: "(string list \<Rightarrow> string list \<Rightarrow> string list) \<Rightarrow> vm_state \<Rightarrow> vm_state" where
  "close_connection on_close s =
     (if vs_conn s then s\<lparr>vs_conn := False, vs_domains := on_close (vs_auto s) (vs_domains s)\<rparr> else s)"

definition destroy_context :: "'d virt_env \<Rightarrow> (string list \<Rightarrow> string list \<Rightarrow> string list) \<Rightarrow> vm_state \<Rightarrow> vm_state" where
  "destroy_context env on_close s =
     close_connection on_close ((snd (try_catch (release_vm env) (\<lambda>_. ret ()) s))\<lparr>vs_vm := None\<rparr>)"

subsection \<open>Every domain was started on the connection that is closed, with AUTODESTROY\<close>

definition domains_connected :: "vm_state \<Rightarrow> bool" where
  "domains_connected s \<longleftrightarrow> (vs_domains s \<noteq> [] \<longrightarrow> vs_conn s) \<and> set (vs_domains s) \<subseteq> set (vs_auto s)"

interpretation connected: framed domains_connected
  by unfold_locales (auto simp: domains_connected_def)

lemma keeps_modify_connected:
  "keeps domains_connected (modify (\<lambda>s. s\<lparr>vs_vm := v\<rparr>))" "keeps domains_connected (modify (\<lambda>s. s\<lparr>vs_overlay := p\<rparr>))"
  "keeps domains_connected (modify (\<lambda>s. s\<lparr>vs_next_id := vs_next_id s + 1\<rparr>))"
  "keeps domains_connected (modify (\<lambda>s. if b then s\<lparr>vs_files := f (vs_files s)\<rparr> else s))"
  "keeps domains_connected (set_overlay slot p)"
  by (auto intro!: keepsI simp: wp_modify domains_connected_def set_overlay_def split: overlay_slot.split)

lemmas connected_rules = connected.frame_rules connected.keeps_ask keeps_modify_connected

lemma connected_remove: "keeps domains_connected (remove_file env p)"
  unfolding remove_file_def by (intro connected_rules)

lemma connected_release: "keeps domains_connected (release_vm env)"
  unfolding release_vm_def by (auto intro!: connected_rules connected_remove split: option.split)

lemma connected_overlay: "keeps domains_connected (make_overlay env cfg i)"
  unfolding make_overlay_def Let_def by (intro connected_rules)

text \<open>The connection is open when a domain is started.\<close>

lemma connection_opens:
  assumes "domains_connected s"
  shows "wp (connection env cfg) (\<lambda>_ s'. vs_conn s' \<and> domains_connected s') (\<lambda>_. domains_connected) s"
  using assms
  by (auto simp: connection_def open_connection_def wp_simps check_call_def domains_connected_def split: sum.split)

lemma connected_create:
  assumes "vs_conn s \<and> domains_connected s"
  shows "wp (create_transient env xml name) (\<lambda>_. domains_connected) (\<lambda>_. domains_connected) s"
proof -
  have "VIR_DOMAIN_START_AUTODESTROY AND VIR_DOMAIN_START_AUTODESTROY \<noteq> 0"
    by (simp add: VIR_DOMAIN_START_AUTODESTROY_def)
  then show ?thesis
    using assms
    by (auto simp: create_transient_def create_xml_def wp_simps check_call_def domains_connected_def split: sum.split)
qed

lemma connected_start:
  "keeps domains_connected (next_do (connection env cfg) (\<lambda>_. next_do (create_transient env xml name) (\<lambda>vm.
     next_do (wait_for_agent env cfg vm) (\<lambda>_. ret vm))))"
proof (rule keepsI)
  fix s assume s: "domains_connected s"
  have "keeps domains_connected (next_do (wait_for_agent env cfg vm) (\<lambda>_. ret vm))" for vm
    by (intro connected_rules)
  then show "wp (next_do (connection env cfg) (\<lambda>_. next_do (create_transient env xml name) (\<lambda>vm.
     next_do (wait_for_agent env cfg vm) (\<lambda>_. ret vm)))) (\<lambda>_. domains_connected) (\<lambda>_. domains_connected) s"
    unfolding wp_next_do [of "connection env cfg"] wp_next_do [of "create_transient env xml name"]
    by (intro wp_mono [OF connection_opens [OF s]] wp_mono [OF connected_create] keepsD)
qed

lemma connected_boot: "keeps domains_connected (boot_fresh_vm env cfg slot)"
  unfolding boot_fresh_vm_def Let_def
  by (intro connected_rules connected_overlay connected_start connected_remove)

lemma connected_ensure: "keeps domains_connected (ensure_vm env cfg)"
  unfolding ensure_vm_def boot_shared_def
  by (auto intro!: connected_rules connected_release connected_boot split: option.split)

lemma connected_soak: "keeps domains_connected (t_boot_destroy_soak env cfg)"
proof -
  have "keeps domains_connected (soak_iteration env cfg i)" for i
    unfolding soak_iteration_def remove_local_def soak_body_def
    by (intro connected_rules connected_remove connected_boot)
  then have "keeps domains_connected (soak_loop env cfg is)" for "is"
    by (induction "is") (auto intro!: keeps_rules)
  then show ?thesis
    unfolding t_boot_destroy_soak_def by (intro connected_rules connected_release)
qed

lemma run_tests_connected:
  assumes "domains_connected s"
  shows "domains_connected (snd (run_tests env cfg (build_tests env lib cfg) s))"
proof -
  have "domains_connected (snd (run_each env (vc_filter cfg) (build_tests env lib cfg) s))"
    using connected.keeps_tests [OF connected_ensure connected_release connected_soak] assms
    by (rule connected.keeps_run_each)
  from keeps_final [OF connected_release this] show ?thesis by (simp add: run_tests_def split_beta)
qed

text \<open>
  Property C28. Nothing outlives the program: no domain runs after \<open>main\<close> has returned, whatever the host, the
  guests and the clock did: failed boots, guests that could not be destroyed and tests that were cut short included.
  The hypothesis is libvirt's promise: closing a connection starts no domain and destroys those that were started on it
  with AUTODESTROY; of other domains it says nothing. What the harness contributes is that it starts every domain with that flag and on
  the connection that it closes.
\<close>

theorem no_domain_outlives_main:
  assumes "\<And>auto ds. set (on_close auto ds) \<subseteq> set ds - set auto"
  shows "vs_domains (destroy_context env on_close (vx_state (vm_main prog env lib exists writable fmt1 fmt add zero args))) = []"
proof -
  let ?s = "vx_state (vm_main prog env lib exists writable fmt1 fmt add zero args)"
  have "domains_connected ?s"
  proof (rule vm_main_state [where Q = domains_connected])
    show init: "domains_connected initial_vm_state" by (simp add: initial_vm_state_def domains_connected_def)
    show "domains_connected (snd (run_tests env cfg (build_tests env lib cfg) initial_vm_state))" for cfg
      by (rule run_tests_connected [OF init])
  qed
  moreover have "keeps domains_connected (try_catch (release_vm env) (\<lambda>_. ret ()))"
    by (intro connected_rules connected_release)
  ultimately have last: "domains_connected (snd (try_catch (release_vm env) (\<lambda>_. ret ()) ?s))"
    by (rule keeps_final [rotated])
  define s' where "s' = snd (try_catch (release_vm env) (\<lambda>_. ret ()) ?s)"
  have "domains_connected s'" using last by (simp add: s'_def)
  moreover from this have "on_close (vs_auto s') (vs_domains s') = []"
    using assms [of "vs_auto s'" "vs_domains s'"]
    by (metis Diff_eq_empty_iff domains_connected_def set_empty2 subset_empty)
  ultimately show ?thesis
    by (auto simp: destroy_context_def s'_def [symmetric] close_connection_def domains_connected_def)
qed

text \<open>Guests that never answer: the test fails and the harness does not destroy the domain (\<open>failed_boot_leaves_domain\<close>).\<close>

theorem no_domain_outlives_main_witness:
  "vs_domains (destroy_context (vm_demo_env False) (\<lambda>auto ds. filter (\<lambda>d. d \<notin> set auto) ds)
     (vx_state (vm_demo_run False ''boot''))) = []"
  unfolding vm_demo_run_def by (rule no_domain_outlives_main) auto

end
