(* ===== verification/Valdev.thy ===== *)
theory Valdev
  imports Transition_System "HOL-Library.Word"
begin

section \<open>The validation device (kmod/valdev.c)\<close>

text \<open>
  The character device behind the kernel-module tests: a 4 KiB buffer with read, write and seek, a 64-bit counter and
  statistics. File positions are \<open>loff_t\<close> (64 bits, read as signed), lengths and counts keep their widths.
  User memory and the allocator are arguments: what \<open>memdup_user\<close> and \<open>copy_from_user\<close> deliver, whether
  \<open>copy_to_user\<close> and \<open>kmemdup\<close> succeed. Every operation but \<open>GET_STATS\<close> has one critical section under the
  device's mutex, and is one step.
\<close>

unbundle bit_operations_syntax

datatype kerr = ENOSPC | ENOMEM | EFAULT | EINVAL | ENOTTY

record valdev =
  vd_buf :: "8 word list"
  vd_len :: "32 word"
  vd_counter :: "64 word"
  vd_opens :: "64 word"

definition valdev_buf_size :: nat where
  "valdev_buf_size = 4096"

definition valdev_init :: valdev where
  "valdev_init = \<lparr>vd_buf = replicate valdev_buf_size 0, vd_len = 0, vd_counter = 0, vd_opens = 0\<rparr>"

definition valdev_open :: "valdev \<Rightarrow> valdev" where
  "valdev_open vd = vd\<lparr>vd_opens := vd_opens vd + 1\<rparr>"

subsection \<open>Reading and writing\<close>

definition at_eof :: "64 word \<Rightarrow> valdev \<Rightarrow> bool" where
  "at_eof pos vd \<longleftrightarrow> sint pos < 0 \<or> sint pos \<ge> uint (vd_len vd)"

text \<open>The bytes that reach the user (or an error), and the new file position.\<close>

definition valdev_read :: "bool \<Rightarrow> bool \<Rightarrow> 64 word \<Rightarrow> 64 word \<Rightarrow> valdev \<Rightarrow> (kerr + 8 word list) \<times> 64 word" where
  "valdev_read alloc_ok copy_ok cnt pos vd =
     (if cnt = 0 then (Inr [], pos)
      else if at_eof pos vd then (Inr [], pos)
      else
        let n = min cnt (ucast (vd_len vd) - pos);
            snap = take (unat n) (drop (unat pos) (vd_buf vd))
        in if \<not> alloc_ok then (Inl ENOMEM, pos)
           else if \<not> copy_ok then (Inl EFAULT, pos)
           else (Inr snap, pos + n))"

text \<open>\<open>memcpy(buf + p, bs, length bs)\<close>\<close>

definition put_bytes :: "nat \<Rightarrow> 8 word list \<Rightarrow> 8 word list \<Rightarrow> 8 word list" where
  "put_bytes p bs buf = take p buf @ bs @ drop (p + length bs) buf"

text \<open>The number of bytes written (or an error), the new file position and the new state.\<close>

definition valdev_write ::
  "(64 word \<Rightarrow> kerr + 8 word list) \<Rightarrow> 64 word \<Rightarrow> 64 word \<Rightarrow> valdev \<Rightarrow> (kerr + 64 word) \<times> 64 word \<times> valdev" where
  "valdev_write memdup_user cnt pos vd =
     (if cnt = 0 then (Inr 0, pos, vd)
      else if sint pos < 0 \<or> sint pos \<ge> int valdev_buf_size then (Inl ENOSPC, pos, vd)
      else
        let n = min cnt (of_nat valdev_buf_size - pos) in
        case memdup_user n of
          Inl e \<Rightarrow> (Inl e, pos, vd)
        | Inr tmp \<Rightarrow>
            let pos' = pos + n;
                len' = (if sint pos' > uint (vd_len vd) then ucast pos' else vd_len vd)
            in (Inr n, pos', vd\<lparr>vd_buf := put_bytes (unat pos) tmp (vd_buf vd), vd_len := len'\<rparr>))"

subsection \<open>ioctl\<close>

text \<open>\<open>_IOC\<close> of the Linux headers: direction, type \<open>'V'\<close>, number and size of the argument.\<close>

definition ioc :: "32 word \<Rightarrow> 32 word \<Rightarrow> 32 word \<Rightarrow> 32 word" where
  "ioc dir nr sz = push_bit 30 dir OR push_bit 16 sz OR push_bit 8 0x56 OR nr"

definition ioc_get_version :: "32 word" where "ioc_get_version = ioc 2 1 4"
definition ioc_add_counter :: "32 word" where "ioc_add_counter = ioc 3 2 8"
definition ioc_reset :: "32 word" where "ioc_reset = ioc 0 3 0"
definition ioc_get_stats :: "32 word" where "ioc_get_stats = ioc 2 4 24"

definition valdev_abi_version :: "32 word" where
  "valdev_abi_version = push_bit 16 1 OR 0"

record valdev_stats =
  st_counter :: "64 word"
  st_opens :: "64 word"
  st_buf_len :: "32 word"
  st_reserved :: "32 word"

datatype ioctl_data = NoData | DataU32 "32 word" | DataU64 "64 word" | DataStats valdev_stats

definition add_counter :: "64 word \<Rightarrow> valdev \<Rightarrow> valdev" where
  "add_counter delta vd = vd\<lparr>vd_counter := vd_counter vd + delta\<rparr>"

definition reset_dev :: "valdev \<Rightarrow> valdev" where
  "reset_dev vd = vd\<lparr>vd_counter := 0, vd_len := 0, vd_buf := replicate valdev_buf_size 0\<rparr>"

text \<open>The two halves of \<open>GET_STATS\<close>: counter and length under the lock, the open count behind it.\<close>

definition stats_locked :: "valdev \<Rightarrow> 64 word \<times> 32 word" where
  "stats_locked vd = (vd_counter vd, vd_len vd)"

definition stats_result :: "64 word \<times> 32 word \<Rightarrow> valdev \<Rightarrow> valdev_stats" where
  "stats_result snap vd =
     \<lparr>st_counter = fst snap, st_opens = vd_opens vd, st_buf_len = snd snap, st_reserved = 0\<rparr>"

text \<open>Without interference: \<open>from_user\<close> is the argument read from user memory, \<open>put_ok\<close> whether it can be written.\<close>

definition valdev_ioctl ::
  "32 word \<Rightarrow> 64 word option \<Rightarrow> bool \<Rightarrow> valdev \<Rightarrow> (kerr + ioctl_data) \<times> valdev" where
  "valdev_ioctl cmd from_user put_ok vd =
     (if cmd = ioc_get_version then (if put_ok then Inr (DataU32 valdev_abi_version) else Inl EFAULT, vd)
      else if cmd = ioc_add_counter then
        (case from_user of
           None \<Rightarrow> (Inl EFAULT, vd)
         | Some delta \<Rightarrow>
             let vd' = add_counter delta vd
             in (if put_ok then Inr (DataU64 (vd_counter vd')) else Inl EFAULT, vd'))
      else if cmd = ioc_reset then (Inr NoData, reset_dev vd)
      else if cmd = ioc_get_stats then
        (if put_ok then Inr (DataStats (stats_result (stats_locked vd) vd)) else Inl EFAULT, vd)
      else (Inl ENOTTY, vd))"

subsection \<open>Seeking\<close>

text \<open>\<open>setpos\<close> is the kernel's \<open>vfs_setpos\<close>: the new position, or an error and the old one.\<close>

definition add_overflows :: "64 word \<Rightarrow> 64 word \<Rightarrow> bool" where
  "add_overflows a b \<longleftrightarrow> sint a + sint b \<noteq> sint (a + b)"

definition valdev_llseek ::
  "(64 word \<Rightarrow> 64 word \<Rightarrow> kerr + 64 word) \<Rightarrow> 64 word \<Rightarrow> int \<Rightarrow> 64 word \<Rightarrow> valdev \<Rightarrow> kerr + 64 word" where
  "valdev_llseek setpos off whence f_pos vd =
     (if whence \<noteq> 0 \<and> whence \<noteq> 1 \<and> whence \<noteq> 2 then Inl EINVAL
      else
        let base = (if whence = 0 then 0 else if whence = 1 then f_pos else ucast (vd_len vd)) in
        if add_overflows base off then Inl EINVAL
        else setpos (base + off) (of_nat valdev_buf_size))"

subsection \<open>Interleaved callers\<close>

text \<open>The device and the snapshots of the \<open>GET_STATS\<close> calls that have left the critical section.\<close>

record valdev_sys =
  sy_dev :: valdev
  sy_pending :: "(64 word \<times> 32 word) list"

datatype valdev_event =
    EvOpen
  | EvWrite "64 word \<Rightarrow> kerr + 8 word list" "64 word" "64 word"
  | EvAdd "64 word"
  | EvReset
  | EvStatsLock
  | EvStatsDone nat valdev_stats

text \<open>\<open>memdup_user\<close> delivers the number of bytes it was asked for.\<close>

definition memdup_ok :: "(64 word \<Rightarrow> kerr + 8 word list) \<Rightarrow> 64 word \<Rightarrow> bool" where
  "memdup_ok memdup_user n \<longleftrightarrow> (case memdup_user n of Inl e \<Rightarrow> True | Inr bs \<Rightarrow> length bs = unat n)"

definition valdev_enabled :: "valdev_sys \<Rightarrow> valdev_event \<Rightarrow> bool" where
  "valdev_enabled s e \<longleftrightarrow>
     (case e of
        EvWrite mem cnt pos \<Rightarrow> memdup_ok mem (min cnt (of_nat valdev_buf_size - pos))
      | EvStatsDone i r \<Rightarrow> i < length (sy_pending s) \<and> r = stats_result (sy_pending s ! i) (sy_dev s)
      | _ \<Rightarrow> True)"

definition valdev_apply :: "valdev_event \<Rightarrow> valdev_sys \<Rightarrow> valdev_sys" where
  "valdev_apply e s =
     (case e of
        EvOpen \<Rightarrow> s\<lparr>sy_dev := valdev_open (sy_dev s)\<rparr>
      | EvWrite mem cnt pos \<Rightarrow> s\<lparr>sy_dev := snd (snd (valdev_write mem cnt pos (sy_dev s)))\<rparr>
      | EvAdd delta \<Rightarrow> s\<lparr>sy_dev := add_counter delta (sy_dev s)\<rparr>
      | EvReset \<Rightarrow> s\<lparr>sy_dev := reset_dev (sy_dev s)\<rparr>
      | EvStatsLock \<Rightarrow> s\<lparr>sy_pending := sy_pending s @ [stats_locked (sy_dev s)]\<rparr>
      | EvStatsDone i r \<Rightarrow> s\<lparr>sy_pending := take i (sy_pending s) @ drop (Suc i) (sy_pending s)\<rparr>)"

inductive valdev_step :: "valdev_sys \<Rightarrow> valdev_event \<Rightarrow> valdev_sys \<Rightarrow> bool" where
  valdev_stepI: "valdev_enabled s e \<Longrightarrow> valdev_step s e (valdev_apply e s)"

inductive_simps valdev_step_simp: "valdev_step s e s'"

definition initial_valdev :: valdev_sys where
  "initial_valdev = \<lparr>sy_dev = valdev_init, sy_pending = []\<rparr>"

end
