(* ===== verification/Valdev_Properties.thy ===== *)
theory Valdev_Properties
  imports Valdev
begin

section \<open>The validation device is a bounded file with a counter\<close>

text \<open>
  The specification of the device is a file of at most 4096 bytes with POSIX holes (bytes between the old end and
  the position of a write are zero), an unbounded counter and the number of opens. The device refines it: the
  buffer beyond the length is always zero, so growing the length exposes only zeros.
\<close>

definition contents :: "valdev \<Rightarrow> 8 word list" where
  "contents vd = take (unat (vd_len vd)) (vd_buf vd)"

definition valdev_ok :: "valdev \<Rightarrow> bool" where
  "valdev_ok vd \<longleftrightarrow> length (vd_buf vd) = valdev_buf_size \<and> unat (vd_len vd) \<le> valdev_buf_size \<and>
     vd_buf vd = contents vd @ replicate (valdev_buf_size - unat (vd_len vd)) 0"

definition file_write :: "nat \<Rightarrow> 8 word list \<Rightarrow> 8 word list \<Rightarrow> 8 word list" where
  "file_write p bs f = take p f @ replicate (p - length f) 0 @ bs @ drop (p + length bs) f"

definition file_read :: "nat \<Rightarrow> nat \<Rightarrow> 8 word list \<Rightarrow> 8 word list" where
  "file_read p n f = take n (drop p f)"

subsection \<open>Words as numbers\<close>

lemma sint_nonneg: "\<not> sint w < 0 \<Longrightarrow> sint w = int (unat w)" for w :: "64 word"
  using sint_less [of w] uint_sint [of w] by (simp add: take_bit_int_eq_self)

lemma pos_small: "\<not> (sint pos < 0 \<or> sint pos \<ge> int m) \<Longrightarrow> unat pos < m" for pos :: "64 word"
proof -
  assume "\<not> (sint pos < 0 \<or> sint pos \<ge> int m)"
  then have "int (unat pos) < int m" using sint_nonneg [of pos] by simp
  then show ?thesis by (simp only: of_nat_less_iff)
qed

lemma sint_small: "unat w < 2 ^ 63 \<Longrightarrow> sint w = int (unat w)" for w :: "64 word"
proof -
  assume "unat w < 2 ^ 63"
  then have "int (unat w) < 2 ^ 63" by (metis of_nat_less_iff of_nat_numeral of_nat_power)
  moreover have "- (2 ^ 63) \<le> int (unat w)" by (rule order_trans [of _ 0]) simp_all
  ultimately show ?thesis unfolding sint_uint by (simp add: signed_take_bit_int_eq_self_iff)
qed

lemma write_size:
  fixes pos cnt :: "64 word"
  assumes "unat pos < valdev_buf_size"
  defines "n \<equiv> min cnt (of_nat valdev_buf_size - pos :: 64 word)"
  shows "unat n = min (unat cnt) (valdev_buf_size - unat pos)"
    and "unat (pos + n) = unat pos + unat n" and "unat (pos + n) \<le> valdev_buf_size"
proof -
  have size: "unat (of_nat valdev_buf_size :: 64 word) = valdev_buf_size"
    by (simp add: valdev_buf_size_def)
  then have "pos \<le> of_nat valdev_buf_size" using assms(1) by (simp add: word_le_nat_alt)
  then have "unat (of_nat valdev_buf_size - pos) = valdev_buf_size - unat pos"
    by (simp add: unat_sub size)
  then show n: "unat n = min (unat cnt) (valdev_buf_size - unat pos)"
    unfolding n_def by (simp add: min_def word_le_nat_alt)
  then have "unat pos + unat n \<le> valdev_buf_size" using assms(1) by simp
  then show "unat (pos + n) = unat pos + unat n"
    by (intro unat_add_lem [THEN iffD1]) (simp add: valdev_buf_size_def)
  then show "unat (pos + n) \<le> valdev_buf_size" using \<open>unat pos + unat n \<le> _\<close> by simp
qed

lemma unat_ucast_small: "unat w \<le> valdev_buf_size \<Longrightarrow> unat (ucast w :: 32 word) = unat w" for w :: "64 word"
  by (simp add: unsigned_ucast_eq take_bit_nat_eq_self valdev_buf_size_def)

subsection \<open>Every operation keeps the buffer well formed and acts on the file\<close>

lemma length_file_write: "length (file_write p bs f) = max (length f) (p + length bs)"
  by (simp add: file_write_def max_def min_def)

lemma put_bytes_padded:
  assumes "length f \<le> n" "p + length bs \<le> n"
  shows "put_bytes p bs (f @ replicate (n - length f) 0) =
    file_write p bs f @ replicate (n - length (file_write p bs f)) 0"
proof -
  have "n - length f - (p + length bs - length f) = n - length (file_write p bs f)"
    by (simp add: length_file_write max_def)
  moreover have "min (p - length f) (n - length f) = p - length f" using assms by simp
  ultimately show ?thesis by (simp add: put_bytes_def file_write_def)
qed

lemma valdev_okI:
  assumes "vd_buf vd = f @ replicate (valdev_buf_size - length f) 0" "unat (vd_len vd) = length f"
    "length f \<le> valdev_buf_size"
  shows "valdev_ok vd \<and> contents vd = f"
  using assms by (simp add: valdev_ok_def contents_def)

lemma valdev_okD:
  assumes "valdev_ok vd"
  shows "length (contents vd) = unat (vd_len vd)" "length (contents vd) \<le> valdev_buf_size"
    "vd_buf vd = contents vd @ replicate (valdev_buf_size - length (contents vd)) 0"
proof -
  have b: "length (vd_buf vd) = valdev_buf_size" "unat (vd_len vd) \<le> valdev_buf_size"
    "vd_buf vd = contents vd @ replicate (valdev_buf_size - unat (vd_len vd)) 0"
    using assms unfolding valdev_ok_def by blast+
  show l: "length (contents vd) = unat (vd_len vd)" using b(1,2) by (simp add: contents_def)
  show "length (contents vd) \<le> valdev_buf_size" using b(2) l by simp
  show "vd_buf vd = contents vd @ replicate (valdev_buf_size - length (contents vd)) 0" using b(3) l by simp
qed

text \<open>The file positions at which \<open>valdev_write\<close> writes, and how many bytes fit.\<close>

definition writes_at :: "64 word \<Rightarrow> 64 word \<Rightarrow> bool" where
  "writes_at cnt pos \<longleftrightarrow> cnt \<noteq> 0 \<and> \<not> (sint pos < 0 \<or> sint pos \<ge> int valdev_buf_size)"

definition fits :: "64 word \<Rightarrow> 64 word \<Rightarrow> 64 word" where
  "fits cnt pos = min cnt (of_nat valdev_buf_size - pos)"

lemma write_cases:
  "valdev_write mem cnt pos vd =
    (if \<not> writes_at cnt pos then (if cnt = 0 then Inr 0 else Inl ENOSPC, pos, vd)
     else case mem (fits cnt pos) of
       Inl e \<Rightarrow> (Inl e, pos, vd)
     | Inr bs \<Rightarrow> (Inr (fits cnt pos), pos + fits cnt pos,
         vd\<lparr>vd_buf := put_bytes (unat pos) bs (vd_buf vd),
            vd_len := (if sint (pos + fits cnt pos) > uint (vd_len vd) then ucast (pos + fits cnt pos) else vd_len vd)\<rparr>))"
  unfolding valdev_write_def writes_at_def fits_def Let_def by (simp split: sum.split)

lemma write_refines:
  assumes "valdev_ok vd" "writes_at cnt pos" "mem (fits cnt pos) = Inr bs" "length bs = unat (fits cnt pos)"
  defines "vd' \<equiv> snd (snd (valdev_write mem cnt pos vd))"
  shows "valdev_ok vd' \<and> contents vd' = file_write (unat pos) bs (contents vd) \<and>
    vd_counter vd' = vd_counter vd \<and> vd_opens vd' = vd_opens vd"
proof -
  have pos: "unat pos < valdev_buf_size" using assms(2) pos_small unfolding writes_at_def by blast
  note sz = write_size [OF pos, of cnt, folded fits_def]
  let ?p = "pos + fits cnt pos"
  have end_pos: "unat ?p = unat pos + length bs" using sz(2) assms(4) by simp
  have "sint ?p = int (unat ?p)" by (rule sint_small) (use sz(3) in \<open>simp add: valdev_buf_size_def\<close>)
  then have cmp: "sint ?p > uint (vd_len vd) \<longleftrightarrow> unat ?p > unat (vd_len vd)"
    by (metis of_nat_less_iff of_nat_unat)
  have len: "unat (if sint ?p > uint (vd_len vd) then ucast ?p else vd_len vd) =
      length (file_write (unat pos) bs (contents vd))"
    using unat_ucast_small [OF sz(3)] unfolding cmp length_file_write valdev_okD(1) [OF assms(1)] end_pos by simp
  have buf: "put_bytes (unat pos) bs (vd_buf vd) = file_write (unat pos) bs (contents vd) @
      replicate (valdev_buf_size - length (file_write (unat pos) bs (contents vd))) 0"
    using put_bytes_padded [OF valdev_okD(2) [OF assms(1)]] sz(3) end_pos
    by (subst valdev_okD(3) [OF assms(1)]) simp
  have fit: "length (file_write (unat pos) bs (contents vd)) \<le> valdev_buf_size"
    using sz(3) end_pos valdev_okD(2) [OF assms(1)] by (simp add: length_file_write)
  have vd': "vd' = vd\<lparr>vd_buf := put_bytes (unat pos) bs (vd_buf vd),
      vd_len := (if sint ?p > uint (vd_len vd) then ucast ?p else vd_len vd)\<rparr>"
    unfolding vd'_def write_cases using assms(2,3) by simp
  have "valdev_ok vd' \<and> contents vd' = file_write (unat pos) bs (contents vd)"
    by (rule valdev_okI) (use buf len fit in \<open>simp_all add: vd'\<close>)
  then show ?thesis by (simp add: vd')
qed

lemma ok_frame [simp]:
  "valdev_ok (vd\<lparr>vd_counter := c\<rparr>) = valdev_ok vd" "contents (vd\<lparr>vd_counter := c\<rparr>) = contents vd"
  "valdev_ok (vd\<lparr>vd_opens := n\<rparr>) = valdev_ok vd" "contents (vd\<lparr>vd_opens := n\<rparr>) = contents vd"
  by (simp_all add: valdev_ok_def contents_def)

lemma reset_ok: "valdev_ok (reset_dev vd)" "contents (reset_dev vd) = []"
  by (simp_all add: valdev_ok_def contents_def reset_dev_def)

lemma init_ok: "valdev_ok valdev_init" "contents valdev_init = []"
  by (simp_all add: valdev_ok_def contents_def valdev_init_def)

subsection \<open>Refinement\<close>

text \<open>The abstract state: the bytes of the file, the counter and the number of opens, both unbounded.\<close>

type_synonym abs_file = "8 word list \<times> int \<times> int"

definition abs_step :: "valdev_event \<Rightarrow> abs_file \<Rightarrow> abs_file" where
  "abs_step e a =
     (case a of (f, tot, opens) \<Rightarrow>
        (case e of
           EvOpen \<Rightarrow> (f, tot, opens + 1)
         | EvWrite mem cnt pos \<Rightarrow>
             (if \<not> writes_at cnt pos then a
              else case mem (fits cnt pos) of Inl err \<Rightarrow> a | Inr bs \<Rightarrow> (file_write (unat pos) bs f, tot, opens))
         | EvAdd delta \<Rightarrow> (f, tot + uint delta, opens)
         | EvReset \<Rightarrow> ([], 0, opens)
         | EvStatsLock \<Rightarrow> a
         | EvStatsDone i r \<Rightarrow> a))"

definition refines :: "valdev_sys \<Rightarrow> abs_file \<Rightarrow> bool" where
  "refines s a \<longleftrightarrow> valdev_ok (sy_dev s) \<and> contents (sy_dev s) = fst a \<and>
     uint (vd_counter (sy_dev s)) = fst (snd a) mod 2 ^ 64 \<and> uint (vd_opens (sy_dev s)) = snd (snd a) mod 2 ^ 64"

lemma uint_add64: "uint (w + v) = (uint w + uint v) mod 2 ^ 64" for w v :: "64 word"
  by (simp add: uint_word_ariths)

lemma refines_write:
  assumes "refines s a" "memdup_ok mem (fits cnt pos)"
  shows "refines (valdev_apply (EvWrite mem cnt pos) s) (abs_step (EvWrite mem cnt pos) a)"
proof (cases "writes_at cnt pos")
  case True
  show ?thesis
  proof (cases "mem (fits cnt pos)")
    case (Inl e)
    then show ?thesis using assms(1) True
      by (simp add: valdev_apply_def write_cases abs_step_def split: prod.split)
  next
    case (Inr bs)
    have "length bs = unat (fits cnt pos)" using assms(2) by (simp add: memdup_ok_def Inr)
    from write_refines [where mem = mem, OF _ True Inr this, of "sy_dev s"] assms(1) show ?thesis
      by (auto simp: refines_def valdev_apply_def abs_step_def True Inr split: prod.split)
  qed
qed (use assms(1) in \<open>simp add: valdev_apply_def write_cases abs_step_def split: prod.split\<close>)

interpretation dev: simulation valdev_step abs_step refines
proof
  fix s a e s' assume r: "refines s a" and "valdev_step s e s'"
  then have s': "s' = valdev_apply e s" and en: "valdev_enabled s e" by (auto simp: valdev_step_simp)
  obtain f tot ops where a: "a = (f, tot, ops)" by (cases a) auto
  show "refines s' (abs_step e a)"
  proof (cases e)
    case (EvWrite mem cnt pos)
    then show ?thesis using refines_write [OF r] en by (simp add: s' valdev_enabled_def fits_def)
  next
    case (EvAdd delta)
    then show ?thesis using r
      by (simp add: s' a refines_def valdev_apply_def abs_step_def add_counter_def
          uint_add64 mod_add_left_eq)
  next
    case EvOpen
    then show ?thesis using r
      by (simp add: s' a refines_def valdev_apply_def abs_step_def valdev_open_def
          uint_add64 mod_add_left_eq)
  next
    case EvReset
    then show ?thesis using r reset_ok
      by (simp add: s' a refines_def valdev_apply_def abs_step_def) (simp add: reset_dev_def)
  qed (use r in \<open>simp_all add: s' a refines_def valdev_apply_def abs_step_def\<close>)
qed

lemma refines_init: "refines initial_valdev ([], 0, 0)"
  using init_ok by (simp add: refines_def initial_valdev_def) (simp add: valdev_init_def)

lemma read_refines:
  assumes "valdev_ok vd" "(r, pos') = valdev_read True True cnt pos vd"
  shows "r = Inr (if sint pos < 0 then [] else file_read (unat pos) (unat cnt) (contents vd)) \<and>
    unat pos' = unat pos + length (case r of Inr bs \<Rightarrow> bs | Inl e \<Rightarrow> [])"
proof -
  note ok = valdev_okD [OF assms(1)]
  consider "cnt = 0" | "cnt \<noteq> 0" "sint pos < 0" | "cnt \<noteq> 0" "\<not> sint pos < 0" "sint pos \<ge> uint (vd_len vd)"
    | "cnt \<noteq> 0" "\<not> at_eof pos vd"
    by (auto simp: at_eof_def)
  then show ?thesis
  proof cases
    case 3
    then have "int (unat (vd_len vd)) \<le> int (unat pos)" using sint_nonneg [of pos] by simp
    then have "unat (vd_len vd) \<le> unat pos" by (simp only: of_nat_le_iff)
    then show ?thesis using 3 assms(2) ok(1) by (simp add: valdev_read_def at_eof_def file_read_def)
  next
    case 4
    then have "\<not> (sint pos < 0 \<or> sint pos \<ge> int (unat (vd_len vd)))" by (simp add: at_eof_def)
    then have pos: "unat pos < unat (vd_len vd)" by (rule pos_small)
    let ?n = "min cnt (ucast (vd_len vd) - pos)"
    have len: "unat (ucast (vd_len vd) :: 64 word) = unat (vd_len vd)"
      by (simp add: unsigned_ucast_eq take_bit_nat_eq_self unsigned_less [THEN order_less_trans])
    then have "unat (ucast (vd_len vd) - pos) = unat (vd_len vd) - unat pos"
      using pos by (subst unat_sub) (simp_all add: word_le_nat_alt)
    then have n: "unat ?n = min (unat cnt) (unat (vd_len vd) - unat pos)"
      by (simp add: min_def word_le_nat_alt)
    have snap: "take (unat ?n) (drop (unat pos) (vd_buf vd)) = file_read (unat pos) (unat cnt) (contents vd)"
      unfolding n file_read_def contents_def by (simp add: drop_take take_take min.commute)
    have "length (file_read (unat pos) (unat cnt) (contents vd)) = unat ?n"
      using ok(1) by (simp add: n file_read_def)
    moreover have "unat (pos + ?n) = unat pos + unat ?n"
      using n pos ok by (intro unat_add_lem [THEN iffD1]) (simp add: valdev_buf_size_def)
    ultimately show ?thesis using 4 assms(2) snap by (simp add: valdev_read_def at_eof_def Let_def)
  qed (use assms(2) in \<open>simp_all add: valdev_read_def at_eof_def file_read_def\<close>)
qed

text \<open>
  Property C33. The device is a bounded file: after any interleaving of opens, writes, counter updates, resets and statistics calls,
  its contents are the bytes a POSIX file of at most 4096 bytes has after the same writes, holes read as zeros, every read
  returns the bytes of that file, and counter and open count are the exact sums modulo \<open>2 ^ 64\<close>.
\<close>

theorem device_refines_file:
  assumes "run_of valdev_step initial_valdev es s" "fold abs_step es ([], 0, 0) = (f, tot, opens)"
  shows "contents (sy_dev s) = f \<and> length f \<le> valdev_buf_size \<and>
    uint (vd_counter (sy_dev s)) = tot mod 2 ^ 64 \<and> uint (vd_opens (sy_dev s)) = opens mod 2 ^ 64 \<and>
    (\<forall>cnt pos. fst (valdev_read True True cnt pos (sy_dev s)) =
      Inr (if sint pos < 0 then [] else file_read (unat pos) (unat cnt) f))"
proof -
  have r: "refines s (f, tot, opens)" using dev.sim_run [OF assms(1) refines_init] assms(2) by simp
  then have "fst (valdev_read True True cnt pos (sy_dev s)) =
      Inr (if sint pos < 0 then [] else file_read (unat pos) (unat cnt) f)" for cnt pos
    using read_refines [OF _ surjective_pairing [symmetric]] by (simp add: refines_def)
  then show ?thesis using r valdev_okD(2) by (auto simp: refines_def)
qed

definition demo_events :: "valdev_event list" where
  "demo_events = [EvOpen, EvWrite (\<lambda>n. Inr [7]) 1 2, EvAdd (- 1), EvAdd 3]"

theorem device_refines_file_witness:
  "\<exists>s. run_of valdev_step initial_valdev demo_events s \<and> contents (sy_dev s) = [0, 0, 7] \<and> uint (vd_counter (sy_dev s)) = 2"
proof -
  have en: "valdev_enabled s (EvWrite (\<lambda>n. Inr [7]) 1 2)" for s
    by (simp add: valdev_enabled_def memdup_ok_def) code_simp
  let ?s = "fold valdev_apply demo_events initial_valdev"
  have run: "run_of valdev_step initial_valdev demo_events ?s"
    unfolding demo_events_def using en
    by (simp add: run_of_Cons valdev_step_simp) (simp add: valdev_enabled_def)
  have a: "fold abs_step demo_events ([], 0, 0) = ([0, 0, 7], 2 ^ 64 + 2, 1)"
    unfolding demo_events_def by code_simp
  show ?thesis using run device_refines_file [OF run a] by auto
qed

text \<open>
  What a write stores is read back: the bytes that fit are returned by a read at the same position, the rest of the
  request is cut off, and nothing else of the file changes; a write that fails changes neither the device nor the
  file position.
\<close>

theorem write_reads_back:
  assumes "valdev_ok vd" "valdev_write mem cnt pos vd = (r, pos', vd')" "memdup_ok mem (fits cnt pos)"
  shows "case r of
      Inl e \<Rightarrow> pos' = pos \<and> vd' = vd
    | Inr n \<Rightarrow> unat n = (if cnt = 0 then 0 else min (unat cnt) (valdev_buf_size - unat pos)) \<and>
        fst (valdev_read True True n pos vd') = (if cnt = 0 then Inr [] else mem n) \<and>
        contents vd' = (if cnt = 0 then contents vd else file_write (unat pos) (projr (mem n)) (contents vd))"
proof (cases "writes_at cnt pos")
  case False
  then show ?thesis using assms(2) by (auto simp: write_cases valdev_read_def)
next
  case True
  then have cnt: "cnt \<noteq> 0" and pos: "\<not> sint pos < 0" "unat pos < valdev_buf_size"
    using pos_small unfolding writes_at_def by blast+
  show ?thesis
  proof (cases "mem (fits cnt pos)")
    case (Inl e)
    then show ?thesis using assms(2) True by (auto simp: write_cases)
  next
    case (Inr bs)
    have len: "length bs = unat (fits cnt pos)" using assms(3) by (simp add: memdup_ok_def Inr)
    have r: "r = Inr (fits cnt pos)" "vd' = snd (snd (valdev_write mem cnt pos vd))"
      using assms(2) True Inr by (auto simp: write_cases)
    note w = write_refines [where mem = mem, OF assms(1) True Inr len, folded r(2)]
    have "fst (valdev_read True True (fits cnt pos) pos vd') = Inr (file_read (unat pos) (length bs) (contents vd'))"
      using read_refines [OF _ surjective_pairing [symmetric], of vd' "fits cnt pos" pos] w pos(1) len by simp
    also have "\<dots> = Inr bs" using w by (simp add: file_read_def file_write_def)
    finally show ?thesis
      using w write_size(1) [OF pos(2), of cnt, folded fits_def] by (simp add: r(1) Inr cnt)
  qed
qed

theorem write_reads_back_witness:
  "fst (valdev_read True True 2 4094 (snd (snd (valdev_write (\<lambda>n. Inr [1, 2]) 5 4094 valdev_init)))) = Inr [1, 2]"
proof -
  obtain r pos' vd' where e: "valdev_write (\<lambda>n. Inr [1, 2]) 5 4094 valdev_init = (r, pos', vd')" by (rule prod_cases3)
  have fit: "fits 5 4094 = 2" by code_simp
  have "writes_at 5 4094" by code_simp
  then have r: "r = Inr 2" using e by (simp add: write_cases fit)
  have "memdup_ok (\<lambda>n. Inr [1, 2]) (fits 5 4094)" by (simp add: memdup_ok_def fit)
  from write_reads_back [OF init_ok(1) e this] show ?thesis by (simp add: e r)
qed

definition interference :: "valdev_event list" where
  "interference = [EvStatsLock, EvAdd 1, EvOpen]"

definition stats_now :: "valdev_sys \<Rightarrow> valdev_stats" where
  "stats_now s = stats_result (stats_locked (sy_dev s)) (sy_dev s)"

text \<open>
  The statistics are no snapshot: a call can return a combination of counter and open count that the device
  never had, because the open count is read behind the critical section, although the ABI promises an atomic snapshot.
\<close>

theorem stats_not_atomic:
  "\<exists>r s. run_of valdev_step initial_valdev (interference @ [EvStatsDone 0 r]) s \<and>
     r \<notin> set (map (\<lambda>n. stats_now (fold valdev_apply (take n interference) initial_valdev)) [0..<4])"
proof (intro exI conjI)
  let ?r = "\<lparr>st_counter = 0, st_opens = 1, st_buf_len = 0, st_reserved = 0\<rparr>"
  let ?s = "fold valdev_apply (interference @ [EvStatsDone 0 ?r]) initial_valdev"
  show "run_of valdev_step initial_valdev (interference @ [EvStatsDone 0 ?r]) ?s"
    by (simp add: interference_def run_of_Cons valdev_step_simp)
      (simp add: valdev_enabled_def valdev_apply_def initial_valdev_def stats_locked_def stats_result_def
        valdev_init_def add_counter_def valdev_open_def)
  have "stats_now (fold valdev_apply (take n interference) initial_valdev) =
      (if n \<le> 1 then ?r\<lparr>st_opens := 0\<rparr> else if n = 2 then ?r\<lparr>st_opens := 0, st_counter := 1\<rparr> else ?r\<lparr>st_counter := 1\<rparr>)" for n
    by (auto simp: interference_def stats_now_def stats_result_def stats_locked_def valdev_apply_def initial_valdev_def
        valdev_init_def add_counter_def valdev_open_def take_Cons' )
  then show "?r \<notin> set (map (\<lambda>n. stats_now (fold valdev_apply (take n interference) initial_valdev)) [0..<4])"
    by (auto split: if_splits)
qed

text \<open>A seek ends within the buffer or its end, or fails; it is exact, whatever the signs and sizes of its arguments.\<close>

lemma seek_in_bounds:
  assumes "valdev_llseek setpos off whence f_pos vd = Inr q"
    and "\<And>p m. setpos p m = (if sint p < 0 \<or> sint p > sint m then Inl EINVAL else Inr p)"
  shows "0 \<le> sint q \<and> sint q \<le> int valdev_buf_size \<and>
    sint q = sint off + (if whence = 0 then 0 else if whence = 1 then sint f_pos else int (unat (vd_len vd)))"
proof -
  have len: "sint (ucast (vd_len vd) :: 64 word) = int (unat (vd_len vd))"
  proof -
    have "unat (ucast (vd_len vd) :: 64 word) = unat (vd_len vd)"
      by (simp add: unsigned_ucast_eq take_bit_nat_eq_self unsigned_less [THEN order_less_trans])
    moreover have "unat (vd_len vd) < 2 ^ 63" using unsigned_less [of "vd_len vd"] by (rule order_less_trans) simp
    ultimately show ?thesis using sint_small by metis
  qed
  have "sint (of_nat valdev_buf_size :: 64 word) = int valdev_buf_size" by (simp add: valdev_buf_size_def)
  then show ?thesis
    using assms(1) len unfolding valdev_llseek_def assms(2) add_overflows_def Let_def
    by (auto split: if_splits)
qed

end
