(* ===== verification/Valdev_Module.thy ===== *)
theory Valdev_Module
  imports Valdev_Properties
begin

section \<open>Loading and unloading the device module (kmod/valdev.c)\<close>

text \<open>
  The module around the device: \<open>valdev_init\<close> (here \<open>module_load\<close>) registers the misc device, \<open>valdev_exit\<close> removes it.
  What \<open>misc_register\<close> answers is an argument. The kernel's part: because \<open>.owner\<close> is \<open>THIS_MODULE\<close>, an open file keeps the
  module loaded; the file operations are called on open files only; loading the module places its static data anew.
\<close>

definition valdev_name :: string where
  "valdev_name = ''valdev''"

record module_state =
  mo_loaded :: bool
  mo_registered :: bool
  mo_sys :: valdev_sys
  mo_files :: nat
  mo_debug :: bool
  mo_log :: "string list"

definition module_out :: module_state where
  "module_out = \<lparr>mo_loaded = False, mo_registered = False, mo_sys = initial_valdev, mo_files = 0, mo_debug = False, mo_log = []\<rparr>"

text \<open>\<open>pr_info\<close>, \<open>pr_err\<close> and \<open>vd_dbg\<close>: a line of the kernel log, the last one only with the parameter \<open>debug\<close>.\<close>

definition log_kernel :: "string \<Rightarrow> module_state \<Rightarrow> module_state" where
  "log_kernel msg s = s\<lparr>mo_log := mo_log s @ [valdev_name @ '': '' @ msg]\<rparr>"

definition vd_dbg :: "string \<Rightarrow> module_state \<Rightarrow> module_state" where
  "vd_dbg msg s = (if mo_debug s then log_kernel msg s else s)"

text \<open>The answer of \<open>valdev_init\<close> and the new state; \<open>ret\<close> is that of \<open>misc_register\<close>.\<close>

definition module_load :: "int \<Rightarrow> module_state \<Rightarrow> int \<times> module_state" where
  "module_load ret s =
     (if ret \<noteq> 0 then (ret, log_kernel (''misc_register failed ('' @ show_int ret @ '')'') s)
      else (0, log_kernel (''loaded, ABI 1.0, /dev/'' @ valdev_name) (s\<lparr>mo_registered := True\<rparr>)))"

definition module_exit :: "module_state \<Rightarrow> module_state" where
  "module_exit s = log_kernel ''unloaded'' (s\<lparr>mo_registered := False\<rparr>)"

definition file_open :: "module_state \<Rightarrow> module_state" where
  "file_open s =
     (let s1 = s\<lparr>mo_sys := valdev_apply EvOpen (mo_sys s)\<rparr>
      in vd_dbg (''open (total '' @ show_int (sint (vd_opens (sy_dev (mo_sys s1)))) @ '')'') s1)"

definition valdev_release :: "module_state \<Rightarrow> module_state" where
  "valdev_release s = vd_dbg ''release'' s"

datatype module_event =
    Insmod int bool
  | Rmmod
  | OpenFile
  | ReleaseFile
  | OnFile valdev_event

text \<open>\<open>insmod\<close> with a value of \<open>debug\<close>; a module whose init function fails is not kept.\<close>

inductive module_step :: "module_state \<Rightarrow> module_event \<Rightarrow> module_state \<Rightarrow> bool" where
  insmod: "\<not> mo_loaded s \<Longrightarrow> module_load ret (s\<lparr>mo_sys := initial_valdev, mo_debug := dbg\<rparr>) = (answer, s') \<Longrightarrow>
     module_step s (Insmod ret dbg) (s'\<lparr>mo_loaded := (answer = 0)\<rparr>)"
| rmmod: "mo_loaded s \<Longrightarrow> mo_files s = 0 \<Longrightarrow> module_step s Rmmod ((module_exit s)\<lparr>mo_loaded := False\<rparr>)"
| open_file: "mo_registered s \<Longrightarrow> module_step s OpenFile ((file_open s)\<lparr>mo_files := Suc (mo_files s)\<rparr>)"
| release_file: "0 < mo_files s \<Longrightarrow> module_step s ReleaseFile ((valdev_release s)\<lparr>mo_files := mo_files s - 1\<rparr>)"
| on_file: "0 < mo_files s \<Longrightarrow> e \<noteq> EvOpen \<Longrightarrow> valdev_enabled (mo_sys s) e \<Longrightarrow>
     module_step s (OnFile e) (s\<lparr>mo_sys := valdev_apply e (mo_sys s)\<rparr>)"

inductive_cases module_stepE: "module_step s e s'"

text \<open>The same step as a function.\<close>

fun module_next :: "module_event \<Rightarrow> module_state \<Rightarrow> module_state option" where
  "module_next (Insmod ret dbg) s =
     (if mo_loaded s then None
      else case module_load ret (s\<lparr>mo_sys := initial_valdev, mo_debug := dbg\<rparr>) of (answer, s') \<Rightarrow>
        Some (s'\<lparr>mo_loaded := (answer = 0)\<rparr>))"
| "module_next Rmmod s = (if mo_loaded s \<and> mo_files s = 0 then Some ((module_exit s)\<lparr>mo_loaded := False\<rparr>) else None)"
| "module_next OpenFile s = (if mo_registered s then Some ((file_open s)\<lparr>mo_files := Suc (mo_files s)\<rparr>) else None)"
| "module_next ReleaseFile s =
     (if 0 < mo_files s then Some ((valdev_release s)\<lparr>mo_files := mo_files s - 1\<rparr>) else None)"
| "module_next (OnFile e) s =
     (if 0 < mo_files s \<and> e \<noteq> EvOpen \<and> valdev_enabled (mo_sys s) e
      then Some (s\<lparr>mo_sys := valdev_apply e (mo_sys s)\<rparr>) else None)"

lemma module_next_step: "module_next e s = Some s' \<Longrightarrow> module_step s e s'"
  by (cases e) (auto split: if_splits prod.splits intro: module_step.intros module_step.release_file [simplified])

fun module_replay :: "module_event list \<Rightarrow> module_state \<Rightarrow> module_state option" where
  "module_replay [] s = Some s"
| "module_replay (e # es) s = (case module_next e s of None \<Rightarrow> None | Some s' \<Rightarrow> module_replay es s')"

lemma module_replay_run: "module_replay es s = Some s' \<Longrightarrow> run_of module_step s es s'"
  by (induction es arbitrary: s) (auto simp: run_of_Cons dest: module_next_step split: option.splits)

subsection \<open>The life of a module\<close>

text \<open>The bounded file the device is, starting afresh with every load; and the opens since the last load.\<close>

definition module_abs :: "module_event \<Rightarrow> abs_file \<Rightarrow> abs_file" where
  "module_abs e a =
     (case e of Insmod ret dbg \<Rightarrow> ([], 0, 0) | OpenFile \<Rightarrow> abs_step EvOpen a | OnFile ev \<Rightarrow> abs_step ev a | _ \<Rightarrow> a)"

fun opens_since :: "nat \<Rightarrow> module_event list \<Rightarrow> nat" where
  "opens_since n [] = n"
| "opens_since n (e # es) = opens_since (case e of Insmod ret dbg \<Rightarrow> 0 | OpenFile \<Rightarrow> Suc n | _ \<Rightarrow> n) es"

lemma log_fields [simp]:
  "mo_loaded (log_kernel m s) = mo_loaded s" "mo_registered (log_kernel m s) = mo_registered s"
  "mo_sys (log_kernel m s) = mo_sys s" "mo_files (log_kernel m s) = mo_files s"
  "mo_loaded (vd_dbg m s) = mo_loaded s" "mo_registered (vd_dbg m s) = mo_registered s"
  "mo_sys (vd_dbg m s) = mo_sys s" "mo_files (vd_dbg m s) = mo_files s"
  by (simp_all add: log_kernel_def vd_dbg_def)

lemma module_load_fields:
  assumes "module_load ret s = (answer, s')"
  shows "answer = ret" "mo_registered s' = (mo_registered s \<or> ret = 0)" "mo_sys s' = mo_sys s" "mo_files s' = mo_files s"
  using assms by (auto simp: module_load_def split: if_splits)

definition module_ok :: "module_state \<Rightarrow> bool" where
  "module_ok s \<longleftrightarrow> (mo_registered s \<longleftrightarrow> mo_loaded s) \<and> (\<not> mo_loaded s \<longrightarrow> mo_files s = 0)"

lemma module_ok_step:
  assumes "module_ok s" "module_step s e s'"
  shows "module_ok s'"
  using assms(2)
proof cases
  case (insmod ret dbg answer t)
  then show ?thesis using assms(1) module_load_fields [OF insmod(4)] by (auto simp: module_ok_def)
qed (use assms(1) in \<open>auto simp: module_ok_def module_exit_def file_open_def valdev_release_def Let_def\<close>)

lemma module_ok_out: "module_ok module_out"
  by (simp add: module_ok_def module_out_def)

interpretation kmod: transition_system "\<lambda>s. s = module_out" module_step module_ok
  by unfold_locales (auto intro: module_ok_out module_ok_step)

interpretation kmod_file: simulation module_step module_abs "\<lambda>s a. refines (mo_sys s) a"
proof
  fix s a e s' assume r: "refines (mo_sys s) a" and step: "module_step s e s'"
  have apply_ev: "refines (valdev_apply ev (mo_sys s)) (abs_step ev a)" if "valdev_enabled (mo_sys s) ev" for ev
    using dev.sim_step [OF r valdev_stepI [OF that]] .
  from step show "refines (mo_sys s') (module_abs e a)"
  proof cases
    case (insmod ret dbg answer t)
    then show ?thesis using module_load_fields(3) [OF insmod(4)] refines_init by (simp add: module_abs_def)
  next
    case open_file
    have "valdev_enabled (mo_sys s) EvOpen" by (simp add: valdev_enabled_def)
    then show ?thesis using open_file apply_ev by (simp add: module_abs_def file_open_def Let_def)
  next
    case (on_file ev)
    then show ?thesis using apply_ev by (simp add: module_abs_def)
  qed (use r in \<open>simp_all add: module_abs_def module_exit_def valdev_release_def\<close>)
qed

lemma abs_opens: "e \<noteq> EvOpen \<Longrightarrow> snd (snd (abs_step e a)) = snd (snd a)"
  by (auto simp: abs_step_def split: valdev_event.split sum.split prod.split)

lemma module_opens:
  assumes "OnFile EvOpen \<notin> set es" "snd (snd a) = int n"
  shows "snd (snd (fold module_abs es a)) = int (opens_since n es)"
  using assms
proof (induction es arbitrary: a n)
  case (Cons e es)
  have "snd (snd (module_abs e a)) = int (case e of Insmod ret dbg \<Rightarrow> 0 | OpenFile \<Rightarrow> Suc n | _ \<Rightarrow> n)"
    using Cons.prems by (cases e) (auto simp: module_abs_def abs_opens, simp add: abs_step_def split_beta)
  then show ?case using Cons by simp
qed simp

lemma no_open_on_file: "run_of module_step s es s' \<Longrightarrow> OnFile EvOpen \<notin> set es"
  by (induction rule: run_of.induct) (auto elim: module_stepE)

text \<open>
  Property C34. The module: the device can be opened exactly while the module is loaded, no file operation runs on a module that is
  gone, a registration that fails leaves nothing behind, and every load presents a fresh device: its contents and its
  counter are those of a bounded file that has seen only the operations since the last load, and its open count, as
  \<open>valdev_ioctl.h\<close> promises, is the number of opens since then.
\<close>

theorem module_serves_fresh_device:
  assumes "run_of module_step module_out es s" "fold module_abs es ([], 0, 0) = (f, tot, opens)"
  shows "(mo_registered s \<longleftrightarrow> mo_loaded s) \<and> (0 < mo_files s \<longrightarrow> mo_loaded s) \<and>
    contents (sy_dev (mo_sys s)) = f \<and> uint (vd_counter (sy_dev (mo_sys s))) = tot mod 2 ^ 64 \<and>
    uint (vd_opens (sy_dev (mo_sys s))) = int (opens_since 0 es) mod 2 ^ 64 \<and>
    (\<forall>ret dbg s'. module_step s (Insmod ret dbg) s' \<longrightarrow>
       (mo_loaded s' \<longleftrightarrow> ret = 0) \<and> sy_dev (mo_sys s') = valdev_init)"
proof -
  have ok: "module_ok s" by (rule kmod.inv_reached [OF refl assms(1)])
  have "refines (mo_sys module_out) ([], 0, 0)" using refines_init by (simp add: module_out_def)
  from kmod_file.sim_run [OF assms(1) this] have r: "refines (mo_sys s) (f, tot, opens)" using assms(2) by simp
  have "opens = int (opens_since 0 es)"
    using module_opens [OF no_open_on_file [OF assms(1)], of "([], 0, 0)" 0] assms(2) by simp
  moreover have "(mo_loaded s' \<longleftrightarrow> ret = 0) \<and> sy_dev (mo_sys s') = valdev_init"
    if "module_step s (Insmod ret dbg) s'" for ret dbg s'
    using that by (auto elim!: module_stepE simp: initial_valdev_def dest: module_load_fields)
  ultimately show ?thesis using ok r by (auto simp: module_ok_def refines_def)
qed

definition kmod_events :: "module_event list" where
  "kmod_events = [Insmod (- 16) False, Insmod 0 True, OpenFile, OnFile (EvAdd 5), ReleaseFile, Rmmod, Insmod 0 False, OpenFile]"

theorem module_serves_fresh_device_witness:
  "\<exists>s. run_of module_step module_out kmod_events s \<and> mo_loaded s \<and> uint (vd_opens (sy_dev (mo_sys s))) = 1 \<and>
     uint (vd_counter (sy_dev (mo_sys s))) = 0"
proof -
  have en: "valdev_enabled s (EvAdd 5)" for s by (simp add: valdev_enabled_def)
  obtain s where s: "module_replay kmod_events module_out = Some s" "mo_loaded s"
    by (simp add: kmod_events_def module_out_def module_load_def module_exit_def file_open_def valdev_release_def Let_def en)
  have "fold module_abs kmod_events ([], 0, 0) = ([], 0, 1)"
    by (simp add: kmod_events_def module_abs_def abs_step_def)
  from module_serves_fresh_device [OF module_replay_run [OF s(1)] this] s show ?thesis
    using module_replay_run [OF s(1)] by (intro exI [of _ s]) (simp add: kmod_events_def)
qed

end
