(* ===== verification/Unit_Tests.thy ===== *)
theory Unit_Tests
  imports Job_File Policy Platcheck Vmtest_Report
begin

section \<open>The repository's unit tests, run on the model\<close>

text \<open>
  What \<open>test_jobs.cpp\<close>, \<open>test_policy.cpp\<close>, \<open>test_checks.cpp\<close> and \<open>test_harness.cpp\<close> assert of the code, evaluated on the
  definitions that model it: one definition per test. Texts that the tests give to the JSON parser are given as the values they
  denote; the temporary directories of the tests are functions; two numbers in the thousands are replaced by small ones, and the
  tests that search long reports (\<open>JsonReportShape\<close>, \<open>CountsAndStructure\<close> and those of the domain XML) are left out.
\<close>

subsection \<open>Job files (\<open>dtest/tests/test_jobs.cpp\<close>)\<close>

definition job_of :: "json \<Rightarrow> job_parse_result" where
  "job_of doc = parse_jobs (\<lambda>_. Some doc) []"

definition obj :: "(string \<times> json) list \<Rightarrow> json" where
  "obj kvs = JObject (fold (\<lambda>(k, v). omap_put k v) kvs [])"

definition strs :: "string list \<Rightarrow> json" where
  "strs ss = JArray (map JString ss)"

definition doc_of :: "json list \<Rightarrow> json" where
  "doc_of ts = obj [(''tasks'', JArray ts)]"

definition small_task :: "(string \<times> json) list \<Rightarrow> json" where
  "small_task extra = obj ([(''name'', JString ''a''), (''argv'', strs [''x''])] @ extra)"

definition test_minimal_file :: bool where
  "test_minimal_file \<longleftrightarrow>
     (let r = job_of (doc_of [obj [(''name'', JString ''a''), (''argv'', strs [''/bin/true''])]]); ts = job_tasks (job r) in
      error r = [] \<and> map task_name ts = [''a''] \<and> map timeout_s ts = [60] \<and> map retries ts = [0])"

definition test_defaults :: bool where
  "test_defaults \<longleftrightarrow>
     (let r = job_of (obj [(''name'', JString ''nightly''),
            (''defaults'', obj [(''timeout_s'', JUInt 30), (''retries'', JUInt 2),
               (''env'', obj [(''A'', JString ''1''), (''B'', JString ''2'')]), (''requires'', strs [''os=linux''])]),
            (''tasks'', JArray
              [obj [(''name'', JString ''inherits''), (''argv'', strs [''/bin/true''])],
               obj [(''name'', JString ''overrides''), (''argv'', strs [''/bin/true'']), (''timeout_s'', JUInt 5), (''retries'', JUInt 0),
                 (''env'', obj [(''B'', JString ''3'')]), (''requires'', strs [''kvm=true''])]])]);
          a = job_tasks (job r) ! 0; b = job_tasks (job r) ! 1
      in error r = [] \<and> job_name (job r) = ''nightly'' \<and> timeout_s a = 30 \<and> retries a = 2 \<and> omap_get (task_env a) ''B'' = Some ''2'' \<and>
         needs a = [''os=linux''] \<and> timeout_s b = 5 \<and> retries b = 0 \<and> omap_get (task_env b) ''A'' = Some ''1'' \<and>
         omap_get (task_env b) ''B'' = Some ''3'' \<and> needs b = [''kvm=true''])"

definition test_repeat :: bool where
  "test_repeat \<longleftrightarrow>
     (let r = job_of (doc_of [obj [(''name'', JString ''soak''), (''argv'', strs [''/bin/true'']), (''repeat'', JUInt 3)]]) in
      error r = [] \<and> map task_name (job_tasks (job r)) = [''soak[1]'', ''soak[2]'', ''soak[3]''])"

text \<open>The bad cases: a document and a part of the message.\<close>

definition bad_jobs :: "(json option \<times> string) list" where
  "bad_jobs =
     [(None, ''not valid JSON''),
      (Some (JArray []), ''must be a JSON object''),
      (Some (obj [(''tasks'', JArray [small_task []]), (''taskz'', JUInt 1)]), ''unknown top-level key '' @ sq ''taskz''),
      (Some (doc_of []), ''non-empty array''),
      (Some (obj []), ''non-empty array''),
      (Some (doc_of [small_task [(''retires'', JUInt 1)]]), ''unknown key '' @ sq ''retires''),
      (Some (doc_of [obj [(''argv'', strs [''x''])]]), sq ''name''),
      (Some (doc_of [obj [(''name'', JString ''a''), (''argv'', strs [])]]), sq ''argv''),
      (Some (doc_of [obj [(''name'', JString ''a''), (''argv'', strs [[]])]]), sq ''argv''),
      (Some (doc_of [obj [(''name'', JString ''a''), (''argv'', JArray [JUInt 1])]]), sq ''argv''),
      (Some (doc_of [small_task [(''timeout_s'', JUInt 0)]]), ''timeout_s''),
      (Some (doc_of [small_task [(''timeout_s'', JUInt 999999)]]), ''timeout_s''),
      (Some (doc_of [small_task [(''retries'', JInt (- 1))]]), ''retries''),
      (Some (doc_of [small_task [(''retries'', JUInt 11)]]), ''retries''),
      (Some (doc_of [small_task [(''timeout_s'', JFloat 15)]]), ''timeout_s''),
      (Some (doc_of [small_task [(''env'', obj [(''K'', JUInt 1)])]]), ''env''),
      (Some (doc_of [small_task [(''env'', obj [(''A=B'', JString ''1'')])]]), ''env''),
      (Some (doc_of [small_task [(''requires'', JArray [JUInt 1])]]), ''requires''),
      (Some (doc_of [small_task [(''repeat'', JUInt 0)]]), ''repeat''),
      (Some (doc_of [small_task [], small_task []]), ''duplicate task name '' @ sq ''a''),
      (Some (doc_of [obj [(''name'', JString ''a[1]''), (''argv'', strs [''x''])], small_task [(''repeat'', JUInt 2)]]), ''duplicate''),
      (Some (obj [(''defaults'', obj [(''timeout_s'', JString ''soon'')]), (''tasks'', JArray [small_task []])]), ''defaults.timeout_s'')]"

definition test_bad_jobs :: bool where
  "test_bad_jobs \<longleftrightarrow>
     list_all (\<lambda>(doc, expect). let r = parse_jobs (\<lambda>_. doc) [] in contains expect (error r) \<and> job_tasks (job r) = []) bad_jobs"

definition test_error_names_task :: bool where
  "test_error_names_task \<longleftrightarrow>
     contains (''tasks[1] ('' @ sq ''broken'' @ '')'')
       (error (job_of (doc_of [obj [(''name'', JString ''ok''), (''argv'', strs [''x''])],
          obj [(''name'', JString ''broken''), (''argv'', strs [])]])))"

definition test_labels :: bool where
  "test_labels \<longleftrightarrow>
     (let agent = [''os=linux'', ''arch=x86_64'', ''kvm=true'', ''gpu''] in
      list_all (labels_satisfy agent) [[], [''kvm=true''], [''kvm''], [''gpu''], [''os=linux'', ''kvm=true'']] \<and>
      list_all (\<lambda>need. \<not> labels_satisfy agent need) [[''kvm=false''], [''os=linux'', ''tpm''], [''kv'']] \<and>
      \<not> labels_satisfy [] [''kvm''])"

lemma job_tests_pass:
  test_minimal_file test_defaults test_repeat test_bad_jobs test_error_names_task test_labels
  by code_simp+

subsection \<open>Command policy (\<open>dtest/tests/test_policy.cpp\<close>)\<close>

text \<open>
  Below the root \<open>/r\<close> of the tests there are \<open>allowed/tool\<close>, \<open>allowed-evil/tool\<close> and \<open>allowed/escape\<close>, a link to
  \<open>/bin/sh\<close>; the canonical forms of the paths the tests use.
\<close>

definition policy_paths :: "(string \<times> string) list" where
  "policy_paths =
     [(''/r/allowed/escape'', ''/bin/sh''), (''/r/allowed/../../../../bin/sh'', ''/bin/sh''),
      (''/r/allowed/../allowed-evil/tool'', ''/r/allowed-evil/tool'')]"

definition policy_weakly :: "string \<Rightarrow> string option" where
  "policy_weakly p = Some (case map_of policy_paths p of Some q \<Rightarrow> q | None \<Rightarrow> p)"

definition policy_check :: "string list \<Rightarrow> string \<Rightarrow> string" where
  "policy_check entries = check_command (canonical policy_weakly id) \<lparr>allow = entries, allow_any = False\<rparr>"

definition test_allow_any :: bool where
  "test_allow_any \<longleftrightarrow>
     list_all (\<lambda>p. check_command (canonical policy_weakly id) \<lparr>allow = [], allow_any = True\<rparr> p = []) [''relative/path'', ''/anything'']"

definition test_empty_allow_list :: bool where
  "test_empty_allow_list \<longleftrightarrow> policy_check [] ''/bin/true'' \<noteq> []"

definition test_relative_paths :: bool where
  "test_relative_paths \<longleftrightarrow> contains ''absolute'' (policy_check [''/r/allowed/''] ''tool'')"

definition test_exact_program :: bool where
  "test_exact_program \<longleftrightarrow>
     policy_check [''/r/allowed/tool''] ''/r/allowed/tool'' = [] \<and> policy_check [''/r/allowed/tool''] ''/r/allowed-evil/tool'' \<noteq> []"

definition test_directory_entry :: bool where
  "test_directory_entry \<longleftrightarrow> policy_check [''/r/allowed/''] ''/r/allowed/tool'' = []"

definition test_sibling_directory :: bool where
  "test_sibling_directory \<longleftrightarrow> policy_check [''/r/allowed/''] ''/r/allowed-evil/tool'' \<noteq> []"

definition test_no_escape :: bool where
  "test_no_escape \<longleftrightarrow>
     list_all (\<lambda>p. policy_check [''/r/allowed/''] p \<noteq> [])
       [''/r/allowed/../../../../bin/sh'', ''/r/allowed/../allowed-evil/tool'', ''/r/allowed/escape'']"

definition test_directory_itself :: bool where
  "test_directory_itself \<longleftrightarrow> list_all (\<lambda>p. policy_check [''/r/allowed/''] p \<noteq> []) [''/r/allowed'', ''/r/allowed/'']"

lemma policy_tests_pass:
  test_allow_any test_empty_allow_list test_relative_paths test_exact_program test_directory_entry test_sibling_directory
  test_no_escape test_directory_itself
  by code_simp+

subsection \<open>Host checks (\<open>platcheck/tests/test_checks.cpp\<close>)\<close>

text \<open>\<open>FakeRoot\<close>: files with their contents, directories, and the links of drivers; parents exist with their children.\<close>

definition child_of :: "string \<Rightarrow> string \<Rightarrow> string list" where
  "child_of p q = (if starts_with (p @ ''/'') q then [takeWhile (\<lambda>c. c \<noteq> CHR ''/'') (drop (length p + 1) q)] else [])"

definition fake_root :: "(string \<times> string) list \<Rightarrow> string list \<Rightarrow> (string \<times> string) list \<Rightarrow> files" where
  "fake_root contents dirs links =
     (let paths = map fst contents @ dirs @ map fst links;
          there = (\<lambda>p. list_ex (\<lambda>q. q = p \<or> starts_with (p @ ''/'') q) paths)
      in \<lparr>fs_read = map_of contents, fs_exists = there, fs_rw = there,
          fs_list = (\<lambda>p. if there p \<and> p \<notin> set (map fst contents) then Some (remdups (concat (map (child_of p) paths))) else None),
          fs_link_name = map_of links\<rparr>)"

definition pci_files :: "nat \<Rightarrow> string \<Rightarrow> string \<Rightarrow> string \<Rightarrow> (string \<times> string) list" where
  "pci_files g b ven cls =
     (let pci = ''/sys/bus/pci/devices/'' @ b in
      [(pci @ ''/vendor'', ven @ nl), (pci @ ''/device'', ''0x2684'' @ nl), (pci @ ''/class'', cls @ nl)])"

definition pci_dir :: "nat \<Rightarrow> string \<Rightarrow> string" where
  "pci_dir g b = ''/sys/kernel/iommu_groups/'' @ show_nat g @ ''/devices/'' @ b"

definition pci_driver :: "string \<Rightarrow> string \<Rightarrow> string \<times> string" where
  "pci_driver b d = (''/sys/bus/pci/devices/'' @ b @ ''/driver'', d)"

definition only :: "string \<Rightarrow> string \<Rightarrow> files" where
  "only p c = fake_root [(p, c)] [] []"

definition test_cpu_flags :: bool where
  "test_cpu_flags \<longleftrightarrow>
     (let info = ''processor : 0'' @ nl @ ''flags : fpu vme vmxfake sse4_2'' @ nl in
      \<not> cpu_has_flag info ''vmx'' \<and> cpu_has_flag info ''sse4_2'' \<and>
      cpu_has_flag (''flags'' @ [CHR 0x09, CHR 0x09] @ '': fpu svm lm'' @ nl) ''svm'')"

definition test_cpuinfo_without_flags :: bool where
  "test_cpuinfo_without_flags \<longleftrightarrow>
     \<not> cpuinfo_has_flags_line (''processor : 0'' @ nl @ ''Features : fp asimd evtstrm'' @ nl) \<and>
     cpuinfo_has_flags_line (''flags : fpu'' @ nl)"

definition test_meminfo_value :: bool where
  "test_meminfo_value \<longleftrightarrow>
     (let m = ''MemTotal:       16318412 kB'' @ nl @ ''HugePages_Total:      64'' @ nl @ ''Hugepagesize:       2048 kB'' @ nl in
      meminfo_value m ''HugePages_Total'' = Some 64 \<and> meminfo_value m ''Hugepagesize'' = Some 2048 \<and> meminfo_value m ''Nope'' = None)"

definition test_cmdline :: bool where
  "test_cmdline \<longleftrightarrow>
     (let c = ''BOOT_IMAGE=/vmlinuz root=/dev/sda1 intel_iommu=on iommu=pt quiet'' in
      cmdline_has c ''intel_iommu'' \<and> cmdline_has c ''quiet'' \<and> \<not> cmdline_has c ''amd_iommu'' \<and>
      cmdline_value c ''iommu'' = Some ''pt'' \<and> cmdline_value c ''missing'' = None)"

definition test_json_escape :: bool where
  "test_json_escape \<longleftrightarrow>
     json_escape (''a'' @ [CHR 0x22] @ ''b'' @ [CHR 0x5C] @ ''c'' @ nl) =
       ''a'' @ [CHR 0x5C, CHR 0x22] @ ''b'' @ [CHR 0x5C, CHR 0x5C] @ ''c'' @ CHR 0x5C # ''n'' \<and>
     json_escape [CHR 0x01] = CHR 0x5C # ''u0001''"

definition test_cpu_virt :: bool where
  "test_cpu_virt \<longleftrightarrow>
     cr_status (check_cpu_virt (only ''/proc/cpuinfo'' (''flags : fpu vmx sse'' @ nl)) []) = Pass \<and>
     (let r = check_cpu_virt (only ''/proc/cpuinfo'' (''flags : fpu sse'' @ nl)) [] in cr_status r = Fail \<and> cr_remediation r \<noteq> []) \<and>
     cr_status (check_cpu_virt (only ''/proc/cpuinfo'' (''Features : fp asimd'' @ nl)) []) = Skip"

definition test_kvm_device :: bool where
  "test_kvm_device \<longleftrightarrow>
     cr_status (check_kvm_device (fake_root [] [] []) []) = Fail \<and> cr_status (check_kvm_device (only ''/dev/kvm'' []) []) = Pass"

definition test_kvm_module :: bool where
  "test_kvm_module \<longleftrightarrow>
     cr_status (check_kvm_module (fake_root [] [] []) []) = Fail \<and>
     cr_status (check_kvm_module (fake_root [] [''/sys/module/kvm_amd''] []) []) = Pass"

definition test_nested_virt :: bool where
  "test_nested_virt \<longleftrightarrow>
     (let p = ''/sys/module/kvm_intel/parameters/nested'' in
      cr_status (check_nested_virt (fake_root [] [] []) []) = Skip \<and>
      cr_status (check_nested_virt (only p (''N'' @ nl)) []) = Warn \<and> cr_status (check_nested_virt (only p (''Y'' @ nl)) []) = Pass)"

definition test_iommu :: bool where
  "test_iommu \<longleftrightarrow>
     (let r = the (check_iommu (only ''/proc/cmdline'' (''quiet'' @ nl)) []);
          r' = the (check_iommu (fake_root ((''/proc/cmdline'', ''intel_iommu=on iommu=pt'' @ nl) #
              pci_files 1 ''0000:00:01.0'' ''0x8086'' ''0x060400'') [pci_dir 1 ''0000:00:01.0''] []) [])
      in cr_status r = Fail \<and> contains ''intel_iommu'' (cr_detail r) \<and>
         cr_status r' = Pass \<and> contains ''iommu=pt'' (cr_detail r'))"

definition test_vfio_modules :: bool where
  "test_vfio_modules \<longleftrightarrow>
     cr_status (check_vfio_modules (fake_root [] [] []) []) = Warn \<and>
     cr_status (check_vfio_modules
       (fake_root [] [''/sys/module/vfio'', ''/sys/module/vfio_pci'', ''/sys/module/vfio_iommu_type1''] []) []) = Pass"

definition test_hugepages :: bool where
  "test_hugepages \<longleftrightarrow>
     (let m = (\<lambda>n. only ''/proc/meminfo'' (''HugePages_Total:       '' @ n @ nl @ ''Hugepagesize:       2048 kB'' @ nl)) in
      cr_status (check_hugepages (m ''0'') []) = Warn \<and> cr_status (check_hugepages (m ''16'') []) = Pass)"

definition test_confidential_computing :: bool where
  "test_confidential_computing \<longleftrightarrow>
     (let r = check_confidential_computing (fake_root [(''/sys/module/kvm_amd/parameters/sev'', ''Y'' @ nl),
            (''/sys/module/kvm_amd/parameters/sev_snp'', ''0'' @ nl)] [] []) []
      in cr_status (check_confidential_computing (fake_root [] [] []) []) = Skip \<and> cr_status r = Pass \<and>
         contains ''kvm_amd.sev'' (cr_detail r) \<and> \<not> contains ''sev_snp'' (cr_detail r))"

definition test_iommu_groups :: bool where
  "test_iommu_groups \<longleftrightarrow>
     (let gs = the (read_iommu_groups (fake_root (pci_files 10 ''0000:02:00.0'' ''0x10DE'' ''0x030200'' @
              pci_files 2 ''0000:00:1f.0'' ''0x8086'' ''0x060100'')
            [pci_dir 10 ''0000:02:00.0'', pci_dir 2 ''0000:00:1f.0''] [pci_driver ''0000:02:00.0'' ''vfio-pci'']) [])
      in map grp_id gs = [2, 10] \<and>
         map (\<lambda>d. (vendor d, driver d)) (devices (gs ! 1)) = [(''0x10de'', ''vfio-pci'')])"

definition test_gpu_isolation :: bool where
  "test_gpu_isolation \<longleftrightarrow>
     (let none = the (check_gpu_isolation (fake_root (pci_files 1 ''0000:00:1f.0'' ''0x8086'' ''0x060100'')
            [pci_dir 1 ''0000:00:1f.0''] []) []);
          alone = the (check_gpu_isolation (fake_root (pci_files 1 ''0000:01:00.0'' ''0x10de'' ''0x030000'' @
              pci_files 1 ''0000:01:00.1'' ''0x10de'' ''0x040300'' @ pci_files 1 ''0000:00:01.0'' ''0x8086'' ''0x060400'')
            [pci_dir 1 ''0000:01:00.0'', pci_dir 1 ''0000:01:00.1'', pci_dir 1 ''0000:00:01.0'']
            [pci_driver ''0000:01:00.0'' ''vfio-pci'', pci_driver ''0000:01:00.1'' ''vfio-pci'']) []);
          with_nvme = the (check_gpu_isolation (fake_root (pci_files 4 ''0000:01:00.0'' ''0x10de'' ''0x030200'' @
              pci_files 4 ''0000:02:00.0'' ''0x144d'' ''0x010802'')
            [pci_dir 4 ''0000:01:00.0'', pci_dir 4 ''0000:02:00.0''] [pci_driver ''0000:01:00.0'' ''nvidia'']) [])
      in cr_status none = Skip \<and> cr_status alone = Pass \<and> contains ''vfio-pci'' (cr_detail alone) \<and>
         cr_status with_nvme = Warn \<and> contains ''0000:02:00.0'' (cr_detail with_nvme) \<and> cr_remediation with_nvme \<noteq> [])"

definition test_run_all :: bool where
  "test_run_all \<longleftrightarrow>
     (let host = (\<lambda>kvm. fake_root ([(''/proc/cpuinfo'', ''flags : vmx'' @ nl), (''/proc/sys/kernel/osrelease'', ''6.8.0-test'' @ nl)] @
              kvm @ pci_files 1 ''0000:00:01.0'' ''0x8086'' ''0x060400'')
            [''/sys/module/kvm_intel'', pci_dir 1 ''0000:00:01.0''] []);
          rs = the (run_all (host [(''/dev/kvm'', [])]) [])
      in length rs = 10 \<and> exit_code_for rs = 0 \<and> exit_code_for (the (run_all (host []) [])) = 1)"

lemma check_tests_pass:
  test_cpu_flags test_cpuinfo_without_flags test_cmdline test_json_escape test_cpu_virt test_kvm_device
  test_kvm_module test_nested_virt test_iommu test_vfio_modules test_confidential_computing
  by code_simp+

lemma group_tests_pass: test_iommu_groups test_gpu_isolation
  by code_simp+

lemma run_all_test_passes: test_run_all
  by code_simp

text \<open>The numbers of \<open>/proc/meminfo\<close>: read in decimal.\<close>

lemma two_thousand: "read_long ''       2048 kB'' = Some 2048"
  by (simp add: read_long_def read_digits_def read_nat_def digit_val_def c_space_def c_digit_def Let_def)

lemma hugepage_lines:
  "getlines (''MemTotal:       16318412 kB'' @ nl @ ''HugePages_Total:      64'' @ nl @ ''Hugepagesize:       2048 kB'' @ nl) =
     [''MemTotal:       16318412 kB'', ''HugePages_Total:      64'', ''Hugepagesize:       2048 kB'']"
  "getlines (''HugePages_Total:       0'' @ nl @ ''Hugepagesize:       2048 kB'' @ nl) =
     [''HugePages_Total:       0'', ''Hugepagesize:       2048 kB'']"
  "getlines (''HugePages_Total:       16'' @ nl @ ''Hugepagesize:       2048 kB'' @ nl) =
     [''HugePages_Total:       16'', ''Hugepagesize:       2048 kB'']"
  by code_simp+

lemma small_numbers:
  "read_long ''       0'' = Some 0" "read_long ''       16'' = Some 16" "read_long ''      64'' = Some 64"
  by code_simp+

lemma number_tests_pass: test_meminfo_value test_hugepages
proof -
  show test_meminfo_value
    unfolding test_meminfo_value_def meminfo_value_def hugepage_lines Let_def
    by (simp add: starts_with_def two_thousand small_numbers)
  show test_hugepages
    unfolding test_hugepages_def check_hugepages_def meminfo_value_def only_def fake_root_def Let_def
    by (simp add: starts_with_def mk_check_def hugepage_lines [simplified] two_thousand small_numbers)
qed

subsection \<open>The VM harness (\<open>vmtest/tests/test_harness.cpp\<close>)\<close>

definition test_base64 :: bool where
  "test_base64 \<longleftrightarrow>
     map base64_decode [''aGVsbG8='', ''aGVsbG8gd29ybGQ='' @ nl, [], ''YQ=='', ''YWI='', ''YWJj''] =
       [''hello'', ''hello world'', [], ''a'', ''ab'', ''abc'']"

definition test_vm_xml_escape :: bool where
  "test_vm_xml_escape \<longleftrightarrow>
     vm_xml_escape (''a&b<c>'' @ [CHR 0x22] @ ''d'' @ [CHR 0x27]) = ''a&amp;b&lt;c&gt;&quot;d&apos;'' \<and> vm_xml_escape ''plain'' = ''plain''"

text \<open>An environment in which nothing answers; \<open>polls\<close> and the status of a program are what the test needs.\<close>

definition bare_env :: "nat \<Rightarrow> (string list \<Rightarrow> 32 word option) \<Rightarrow> nat virt_env" where
  "bare_env polls status =
     \<lparr>ve_open = (\<lambda>t u. Inl None), ve_create = (\<lambda>t x flags. Inl None), ve_state = (\<lambda>t v. NoDomain), ve_op = (\<lambda>t op v. Inl None),
      ve_info = (\<lambda>t v. Inl None), ve_agent = (\<lambda>t v c n. Inl None), ve_spawn = (\<lambda>t c. status c), ve_wrote = (\<lambda>t p. False),
      ve_removed = (\<lambda>t p. True), ve_polls = (\<lambda>t a b. polls), ve_seconds = (\<lambda>t u. u - t), ve_pid = 1, ve_absolute = id\<rparr>"

text \<open>The counter of the first test is \<open>vs_next_id\<close>, which the loop leaves alone.\<close>

definition counting_probe :: "bool vm_run" where
  "counting_probe = next_do (modify (\<lambda>s. s\<lparr>vs_next_id := vs_next_id s + 1\<rparr>)) (\<lambda>_. next_do get_state (\<lambda>s. ret (3 \<le> vs_next_id s)))"

definition test_wait_until :: bool where
  "test_wait_until \<longleftrightarrow>
     (case wait_until (bare_env 400 (\<lambda>_. None)) 2000 5 counting_probe initial_vm_state of
        (r, s) \<Rightarrow> r = Inr True \<and> vs_next_id s = 3) \<and>
     fst (wait_until (bare_env 5 (\<lambda>_. None)) 50 10 (ret False) initial_vm_state) = Inr False"

definition program_status :: "string list \<Rightarrow> 32 word option" where
  "program_status c = Some (if c = [''true''] then 0 else if c = [''false''] then 256 else 127 * 256)"

definition test_run_cmd :: bool where
  "test_run_cmd \<longleftrightarrow>
     map (\<lambda>c. fst (run_cmd (bare_env 0 program_status) c initial_vm_state)) [[''true''], [''false''], [''/nonexistent/binary''], []] =
       [Inr 0, Inr 1, Inr 127, Inr (- 1)]"

definition test_junit_empty :: bool where
  "test_junit_empty \<longleftrightarrow>
     (let xml = vm_render_junit show_nat (+) 0 ''vmtest'' [] in contains (qattr ''tests'' ''0'') xml \<and> contains ''</testsuites>'' xml)"

text \<open>The replies, as the values the JSON library reads.\<close>

definition reading :: "json option \<Rightarrow> json_lib" where
  "reading doc = \<lparr>jl_parse = (\<lambda>_. doc), jl_dump = (\<lambda>_. []), jl_float_long = (\<lambda>_. 0), jl_float_int = (\<lambda>_. 0), jl_type_error = (\<lambda>k _. k)\<rparr>"

definition test_replies :: bool where
  "test_replies \<longleftrightarrow>
     (let ret = (\<lambda>kvs. Some (obj [(''return'', obj kvs)])) in
      parse_exec_pid (reading (ret [(''pid'', JUInt 42)])) [] = Inr (Some 42) \<and> parse_exec_pid (reading (ret [])) [] = Inr None \<and>
      parse_exec_status (reading (ret [(''exited'', JBool False)])) [] = Inr default_exec_result \<and>
      parse_exec_status (reading (ret [(''exited'', JBool True), (''exitcode'', JUInt 3), (''out-data'', JString ''aGVsbG8=''),
          (''err-data'', JString ''b29wcw=='')])) [] =
        Inr \<lparr>er_exited = True, er_exit_code = 3, er_out = ''hello'', er_err = ''oops''\<rparr> \<and>
      parse_exec_status (reading (ret [(''exited'', JBool True), (''signal'', JUInt 9)])) [] =
        Inr \<lparr>er_exited = True, er_exit_code = 137, er_out = [], er_err = []\<rparr> \<and>
      parse_exec_status (reading (Some (obj [(''error'', obj [(''class'', JString ''GenericError''), (''desc'', JString ''no such pid'')])]))) [] =
        Inl (StdError ''guest agent error: no such pid'') \<and>
      parse_exec_pid (reading None) ''not json'' = Inl (StdError ''guest agent returned invalid JSON: not json''))"

definition test_config :: bool where
  "test_config \<longleftrightarrow>
     (let r = parse_command_line [] in pr_error r = [] \<and> vc_uri (pr_cfg r) = ''qemu:///system'' \<and> vc_vcpus (pr_cfg r) = 2 \<and>
        vc_mem_mib (pr_cfg r) = 1024 \<and> vc_iterations (pr_cfg r) = 0) \<and>
     (let r = parse_command_line [''--image'', ''/i.qcow2'', ''--uri'', ''qemu:///session'', ''--vcpus'', ''4'', ''--boot-timeout'', ''60'',
            ''--iterations'', ''5'', ''--filter'', ''guest'', ''--junit'', ''out.xml''];
          c = pr_cfg r
      in pr_error r = [] \<and> vc_image c = ''/i.qcow2'' \<and> vc_uri c = ''qemu:///session'' \<and> vc_vcpus c = 4 \<and> vc_boot_timeout c = 60 \<and>
         vc_iterations c = 5 \<and> vc_filter c = ''guest'' \<and> vc_junit c = ''out.xml'') \<and>
     list_all (\<lambda>args. pr_error (parse_command_line args) \<noteq> [])
       [[''--vcpus''], [''--vcpus'', ''abc''], [''--vcpus'', ''0''], [''--memory-mib'', ''64''], [''--bogus'']] \<and>
     pr_help (parse_command_line [''--help'']) \<and> vc_list (pr_cfg (parse_command_line [''--list'']))"

definition test_registry :: bool where
  "test_registry \<longleftrightarrow>
     (let ts = build_tests (bare_env 0 (\<lambda>_. None)) (reading None) default_config;
          guest = mk_test ''guest'' ''vcpu_count_matches'' (ret ())
      in ts \<noteq> [] \<and> distinct (map (\<lambda>t. tc_suite t @ ''.'' @ tc_name t) ts) \<and> matches_filter (hd ts) [] \<and>
         matches_filter guest ''vcpu'' \<and> \<not> matches_filter guest ''lifecycle'')"

definition test_runner :: bool where
  "test_runner \<longleftrightarrow>
     (let rs = fst (run_tests (bare_env 0 (\<lambda>_. None)) default_config
            [mk_test ''t'' ''ok'' (ret ()), mk_test ''t'' ''bad'' (vm_require False ''boom''),
             mk_test ''t'' ''unexpected'' (throw (StdError ''kaboom'')), mk_test ''t'' ''skip'' (throw (SkipTest ''nope''))] initial_vm_state)
      in map tr_outcome rs = [TPassed, TFailed, TFailed, TSkipped] \<and> tr_message (rs ! 1) = ''boom'' \<and>
         contains ''[FAIL] t.bad'' (concat (map (log_line show_nat) rs)))"

definition test_runner_filter :: bool where
  "test_runner_filter \<longleftrightarrow>
     (let count = modify (\<lambda>s. s\<lparr>vs_next_id := vs_next_id s + 1\<rparr>);
          (rs, s) = run_tests (bare_env 0 (\<lambda>_. None)) (default_config\<lparr>vc_filter := ''keep''\<rparr>)
            [mk_test ''s'' ''keep_me'' count, mk_test ''s'' ''drop_me'' count] initial_vm_state
      in length rs = 1 \<and> vs_next_id s = 1)"

definition test_soak_skips :: bool where
  "test_soak_skips \<longleftrightarrow>
     (let env = bare_env 0 (\<lambda>_. None);
          soak = filter (\<lambda>t. tc_name t = ''boot_destroy_soak'') (build_tests env (reading None) default_config)
      in length soak = 1 \<and> map tr_outcome (fst (run_tests env default_config soak initial_vm_state)) = [TSkipped])"

definition test_require_eq :: bool where
  "test_require_eq \<longleftrightarrow> fst (require_eq 3 4 ''vCPUs'' initial_vm_state) = Inl (StdError ''vCPUs: expected 4, got 3'')"

lemma harness_tests_pass:
  test_base64 test_vm_xml_escape test_wait_until test_run_cmd test_replies test_registry test_runner test_runner_filter
  test_soak_skips test_require_eq
  by code_simp+

lemma junit_test_passes: test_junit_empty
  by code_simp

lemma config_test_passes: test_config
  by code_simp

end
