(* ===== verification/Array_Loops.thy ===== *)
theory Array_Loops
  imports Prelude "HOL-Library.Word" "HOL-Library.Monad_Syntax"
begin

section \<open>Loops over arrays\<close>

text \<open>
  Arrays are lists, \<open>a[i] = v\<close> is a list update, a counting loop is a \<open>fold\<close> over its indices. Loads and stores
  with an \<open>int\<close> index are partial: outside the array they have no meaning. A loop, sequential or spread over
  threads, whose writes all store the value that one function assigns to the cell is described by the set of cells
  it writes (\<open>writes\<close>), whatever the order of its steps.
\<close>

subsection \<open>Loads, stores and partial steps\<close>

definition ld :: "'a list \<Rightarrow> int \<Rightarrow> 'a option" where
  "ld a i = (if 0 \<le> i \<and> i < int (length a) then Some (a ! nat i) else None)"

definition st :: "'a list \<Rightarrow> int \<Rightarrow> 'a \<Rightarrow> 'a list option" where
  "st a i v = (if 0 \<le> i \<and> i < int (length a) then Some (a[nat i := v]) else None)"

fun loop :: "('x \<Rightarrow> 's \<Rightarrow> 's option) \<Rightarrow> 'x list \<Rightarrow> 's \<Rightarrow> 's option" where
  "loop f [] s = Some s"
| "loop f (x # xs) s = f x s \<bind> loop f xs"

lemma ld_nat [simp]: "i < length a \<Longrightarrow> ld a (int i) = Some (a ! i)"
  by (simp add: ld_def)

lemma st_nat [simp]: "i < length a \<Longrightarrow> st a (int i) v = Some (a[i := v])"
  by (simp add: st_def)

lemma ld_int: "0 \<le> i \<Longrightarrow> nat i < length a \<Longrightarrow> ld a i = Some (a ! nat i)"
  by (simp add: ld_def nat_less_iff)

lemma st_int: "0 \<le> i \<Longrightarrow> nat i < length a \<Longrightarrow> st a i v = Some (a[nat i := v])"
  by (simp add: st_def nat_less_iff)

lemma loop_append: "loop f (xs @ ys) s = loop f xs s \<bind> loop f ys"
  by (induction xs arbitrary: s) (simp_all add: bind_eq_Some_conv split: bind_split)

lemma loop_cong: "(\<And>x s. x \<in> set xs \<Longrightarrow> f x s = g x s) \<Longrightarrow> loop f xs s = loop g xs s"
  by (induction xs arbitrary: s) (auto intro!: Option.bind_cong)

lemma loop_map: "loop f (map g xs) s = loop (\<lambda>x. f (g x)) xs s"
  by (induction xs arbitrary: s) (auto intro!: Option.bind_cong)

text \<open>A loop whose steps succeed while \<open>P\<close> holds is a \<open>fold\<close>.\<close>

lemma loop_fold:
  assumes "\<And>x s. x \<in> set xs \<Longrightarrow> P s \<Longrightarrow> f x s = Some (g x s) \<and> P (g x s)" "P s"
  shows "loop f xs s = Some (fold g xs s) \<and> P (fold g xs s)"
  using assms by (induction xs arbitrary: s) auto

subsection \<open>Writing an array cell by cell\<close>

definition writes :: "(nat \<Rightarrow> 'a) \<Rightarrow> nat set \<Rightarrow> 'a list \<Rightarrow> 'a list" where
  "writes v W a = map (\<lambda>j. if j \<in> W then v j else a ! j) [0..<length a]"

lemma length_writes [simp]: "length (writes v W a) = length a"
  by (simp add: writes_def)

lemma nth_writes [simp]: "j < length a \<Longrightarrow> writes v W a ! j = (if j \<in> W then v j else a ! j)"
  by (simp add: writes_def)

lemma writes_none [simp]: "writes v {} a = a"
  by (rule nth_equalityI) simp_all

lemma writes_writes [simp]: "writes v W (writes v V a) = writes v (V \<union> W) a"
  by (rule nth_equalityI) auto

lemma write_one: "a[j := v j] = writes v {j} a"
  by (rule nth_equalityI) (auto simp: nth_list_update)

lemma writes_all: "{..<length a} \<subseteq> W \<Longrightarrow> writes v W a = map v [0..<length a]"
  by (rule nth_equalityI) auto

lemma writes_cong: "length a = length b \<Longrightarrow> (\<And>j. j < length a \<Longrightarrow> j \<in> W \<Longrightarrow> v j = w j) \<Longrightarrow>
    (\<And>j. j < length a \<Longrightarrow> j \<notin> W \<Longrightarrow> a ! j = b ! j) \<Longrightarrow> writes v W a = writes w W b"
  by (rule nth_equalityI) auto

lemma fold_writes:
  assumes "\<And>x a. x \<in> set xs \<Longrightarrow> length a = n \<Longrightarrow> f x a = writes v (W x) a" "length a = n"
  shows "fold f xs a = writes v (\<Union>x\<in>set xs. W x) a"
  using assms by (induction xs arbitrary: a) (auto simp: Un_assoc)

lemma loop_writes:
  assumes "\<And>x a. x \<in> set xs \<Longrightarrow> length a = n \<Longrightarrow> f x a = Some (writes v (W x) a)" "length a = n"
  shows "loop f xs a = Some (writes v (\<Union>x\<in>set xs. W x) a)"
  using assms by (induction xs arbitrary: a) (auto simp: Un_assoc)

lemma loop_writes_pair:
  assumes "\<And>x a b. x \<in> set xs \<Longrightarrow> length a = n \<Longrightarrow> length b = n \<Longrightarrow> f x (a, b) = Some (writes v (W x) a, writes w (W x) b)"
    and "length a = n" "length b = n"
  shows "loop f xs (a, b) = Some (writes v (\<Union>x\<in>set xs. W x) a, writes w (\<Union>x\<in>set xs. W x) b)"
  using assms by (induction xs arbitrary: a b) (auto simp: Un_assoc)

text \<open>Steps that update cells of their own, each once.\<close>

lemma loop_updates:
  assumes "\<And>x a. x \<in> set xs \<Longrightarrow> length a = n \<Longrightarrow> f x a = Some (a[at x := g x (a ! at x)])"
    and "distinct xs" "inj_on at (set xs)" "length a = n" "\<And>x. x \<in> set xs \<Longrightarrow> at x < n"
  shows "\<exists>a'. loop f xs a = Some a' \<and> length a' = n \<and> (\<forall>x\<in>set xs. a' ! at x = g x (a ! at x)) \<and>
    (\<forall>j. j \<notin> at ` set xs \<longrightarrow> a' ! j = a ! j)"
  using assms
proof (induction xs arbitrary: a)
  case (Cons x xs)
  let ?a = "a[at x := g x (a ! at x)]"
  have other: "at x \<notin> at ` set xs" using Cons.prems(2,3) by auto
  obtain a' where a': "loop f xs ?a = Some a'" "length a' = n" "\<forall>y\<in>set xs. a' ! at y = g y (?a ! at y)"
      "\<forall>j. j \<notin> at ` set xs \<longrightarrow> a' ! j = ?a ! j"
    using Cons.IH [of ?a] Cons.prems by (auto simp: inj_on_insert)
  moreover have "f x a = Some ?a" using Cons.prems by simp
  moreover have "a' ! at y = g y (a ! at y)" if "y \<in> set (x # xs)" for y
  proof (cases "y = x")
    case True
    then show ?thesis using a'(4) other Cons.prems(4,5) by simp
  next
    case False
    then have "y \<in> set xs" using that by simp
    moreover from this have "at y \<noteq> at x" using other by (metis imageI)
    ultimately show ?thesis using a'(3) by simp
  qed
  moreover have "a' ! j = a ! j" if "j \<notin> at ` set (x # xs)" for j
    using a'(4) that by auto
  ultimately show ?case by simp
qed simp

subsection \<open>Row-major addresses\<close>

lemma cell_inject:
  fixes c c' cols :: nat
  assumes "c < cols" "c' < cols"
  shows "r * cols + c = r' * cols + c' \<longleftrightarrow> r = r' \<and> c = c'"
proof
  assume e: "r * cols + c = r' * cols + c'"
  have "r = (r * cols + c) div cols" "r' = (r' * cols + c') div cols" using assms by simp_all
  then show "r = r' \<and> c = c'" using e by simp
qed simp

lemma cell_bound: "r < rows \<Longrightarrow> c < cols \<Longrightarrow> r * cols + c < rows * (cols :: nat)"
proof -
  assume "r < rows" "c < cols"
  then have "r * cols + c < Suc r * cols" by simp
  also have "\<dots> \<le> rows * cols" using \<open>r < rows\<close> by (intro mult_le_mono1) simp
  finally show ?thesis .
qed

lemma cell_surj: "j < rows * cols \<Longrightarrow> \<exists>r < rows. \<exists>c < cols. j = r * cols + (c :: nat)"
  by (metis div_mult_mod_eq less_mult_imp_div_less mod_less_divisor mult_0_right not_gr_zero not_less_zero)

lemma cell_div_mod: "c < cols \<Longrightarrow> (r * cols + c) div cols = r \<and> (r * cols + c) mod cols = (c :: nat)"
  by simp

lemma list_by_cells:
  assumes "length a = rows * cols" "length b = rows * cols"
    and "\<And>r c. r < rows \<Longrightarrow> c < cols \<Longrightarrow> a ! (r * cols + c) = b ! (r * cols + c)"
  shows "a = b"
proof (rule nth_equalityI)
  fix j assume "j < length a"
  then obtain r c where "r < rows" "c < cols" "j = r * cols + c" using cell_surj assms(1) by metis
  then show "a ! j = b ! j" using assms(3) by simp
qed (simp add: assms)

subsection \<open>Sums\<close>

lemma fold_add_sum_list: "fold (\<lambda>x s. s + f x) xs (s :: 'a::comm_monoid_add) = s + sum_list (map f xs)"
  by (induction xs arbitrary: s) (simp_all add: add.assoc)

lemma sum_list_mset: "mset xs = mset ys \<Longrightarrow> sum_list (map f xs) = (sum_list (map f ys) :: 'a::comm_monoid_add)"
  by (metis mset_map sum_mset_sum_list)

lemma sum_list_concat_map: "sum_list (map f (concat xss)) = (\<Sum>xs\<leftarrow>xss. sum_list (map f xs) :: 'a::comm_monoid_add)"
  by (induction xss) simp_all

end
