(* ===== verification/Cuda_Reference.thy ===== *)
theory Cuda_Reference
  imports Array_Loops
begin

section \<open>Reference implementations of the GPU tests (cudatest/reference.cpp)\<close>

text \<open>
  The generator of test data and the CPU oracles. Arrays are lists and sizes natural numbers; integers keep their
  widths. Floating point is a parameter: the record \<open>fp\<close> holds the operations on \<open>float\<close> (type \<open>'f\<close>) and
  \<open>double\<close> (type \<open>'d\<close>) that the code uses.
\<close>

unbundle bit_operations_syntax

record ('f, 'd) fp =
  f_of_nat :: "nat \<Rightarrow> 'f"
  f_add :: "'f \<Rightarrow> 'f \<Rightarrow> 'f"
  f_sub :: "'f \<Rightarrow> 'f \<Rightarrow> 'f"
  f_mul :: "'f \<Rightarrow> 'f \<Rightarrow> 'f"
  f_div :: "'f \<Rightarrow> 'f \<Rightarrow> 'f"
  f_eq :: "'f \<Rightarrow> 'f \<Rightarrow> bool"
  f_nan :: "'f \<Rightarrow> bool"
  f_inf :: "'f \<Rightarrow> bool"
  f_show :: "'f \<Rightarrow> string"
  d_of_f :: "'f \<Rightarrow> 'd"
  f_of_d :: "'d \<Rightarrow> 'f"
  d_zero :: 'd
  d_add :: "'d \<Rightarrow> 'd \<Rightarrow> 'd"
  d_sub :: "'d \<Rightarrow> 'd \<Rightarrow> 'd"
  d_mul :: "'d \<Rightarrow> 'd \<Rightarrow> 'd"
  d_div :: "'d \<Rightarrow> 'd \<Rightarrow> 'd"
  d_abs :: "'d \<Rightarrow> 'd"
  d_le :: "'d \<Rightarrow> 'd \<Rightarrow> bool"
  d_less :: "'d \<Rightarrow> 'd \<Rightarrow> bool"
  d_show :: "'d \<Rightarrow> string"

subsection \<open>Test data: xorshift64*\<close>

definition rng_init :: "64 word \<Rightarrow> 64 word" where
  "rng_init seed = (if seed \<noteq> 0 then seed else 0x9E3779B97F4A7C15)"

definition rng_step :: "64 word \<Rightarrow> 64 word" where
  "rng_step s =
     (let s1 = s XOR drop_bit 12 s;
          s2 = s1 XOR push_bit 25 s1
      in s2 XOR drop_bit 27 s2)"

text \<open>The next number and the next state.\<close>

definition rng_next :: "64 word \<Rightarrow> 64 word \<times> 64 word" where
  "rng_next s = (let s' = rng_step s in (s' * 0x2545F4914F6CDD1D, s'))"

definition rng_uniform :: "('f, 'd) fp \<Rightarrow> 'f \<Rightarrow> 'f \<Rightarrow> 64 word \<Rightarrow> 'f \<times> 64 word" where
  "rng_uniform fp lo hi s =
     (case rng_next s of (x, s') \<Rightarrow>
        let u = f_mul fp (f_of_nat fp (unat (drop_bit 40 x))) (f_div fp (f_of_nat fp 1) (f_of_nat fp 16777216))
        in (f_add fp lo (f_mul fp u (f_sub fp hi lo)), s'))"

definition rng_below :: "32 word \<Rightarrow> 64 word \<Rightarrow> 32 word \<times> 64 word" where
  "rng_below n s =
     (if n = 0 then (0, s)
      else case rng_next s of (x, s') \<Rightarrow> (ucast (drop_bit 32 x mod ucast n), s'))"

definition rng_byte :: "64 word \<Rightarrow> 8 word \<times> 64 word" where
  "rng_byte s = (case rng_next s of (x, s') \<Rightarrow> (ucast (drop_bit 56 x), s'))"

text \<open>\<open>for (auto& x : v) x = draw()\<close>\<close>

fun draw_list :: "nat \<Rightarrow> (64 word \<Rightarrow> 'a \<times> 64 word) \<Rightarrow> 64 word \<Rightarrow> 'a list" where
  "draw_list 0 draw s = []"
| "draw_list (Suc n) draw s = (case draw s of (x, s') \<Rightarrow> x # draw_list n draw s')"

definition random_floats :: "('f, 'd) fp \<Rightarrow> nat \<Rightarrow> 64 word \<Rightarrow> 'f \<Rightarrow> 'f \<Rightarrow> 'f list" where
  "random_floats fp n seed lo hi = draw_list n (rng_uniform fp lo hi) (rng_init seed)"

definition random_u32 :: "nat \<Rightarrow> 64 word \<Rightarrow> 32 word \<Rightarrow> 32 word list" where
  "random_u32 n seed max_exclusive = draw_list n (rng_below max_exclusive) (rng_init seed)"

definition random_bytes :: "nat \<Rightarrow> 64 word \<Rightarrow> 8 word list" where
  "random_bytes n seed = draw_list n rng_byte (rng_init seed)"

subsection \<open>Oracles\<close>

definition cpu_vector_add :: "('f, 'd) fp \<Rightarrow> 'f list \<Rightarrow> 'f list \<Rightarrow> 'f list \<Rightarrow> nat \<Rightarrow> 'f list" where
  "cpu_vector_add fp a b c n = fold (\<lambda>i c. c[i := f_add fp (a ! i) (b ! i)]) [0..<n] c"

definition cpu_reduce_sum :: "32 word list \<Rightarrow> nat \<Rightarrow> 64 word" where
  "cpu_reduce_sum inp n = fold (\<lambda>i s. s + ucast (inp ! i)) [0..<n] 0"

definition gemm_cell :: "('f, 'd) fp \<Rightarrow> 'f list \<Rightarrow> 'f list \<Rightarrow> nat \<Rightarrow> nat \<Rightarrow> nat \<Rightarrow> nat \<Rightarrow> 'd" where
  "gemm_cell fp A B N K i j =
     fold (\<lambda>k acc. d_add fp acc (d_mul fp (d_of_f fp (A ! (i * K + k))) (d_of_f fp (B ! (k * N + j))))) [0..<K] (d_zero fp)"

definition cpu_gemm :: "('f, 'd) fp \<Rightarrow> 'f list \<Rightarrow> 'f list \<Rightarrow> 'f list \<Rightarrow> nat \<Rightarrow> nat \<Rightarrow> nat \<Rightarrow> 'f list" where
  "cpu_gemm fp A B C M N K =
     fold (\<lambda>i C. fold (\<lambda>j C. C[i * N + j := f_of_d fp (gemm_cell fp A B N K i j)]) [0..<N] C) [0..<M] C"

definition cpu_histogram256 :: "8 word list \<Rightarrow> nat \<Rightarrow> 32 word list" where
  "cpu_histogram256 inp n =
     fold (\<lambda>i bins. bins[unat (inp ! i) := bins ! unat (inp ! i) + 1]) [0..<n] (replicate 256 0)"

definition cpu_transpose :: "'a list \<Rightarrow> 'a list \<Rightarrow> nat \<Rightarrow> nat \<Rightarrow> 'a list" where
  "cpu_transpose inp out rows cols =
     fold (\<lambda>r out. fold (\<lambda>c out. out[c * rows + r := inp ! (r * cols + c)]) [0..<cols] out) [0..<rows] out"

subsection \<open>Comparison\<close>

record 'd compare_result =
  cmp_ok :: bool
  first_bad :: nat
  max_abs_err :: 'd
  max_rel_err :: 'd
  cmp_message :: string

text \<open>One element: whether it matches, the absolute and the relative error.\<close>

definition compare_elem :: "('f, 'd) fp \<Rightarrow> 'd \<Rightarrow> 'd \<Rightarrow> bool \<Rightarrow> 'f \<Rightarrow> 'f \<Rightarrow> bool \<times> 'd \<times> 'd" where
  "compare_elem fp rtol atol equal_nan a e =
     (if f_nan fp a \<or> f_nan fp e then (equal_nan \<and> f_nan fp a \<and> f_nan fp e, d_zero fp, d_zero fp)
      else if f_inf fp a \<or> f_inf fp e then (f_eq fp a e, d_zero fp, d_zero fp)
      else
        let abs_err = d_abs fp (d_sub fp (d_of_f fp a) (d_of_f fp e));
            rel_err = (if \<not> f_eq fp e (f_of_nat fp 0) then d_div fp abs_err (d_abs fp (d_of_f fp e)) else d_zero fp)
        in (d_le fp abs_err (d_add fp atol (d_mul fp rtol (d_abs fp (d_of_f fp e)))), abs_err, rel_err))"

definition mismatch_text :: "('f, 'd) fp \<Rightarrow> 'd \<Rightarrow> 'd \<Rightarrow> nat \<Rightarrow> 'f \<Rightarrow> 'f \<Rightarrow> string" where
  "mismatch_text fp rtol atol i a e =
     ''mismatch at index '' @ show_nat i @ '': actual='' @ f_show fp a @ '' expected='' @ f_show fp e @ '' (rtol='' @
     d_show fp rtol @ '', atol='' @ d_show fp atol @ '')''"

definition allclose_step ::
  "('f, 'd) fp \<Rightarrow> 'd \<Rightarrow> 'd \<Rightarrow> bool \<Rightarrow> 'f list \<Rightarrow> 'f list \<Rightarrow> nat \<Rightarrow> 'd compare_result \<Rightarrow> 'd compare_result" where
  "allclose_step fp rtol atol equal_nan actual expected i res =
     (case compare_elem fp rtol atol equal_nan (actual ! i) (expected ! i) of (match, abs_err, rel_err) \<Rightarrow>
        let res1 = (if d_less fp (max_abs_err res) abs_err then res\<lparr>max_abs_err := abs_err\<rparr> else res);
            res2 = (if d_less fp (max_rel_err res1) rel_err then res1\<lparr>max_rel_err := rel_err\<rparr> else res1)
        in if \<not> match \<and> cmp_ok res2
           then res2\<lparr>cmp_ok := False, first_bad := i,
             cmp_message := mismatch_text fp rtol atol i (actual ! i) (expected ! i)\<rparr>
           else res2)"

definition default_compare :: "('f, 'd) fp \<Rightarrow> 'd compare_result" where
  "default_compare fp =
     \<lparr>cmp_ok = True, first_bad = 0, max_abs_err = d_zero fp, max_rel_err = d_zero fp, cmp_message = []\<rparr>"

definition allclose_n ::
  "('f, 'd) fp \<Rightarrow> 'f list \<Rightarrow> 'f list \<Rightarrow> nat \<Rightarrow> 'd \<Rightarrow> 'd \<Rightarrow> bool \<Rightarrow> 'd compare_result" where
  "allclose_n fp actual expected n rtol atol equal_nan =
     fold (allclose_step fp rtol atol equal_nan actual expected) [0..<n] (default_compare fp)"

text \<open>The overload on vectors, which compares the sizes first.\<close>

definition allclose :: "('f, 'd) fp \<Rightarrow> 'f list \<Rightarrow> 'f list \<Rightarrow> 'd \<Rightarrow> 'd \<Rightarrow> bool \<Rightarrow> 'd compare_result" where
  "allclose fp actual expected rtol atol equal_nan =
     (if length actual \<noteq> length expected
      then (default_compare fp)\<lparr>cmp_ok := False,
        cmp_message := ''size mismatch: '' @ show_nat (length actual) @ '' vs '' @ show_nat (length expected)\<rparr>
      else allclose_n fp actual expected (length actual) rtol atol equal_nan)"

end
