(* ===== verification/Cuda_Kernels.thy ===== *)
theory Cuda_Kernels
  imports Cuda_Reference
begin

section \<open>The GPU kernels and their launchers (cudatest/kernels.cu)\<close>

text \<open>
  A kernel runs every thread of every block. The hardware chooses the order: it is the parameter \<open>schedule\<close>,
  which permutes the blocks of a grid and, between two barriers, the steps of the threads of a block (a step is
  the work of a thread between two barriers, in the kernels with atomic additions one loop iteration of a
  thread). Blocks run one after another; they only meet in atomic additions and in cells that nobody else writes.

  Every result is an option: \<open>None\<close> is undefined behaviour, an access outside an array or an overflow of a signed
  computation. Unsigned index computations wrap and are converted to \<open>int\<close>. How \<open>acc += x * y\<close> is compiled for
  floats (two roundings or one) is the parameter \<open>mac\<close>. \<open>__shared__\<close> memory starts with arbitrary contents.
\<close>

record ('b, 't) schedule =
  block_order :: "'b list \<Rightarrow> 'b list"
  thread_order :: "'b \<Rightarrow> nat \<Rightarrow> 't list \<Rightarrow> 't list"

text \<open>What the hardware promises: everybody runs once.\<close>

definition runs_all :: "('b, 't) schedule \<Rightarrow> bool" where
  "runs_all sch \<longleftrightarrow> (\<forall>bs. mset (block_order sch bs) = mset bs) \<and> (\<forall>b p ts. mset (thread_order sch b p ts) = mset ts)"

subsection \<open>Machine integers\<close>

text \<open>A signed 32-bit result; a conversion of an unsigned one.\<close>

definition cint :: "int \<Rightarrow> int option" where
  "cint x = (if - (2 ^ 31) \<le> x \<and> x < 2 ^ 31 then Some x else None)"

definition to_int32 :: "int \<Rightarrow> int" where
  "to_int32 x = (x + 2 ^ 31) mod 2 ^ 32 - 2 ^ 31"

text \<open>\<open>r * w + c\<close> in \<open>int\<close>\<close>

definition cell :: "int \<Rightarrow> int \<Rightarrow> int \<Rightarrow> int option" where
  "cell r w c = do { x \<leftarrow> cint (r * w); cint (x + c) }"

definition is_pow2 :: "int \<Rightarrow> bool" where
  "is_pow2 v \<longleftrightarrow> v > 0 \<and> v AND (v - 1) = 0"

definition blocks_for :: "int \<Rightarrow> int \<Rightarrow> int option" where
  "blocks_for n block = do { x \<leftarrow> cint (n + block); y \<leftarrow> cint (x - 1); Some (max 1 (min (y div block) 65535)) }"

subsection \<open>Grid-stride loops\<close>

text \<open>
  \<open>for (int i = start; i < n; i += step)\<close> with an unsigned step: the values of \<open>i\<close>. \<open>None\<close> when it never ends.
\<close>

partial_function (option) stride :: "int \<Rightarrow> int \<Rightarrow> int \<Rightarrow> int list option" where
  "stride i step n = (if i < n then do { is \<leftarrow> stride (to_int32 (i + step)) step n; Some (i # is) } else Some [])"

declare stride.simps [code]

text \<open>The indices of thread \<open>t\<close> of block \<open>b\<close>, then of all threads of a block.\<close>

definition thread_indices :: "nat \<Rightarrow> nat \<Rightarrow> int \<Rightarrow> nat \<Rightarrow> nat \<Rightarrow> int list option" where
  "thread_indices grid block n b t = stride (to_int32 (int b * int block + int t)) (int grid * int block) n"

definition block_indices :: "nat \<Rightarrow> nat \<Rightarrow> int \<Rightarrow> nat \<Rightarrow> int list option" where
  "block_indices grid block n b = map_option concat (those (map (thread_indices grid block n b) [0..<block]))"

definition vector_add_block ::
  "('f, 'd) fp \<Rightarrow> (nat, int) schedule \<Rightarrow> nat \<Rightarrow> nat \<Rightarrow> 'f list \<Rightarrow> 'f list \<Rightarrow> int \<Rightarrow> nat \<Rightarrow> 'f list \<Rightarrow> 'f list option" where
  "vector_add_block fp sch grid block a b n blk c =
     do {
       is \<leftarrow> block_indices grid block n blk;
       loop (\<lambda>i c. do { x \<leftarrow> ld a i; y \<leftarrow> ld b i; st c i (f_add fp x y) }) (thread_order sch blk 0 is) c }"

definition vector_add_kernel ::
  "('f, 'd) fp \<Rightarrow> (nat, int) schedule \<Rightarrow> nat \<Rightarrow> nat \<Rightarrow> 'f list \<Rightarrow> 'f list \<Rightarrow> 'f list \<Rightarrow> int \<Rightarrow> 'f list option" where
  "vector_add_kernel fp sch grid block a b c n =
     loop (vector_add_block fp sch grid block a b n) (block_order sch [0..<grid]) c"

subsection \<open>Reduction\<close>

definition thread_sum :: "nat \<Rightarrow> nat \<Rightarrow> 32 word list \<Rightarrow> int \<Rightarrow> nat \<Rightarrow> nat \<Rightarrow> 64 word option" where
  "thread_sum grid block inp n b t = do {
     is \<leftarrow> thread_indices grid block n b t;
     loop (\<lambda>i v. do { x \<leftarrow> ld inp i; Some (v + ucast x) }) is 0 }"

text \<open>\<open>for (s = blockDim.x / 2; s > 0; s >>= 1)\<close>: a step of every thread, then a barrier.\<close>

definition tree_step :: "nat \<Rightarrow> nat \<Rightarrow> 64 word list \<Rightarrow> 64 word list option" where
  "tree_step s t partial =
     (if t < s then do { x \<leftarrow> ld partial (int t); y \<leftarrow> ld partial (int (t + s)); st partial (int t) (x + y) }
      else Some partial)"

function reduce_tree :: "(nat, nat) schedule \<Rightarrow> nat \<Rightarrow> nat \<Rightarrow> nat \<Rightarrow> nat \<Rightarrow> 64 word list \<Rightarrow> 64 word list option" where
  "reduce_tree sch b block phase s partial =
     (if s = 0 then Some partial
      else do {
        partial \<leftarrow> loop (tree_step s) (thread_order sch b phase [0..<block]) partial;
        reduce_tree sch b block (phase + 1) (s div 2) partial })"
  by pat_completeness auto

termination
  by (relation "measure (\<lambda>(_, _, _, _, s, _). s)") auto

declare reduce_tree.simps [simp del]

definition reduce_sum_block ::
  "(nat, nat) schedule \<Rightarrow> nat \<Rightarrow> nat \<Rightarrow> (nat \<Rightarrow> 64 word list) \<Rightarrow> 32 word list \<Rightarrow> int \<Rightarrow> nat \<Rightarrow> 64 word \<Rightarrow> 64 word option" where
  "reduce_sum_block sch grid block shared inp n b out =
     do {
       partial \<leftarrow> loop (\<lambda>t partial. do { v \<leftarrow> thread_sum grid block inp n b t; st partial (int t) v })
         (thread_order sch b 0 [0..<block]) (shared b);
       partial \<leftarrow> reduce_tree sch b block 1 (block div 2) partial;
       x \<leftarrow> ld partial 0;
       Some (out + x) }"

definition reduce_sum_kernel ::
  "(nat, nat) schedule \<Rightarrow> nat \<Rightarrow> nat \<Rightarrow> (nat \<Rightarrow> 64 word list) \<Rightarrow> 32 word list \<Rightarrow> 64 word \<Rightarrow> int \<Rightarrow> 64 word option" where
  "reduce_sum_kernel sch grid block shared inp out n =
     loop (reduce_sum_block sch grid block shared inp n) (block_order sch [0..<grid]) out"

subsection \<open>Matrix product\<close>

text \<open>\<open>kTile\<close>, and row and column of a thread: block \<open>(by, bx)\<close>, thread \<open>(ty, tx)\<close>\<close>

definition kTile :: nat where
  "kTile = 16"

type_synonym pos = "nat \<times> nat"

definition tile_pos :: "nat \<Rightarrow> nat \<Rightarrow> nat \<Rightarrow> int" where
  "tile_pos edge b t = to_int32 (int b * int edge + int t)"

definition grid_of :: "nat \<Rightarrow> nat \<Rightarrow> pos list" where
  "grid_of ydim xdim = List.product [0..<ydim] [0..<xdim]"

definition gemm_naive_thread ::
  "('f \<Rightarrow> 'f \<Rightarrow> 'f \<Rightarrow> 'f) \<Rightarrow> 'f \<Rightarrow> 'f list \<Rightarrow> 'f list \<Rightarrow> int \<Rightarrow> int \<Rightarrow> int \<Rightarrow> pos \<Rightarrow> pos \<Rightarrow> 'f list \<Rightarrow> 'f list option" where
  "gemm_naive_thread mac zero A B M N K blk thr C =
     (let row = tile_pos kTile (fst blk) (fst thr); col = tile_pos kTile (snd blk) (snd thr)
      in if row \<ge> M \<or> col \<ge> N then Some C
         else do {
           acc \<leftarrow> loop (\<lambda>k acc. do {
               i \<leftarrow> cell row K (int k); x \<leftarrow> ld A i;
               j \<leftarrow> cell (int k) N col; y \<leftarrow> ld B j;
               Some (mac acc x y) }) [0..<nat K] zero;
           z \<leftarrow> cell row N col;
           st C z acc })"

definition gemm_naive_kernel ::
  "('f \<Rightarrow> 'f \<Rightarrow> 'f \<Rightarrow> 'f) \<Rightarrow> 'f \<Rightarrow> (pos, pos) schedule \<Rightarrow> pos \<Rightarrow> 'f list \<Rightarrow> 'f list \<Rightarrow> 'f list \<Rightarrow> int \<Rightarrow> int \<Rightarrow> int \<Rightarrow>
    'f list option" where
  "gemm_naive_kernel mac zero sch grid A B C M N K =
     loop (\<lambda>blk. loop (gemm_naive_thread mac zero A B M N K blk) (thread_order sch blk 0 (grid_of kTile kTile)))
       (block_order sch (grid_of (fst grid) (snd grid))) C"

text \<open>The tiled kernel: the shared tiles \<open>As\<close>, \<open>Bs\<close> and every thread's register \<open>acc\<close>.\<close>

definition tile_at :: "nat \<Rightarrow> nat \<Rightarrow> int" where
  "tile_at y x = int (y * kTile + x)"

definition gemm_load ::
  "'f \<Rightarrow> 'f list \<Rightarrow> 'f list \<Rightarrow> int \<Rightarrow> int \<Rightarrow> int \<Rightarrow> pos \<Rightarrow> nat \<Rightarrow> pos \<Rightarrow> 'f list \<times> 'f list \<Rightarrow> ('f list \<times> 'f list) option" where
  "gemm_load zero A B M N K blk t thr tiles =
     (let ty = fst thr; tx = snd thr; row = tile_pos kTile (fst blk) ty; col = tile_pos kTile (snd blk) tx;
          ak = tile_pos kTile t tx; bk = tile_pos kTile t ty
      in do {
        x \<leftarrow> (if row < M \<and> ak < K then do { i \<leftarrow> cell row K ak; ld A i } else Some zero);
        As \<leftarrow> st (fst tiles) (tile_at ty tx) x;
        y \<leftarrow> (if bk < K \<and> col < N then do { i \<leftarrow> cell bk N col; ld B i } else Some zero);
        Bs \<leftarrow> st (snd tiles) (tile_at ty tx) y;
        Some (As, Bs) })"

definition gemm_multiply :: "('f \<Rightarrow> 'f \<Rightarrow> 'f \<Rightarrow> 'f) \<Rightarrow> 'f list \<times> 'f list \<Rightarrow> pos \<Rightarrow> 'f list \<Rightarrow> 'f list option" where
  "gemm_multiply mac tiles thr accs =
     do {
       acc \<leftarrow> ld accs (tile_at (fst thr) (snd thr));
       acc \<leftarrow> loop (\<lambda>k acc. do {
           x \<leftarrow> ld (fst tiles) (tile_at (fst thr) k);
           y \<leftarrow> ld (snd tiles) (tile_at k (snd thr));
           Some (mac acc x y) }) [0..<kTile] acc;
       st accs (tile_at (fst thr) (snd thr)) acc }"

text \<open>One round of the loop over \<open>t\<close>; phases of the schedule are \<open>2 t\<close> and \<open>2 t + 1\<close>.\<close>

definition gemm_round ::
  "('f \<Rightarrow> 'f \<Rightarrow> 'f \<Rightarrow> 'f) \<Rightarrow> 'f \<Rightarrow> (pos, pos) schedule \<Rightarrow> 'f list \<Rightarrow> 'f list \<Rightarrow> int \<Rightarrow> int \<Rightarrow> int \<Rightarrow> pos \<Rightarrow> nat \<Rightarrow>
    ('f list \<times> 'f list) \<times> 'f list \<Rightarrow> (('f list \<times> 'f list) \<times> 'f list) option" where
  "gemm_round mac zero sch A B M N K blk t s =
     do {
       tiles \<leftarrow> loop (gemm_load zero A B M N K blk t) (thread_order sch blk (2 * t) (grid_of kTile kTile)) (fst s);
       accs \<leftarrow> loop (gemm_multiply mac tiles) (thread_order sch blk (2 * t + 1) (grid_of kTile kTile)) (snd s);
       Some (tiles, accs) }"

definition gemm_store :: "'f list \<Rightarrow> int \<Rightarrow> int \<Rightarrow> pos \<Rightarrow> pos \<Rightarrow> 'f list \<Rightarrow> 'f list option" where
  "gemm_store accs M N blk thr C =
     (let row = tile_pos kTile (fst blk) (fst thr); col = tile_pos kTile (snd blk) (snd thr)
      in if row < M \<and> col < N
         then do { acc \<leftarrow> ld accs (tile_at (fst thr) (snd thr)); z \<leftarrow> cell row N col; st C z acc }
         else Some C)"

definition gemm_tiled_block ::
  "('f \<Rightarrow> 'f \<Rightarrow> 'f \<Rightarrow> 'f) \<Rightarrow> 'f \<Rightarrow> (pos, pos) schedule \<Rightarrow> (pos \<Rightarrow> 'f list \<times> 'f list) \<Rightarrow> 'f list \<Rightarrow> 'f list \<Rightarrow> int \<Rightarrow> int \<Rightarrow> int \<Rightarrow>
    pos \<Rightarrow> 'f list \<Rightarrow> 'f list option" where
  "gemm_tiled_block mac zero sch shared A B M N K blk C =
     do {
       rounds \<leftarrow> cint (K + int kTile);
       s \<leftarrow> loop (gemm_round mac zero sch A B M N K blk) [0..<nat ((rounds - 1) div int kTile)]
         (shared blk, replicate (kTile * kTile) zero);
       loop (gemm_store (snd s) M N blk) (thread_order sch blk (2 * nat ((rounds - 1) div int kTile)) (grid_of kTile kTile)) C }"

definition gemm_tiled_kernel ::
  "('f \<Rightarrow> 'f \<Rightarrow> 'f \<Rightarrow> 'f) \<Rightarrow> 'f \<Rightarrow> (pos, pos) schedule \<Rightarrow> (pos \<Rightarrow> 'f list \<times> 'f list) \<Rightarrow> pos \<Rightarrow> 'f list \<Rightarrow> 'f list \<Rightarrow> 'f list \<Rightarrow>
    int \<Rightarrow> int \<Rightarrow> int \<Rightarrow> 'f list option" where
  "gemm_tiled_kernel mac zero sch shared grid A B C M N K =
     loop (gemm_tiled_block mac zero sch shared A B M N K) (block_order sch (grid_of (fst grid) (snd grid))) C"

subsection \<open>Histogram\<close>

text \<open>The indices \<open>threadIdx.x\<close>, \<open>threadIdx.x + blockDim.x\<close>, \<dots> below 256, of all threads of a block\<close>

definition bin_indices :: "nat \<Rightarrow> int list option" where
  "bin_indices block = map_option concat (those (map (\<lambda>t. stride (int t) (int block) 256) [0..<block]))"

definition count_byte :: "8 word list \<Rightarrow> int \<Rightarrow> 32 word list \<Rightarrow> 32 word list option" where
  "count_byte inp i bins = do { x \<leftarrow> ld inp i; v \<leftarrow> ld bins (uint x); st bins (uint x) (v + 1) }"

definition flush_bin :: "32 word list \<Rightarrow> int \<Rightarrow> 32 word list \<Rightarrow> 32 word list option" where
  "flush_bin loc i bins =
     do { v \<leftarrow> ld loc i; if v \<noteq> 0 then do { w \<leftarrow> ld bins i; st bins i (w + v) } else Some bins }"

definition histogram256_block ::
  "(nat, int) schedule \<Rightarrow> nat \<Rightarrow> nat \<Rightarrow> (nat \<Rightarrow> 32 word list) \<Rightarrow> 8 word list \<Rightarrow> int \<Rightarrow> nat \<Rightarrow> 32 word list \<Rightarrow> 32 word list option" where
  "histogram256_block sch grid block shared inp n b bins =
     do {
       clear \<leftarrow> bin_indices block;
       loc \<leftarrow> loop (\<lambda>i loc. st loc i 0) (thread_order sch b 0 clear) (shared b);
       is \<leftarrow> block_indices grid block n b;
       loc \<leftarrow> loop (count_byte inp) (thread_order sch b 1 is) loc;
       loop (flush_bin loc) (thread_order sch b 2 clear) bins }"

definition histogram256_kernel ::
  "(nat, int) schedule \<Rightarrow> nat \<Rightarrow> nat \<Rightarrow> (nat \<Rightarrow> 32 word list) \<Rightarrow> 8 word list \<Rightarrow> 32 word list \<Rightarrow> int \<Rightarrow> 32 word list option" where
  "histogram256_kernel sch grid block shared inp bins n =
     loop (histogram256_block sch grid block shared inp n) (block_order sch [0..<grid]) bins"

subsection \<open>Transposition\<close>

definition kTransTile :: nat where
  "kTransTile = 32"

definition kTransRows :: nat where
  "kTransRows = 8"

text \<open>\<open>for (j = 0; j < kTransTile; j += kTransRows)\<close>; rows of the shared tile have one cell of padding.\<close>

definition trans_passes :: "nat list" where
  "trans_passes = map (\<lambda>m. m * kTransRows) [0..<kTransTile div kTransRows]"

definition trans_at :: "nat \<Rightarrow> nat \<Rightarrow> int" where
  "trans_at y x = int (y * (kTransTile + 1) + x)"

definition trans_load :: "'f list \<Rightarrow> int \<Rightarrow> int \<Rightarrow> pos \<Rightarrow> pos \<Rightarrow> 'f list \<Rightarrow> 'f list option" where
  "trans_load inp rows cols blk thr =
     (let x = tile_pos kTransTile (snd blk) (snd thr); y = tile_pos kTransTile (fst blk) (fst thr)
      in loop (\<lambda>j tile. do {
             yj \<leftarrow> cint (y + int j);
             if x < cols \<and> yj < rows
             then do { i \<leftarrow> cell yj cols x; v \<leftarrow> ld inp i; st tile (trans_at (fst thr + j) (snd thr)) v }
             else Some tile }) trans_passes)"

definition trans_store :: "'f list \<Rightarrow> int \<Rightarrow> int \<Rightarrow> pos \<Rightarrow> pos \<Rightarrow> 'f list \<Rightarrow> 'f list option" where
  "trans_store tile rows cols blk thr =
     (let x = tile_pos kTransTile (fst blk) (snd thr); y = tile_pos kTransTile (snd blk) (fst thr)
      in loop (\<lambda>j out. do {
             yj \<leftarrow> cint (y + int j);
             if x < rows \<and> yj < cols
             then do { i \<leftarrow> cell yj rows x; v \<leftarrow> ld tile (trans_at (snd thr) (fst thr + j)); st out i v }
             else Some out }) trans_passes)"

definition transpose_block ::
  "(pos, pos) schedule \<Rightarrow> (pos \<Rightarrow> 'f list) \<Rightarrow> 'f list \<Rightarrow> int \<Rightarrow> int \<Rightarrow> pos \<Rightarrow> 'f list \<Rightarrow> 'f list option" where
  "transpose_block sch shared inp rows cols blk out =
     do {
       tile \<leftarrow> loop (trans_load inp rows cols blk) (thread_order sch blk 0 (grid_of kTransRows kTransTile)) (shared blk);
       loop (trans_store tile rows cols blk) (thread_order sch blk 1 (grid_of kTransRows kTransTile)) out }"

definition transpose_kernel ::
  "(pos, pos) schedule \<Rightarrow> (pos \<Rightarrow> 'f list) \<Rightarrow> pos \<Rightarrow> 'f list \<Rightarrow> 'f list \<Rightarrow> int \<Rightarrow> int \<Rightarrow> 'f list option" where
  "transpose_kernel sch shared grid inp out rows cols =
     loop (transpose_block sch shared inp rows cols) (block_order sch (grid_of (fst grid) (snd grid))) out"

subsection \<open>Launchers\<close>

text \<open>
  A pointer is \<open>None\<close> (null) or the array it points to. A launcher returns the error code and what the output array
  holds afterwards; \<open>None\<close> is undefined behaviour. The CUDA runtime is a parameter: what \<open>cudaMemsetAsync\<close>
  answers, and what \<open>cudaGetLastError\<close> answers after a launch with a grid, a block and a size of shared memory. A
  launch that fails runs nothing.
\<close>

datatype cuda_error = cudaSuccess | cudaErrorInvalidValue | cudaErrorInvalidConfiguration | cudaErrorOther int

record cuda_env =
  memset_result :: cuda_error
  launch_result :: "int list \<Rightarrow> int list \<Rightarrow> int \<Rightarrow> cuda_error"

definition launch :: "cuda_env \<Rightarrow> int list \<Rightarrow> int list \<Rightarrow> int \<Rightarrow> 'o \<Rightarrow> 'o option \<Rightarrow> (cuda_error \<times> 'o) option" where
  "launch env grid block shared_bytes old new =
     (if launch_result env grid block shared_bytes = cudaSuccess then map_option (Pair cudaSuccess) new
      else Some (launch_result env grid block shared_bytes, old))"

definition kMaxThreadsPerBlock :: int where
  "kMaxThreadsPerBlock = 1024"

definition launch_vector_add ::
  "('f, 'd) fp \<Rightarrow> cuda_env \<Rightarrow> (nat, int) schedule \<Rightarrow> 'f list option \<Rightarrow> 'f list option \<Rightarrow> 'f list option \<Rightarrow> int \<Rightarrow> int \<Rightarrow>
    (cuda_error \<times> 'f list option) option" where
  "launch_vector_add fp env sch a b c n block =
     (if n < 0 \<or> n > 0 \<and> (a = None \<or> b = None \<or> c = None) then Some (cudaErrorInvalidValue, c)
      else if n = 0 then Some (cudaSuccess, c)
      else do {
        grid \<leftarrow> (if block > 0 then blocks_for n block else Some 1);
        launch env [grid] [block] 0 c
          (map_option Some (vector_add_kernel fp sch (nat grid) (nat block) (the a) (the b) (the c) n)) })"

definition launch_reduce_sum ::
  "cuda_env \<Rightarrow> (nat, nat) schedule \<Rightarrow> (nat \<Rightarrow> 64 word list) \<Rightarrow> 32 word list option \<Rightarrow> 64 word option \<Rightarrow> int \<Rightarrow> int \<Rightarrow>
    (cuda_error \<times> 64 word option) option" where
  "launch_reduce_sum env sch shared inp out n block =
     (if n < 0 \<or> out = None \<or> n > 0 \<and> inp = None then Some (cudaErrorInvalidValue, out)
      else if \<not> is_pow2 block \<or> block < 32 \<or> block > kMaxThreadsPerBlock then Some (cudaErrorInvalidValue, out)
      else if memset_result env \<noteq> cudaSuccess then Some (memset_result env, out)
      else if n = 0 then Some (cudaSuccess, Some 0)
      else do {
        grid \<leftarrow> blocks_for n block;
        launch env [grid] [block] (block * 8) (Some 0)
          (map_option Some (reduce_sum_kernel sch (nat grid) (nat block) shared (the inp) 0 n)) })"

definition bad_gemm_args :: "'f list option \<Rightarrow> 'f list option \<Rightarrow> 'f list option \<Rightarrow> int \<Rightarrow> int \<Rightarrow> int \<Rightarrow> bool" where
  "bad_gemm_args A B C M N K \<longleftrightarrow> A = None \<or> B = None \<or> C = None \<or> M < 0 \<or> N < 0 \<or> K < 0"

text \<open>\<open>(n + edge - 1) / edge\<close>\<close>

definition tiles_for :: "int \<Rightarrow> nat \<Rightarrow> int option" where
  "tiles_for n edge = map_option (\<lambda>x. (x - 1) div int edge) (cint (n + int edge))"

definition launch_gemm_naive ::
  "('f \<Rightarrow> 'f \<Rightarrow> 'f \<Rightarrow> 'f) \<Rightarrow> 'f \<Rightarrow> cuda_env \<Rightarrow> (pos, pos) schedule \<Rightarrow> 'f list option \<Rightarrow> 'f list option \<Rightarrow> 'f list option \<Rightarrow>
    int \<Rightarrow> int \<Rightarrow> int \<Rightarrow> (cuda_error \<times> 'f list option) option" where
  "launch_gemm_naive mac zero env sch A B C M N K =
     (if bad_gemm_args A B C M N K then Some (cudaErrorInvalidValue, C)
      else if M = 0 \<or> N = 0 then Some (cudaSuccess, C)
      else do {
        gx \<leftarrow> tiles_for N kTile;
        gy \<leftarrow> tiles_for M kTile;
        launch env [gx, gy] [int kTile, int kTile] 0 C
          (map_option Some (gemm_naive_kernel mac zero sch (nat gy, nat gx) (the A) (the B) (the C) M N K)) })"

definition launch_gemm_tiled ::
  "('f \<Rightarrow> 'f \<Rightarrow> 'f \<Rightarrow> 'f) \<Rightarrow> 'f \<Rightarrow> cuda_env \<Rightarrow> (pos, pos) schedule \<Rightarrow> (pos \<Rightarrow> 'f list \<times> 'f list) \<Rightarrow> 'f list option \<Rightarrow>
    'f list option \<Rightarrow> 'f list option \<Rightarrow> int \<Rightarrow> int \<Rightarrow> int \<Rightarrow> (cuda_error \<times> 'f list option) option" where
  "launch_gemm_tiled mac zero env sch shared A B C M N K =
     (if bad_gemm_args A B C M N K then Some (cudaErrorInvalidValue, C)
      else if M = 0 \<or> N = 0 then Some (cudaSuccess, C)
      else do {
        gx \<leftarrow> tiles_for N kTile;
        gy \<leftarrow> tiles_for M kTile;
        launch env [gx, gy] [int kTile, int kTile] 0 C
          (map_option Some (gemm_tiled_kernel mac zero sch shared (nat gy, nat gx) (the A) (the B) (the C) M N K)) })"

text \<open>\<open>cudaMemsetAsync(bins, 0, 256 * sizeof(unsigned int))\<close>\<close>

definition zero_bins :: "32 word list \<Rightarrow> 32 word list option" where
  "zero_bins bins = (if 256 \<le> length bins then Some (replicate 256 0 @ drop 256 bins) else None)"

definition launch_histogram256 ::
  "cuda_env \<Rightarrow> (nat, int) schedule \<Rightarrow> (nat \<Rightarrow> 32 word list) \<Rightarrow> 8 word list option \<Rightarrow> 32 word list option \<Rightarrow> int \<Rightarrow> int \<Rightarrow>
    (cuda_error \<times> 32 word list option) option" where
  "launch_histogram256 env sch shared inp bins n block =
     (if n < 0 \<or> bins = None \<or> n > 0 \<and> inp = None then Some (cudaErrorInvalidValue, bins)
      else if block < 1 \<or> block > kMaxThreadsPerBlock then Some (cudaErrorInvalidValue, bins)
      else if memset_result env \<noteq> cudaSuccess then Some (memset_result env, bins)
      else do {
        zeroed \<leftarrow> zero_bins (the bins);
        if n = 0 then Some (cudaSuccess, Some zeroed)
        else do {
          grid \<leftarrow> blocks_for n block;
          launch env [grid] [block] 0 (Some zeroed)
            (map_option Some (histogram256_kernel sch (nat grid) (nat block) shared (the inp) zeroed n)) } })"

definition launch_transpose ::
  "cuda_env \<Rightarrow> (pos, pos) schedule \<Rightarrow> (pos \<Rightarrow> 'f list) \<Rightarrow> 'f list option \<Rightarrow> 'f list option \<Rightarrow> int \<Rightarrow> int \<Rightarrow>
    (cuda_error \<times> 'f list option) option" where
  "launch_transpose env sch shared inp out rows cols =
     (if rows < 0 \<or> cols < 0 \<or> rows > 0 \<and> cols > 0 \<and> (inp = None \<or> out = None) then Some (cudaErrorInvalidValue, out)
      else if rows = 0 \<or> cols = 0 then Some (cudaSuccess, out)
      else do {
        gx \<leftarrow> tiles_for cols kTransTile;
        gy \<leftarrow> tiles_for rows kTransTile;
        launch env [gx, gy] [int kTransTile, int kTransRows] 0 out
          (map_option Some (transpose_kernel sch shared (nat gy, nat gx) (the inp) (the out) rows cols)) })"

end
