(* ===== verification/Cuda_Reference_Properties.thy ===== *)
theory Cuda_Reference_Properties
  imports Cuda_Reference
begin

section \<open>The references are right\<close>

text \<open>
  The generator's state never becomes zero and its step is injective, so every sequence of states is purely periodic; the
  oracles compute exactly the sums, counts, products and permutations they stand for.
\<close>

subsection \<open>The generator\<close>

lemma xor_drop_zero:
  fixes z :: "64 word"
  assumes "z XOR drop_bit k z = 0" "0 < k"
  shows "z = 0"
proof -
  have shift: "bit z n \<longleftrightarrow> bit z (n + k)" for n
  proof -
    have "\<not> bit (z XOR drop_bit k z) n" unfolding assms(1) by simp
    then show ?thesis by (simp add: bit_xor_iff bit_drop_bit_eq add.commute)
  qed
  have "bit z n \<longleftrightarrow> bit z (n + m * k)" for n m
  proof (induction m)
    case (Suc m)
    then show ?case using shift [of "n + m * k"] by (simp add: ac_simps)
  qed simp
  moreover have "\<not> bit z (n + 64 * k)" for n
    using assms(2) bit_imp_le_length [of z "n + 64 * k"] by auto
  ultimately have "\<not> bit z n" for n by blast
  then show ?thesis by (simp add: bit_eq_iff)
qed

lemma xor_push_zero:
  fixes z :: "64 word"
  assumes "z XOR push_bit k z = 0" "0 < k"
  shows "z = 0"
proof -
  have "\<not> bit z n" for n
  proof (induction n rule: less_induct)
    case (less n)
    have "\<not> bit (z XOR push_bit k z) n" unfolding assms(1) by simp
    then have "bit z n \<longleftrightarrow> n < 64 \<and> k \<le> n \<and> bit z (n - k)"
      using bit_imp_le_length [of z n] by (auto simp: bit_xor_iff bit_push_bit_iff)
    then show ?case using less [of "n - k"] assms(2) by auto
  qed
  then show ?thesis by (simp add: bit_eq_iff)
qed

lemma xor_zero_eq: "x XOR y = 0 \<Longrightarrow> x = y" for x y :: "64 word"
proof -
  assume "x XOR y = 0"
  moreover have "x = (x XOR y) XOR y" by (simp add: xor.assoc)
  ultimately show ?thesis by simp
qed

lemma xor_drop_inject:
  fixes x y :: "64 word"
  assumes "0 < k"
  shows "x XOR drop_bit k x = y XOR drop_bit k y \<longleftrightarrow> x = y"
proof
  assume "x XOR drop_bit k x = y XOR drop_bit k y"
  moreover have "(x XOR y) XOR drop_bit k (x XOR y) = (x XOR drop_bit k x) XOR (y XOR drop_bit k y)"
    by (simp only: drop_bit_xor xor.assoc xor.commute xor.left_commute)
  ultimately have "(x XOR y) XOR drop_bit k (x XOR y) = 0" by (simp only: xor_self_eq)
  then show "x = y" using assms by (rule xor_zero_eq [OF xor_drop_zero])
qed simp

lemma xor_push_inject:
  fixes x y :: "64 word"
  assumes "0 < k"
  shows "x XOR push_bit k x = y XOR push_bit k y \<longleftrightarrow> x = y"
proof
  assume "x XOR push_bit k x = y XOR push_bit k y"
  moreover have "(x XOR y) XOR push_bit k (x XOR y) = (x XOR push_bit k x) XOR (y XOR push_bit k y)"
    by (simp only: push_bit_xor xor.assoc xor.commute xor.left_commute)
  ultimately have "(x XOR y) XOR push_bit k (x XOR y) = 0" by (simp only: xor_self_eq)
  then show "x = y" using assms by (rule xor_zero_eq [OF xor_push_zero])
qed simp

lemma inj_rng_step: "inj rng_step"
  unfolding inj_def rng_step_def Let_def by (simp only: xor_drop_inject xor_push_inject zero_less_numeral simp_thms)

lemma rng_step_0: "rng_step 0 = 0"
  by (simp add: rng_step_def)

lemma rng_step_nonzero: "s \<noteq> 0 \<Longrightarrow> rng_step s \<noteq> 0"
  using inj_rng_step rng_step_0 by (metis injD)

lemma rng_init_nonzero: "rng_init seed \<noteq> 0"
  by (simp add: rng_init_def)

lemma inj_funpow_step: "inj (rng_step ^^ n)"
  by (rule inj_fn) (rule inj_rng_step)

text \<open>An injective function on a finite type comes back to where it started.\<close>

lemma period_exists: "\<exists>p > 0. (rng_step ^^ p) s = s"
proof -
  have "\<not> inj (\<lambda>n. (rng_step ^^ n) s)"
    by (metis finite finite_imageD infinite_UNIV_nat finite_subset subset_UNIV)
  then obtain m n where "m < n" "(rng_step ^^ m) s = (rng_step ^^ n) s"
    unfolding inj_def by (metis linorder_neq_iff)
  moreover have "(rng_step ^^ n) s = (rng_step ^^ m) ((rng_step ^^ (n - m)) s)"
    using \<open>m < n\<close> by (metis add_diff_inverse_nat comp_apply funpow_add less_imp_not_less)
  ultimately have "(rng_step ^^ (n - m)) s = s" using inj_funpow_step [of m] by (metis injD)
  then show ?thesis using \<open>m < n\<close> by (intro exI [of _ "n - m"]) simp
qed

lemma states_nonzero: "(rng_step ^^ n) (rng_init seed) \<noteq> 0"
  by (induction n) (simp_all add: rng_init_nonzero rng_step_nonzero)

lemma draw_list_states:
  assumes "\<And>s. snd (draw s) = rng_step s"
  shows "draw_list n draw s = map (\<lambda>i. fst (draw ((rng_step ^^ i) s))) [0..<n]"
proof (induction n arbitrary: s)
  case (Suc n)
  have "draw_list (Suc n) draw s = fst (draw s) # draw_list n draw (rng_step s)"
    using assms [of s] by (cases "draw s") simp
  then show ?case
    by (simp add: Suc upt_conv_Cons map_Suc_upt [symmetric] funpow_swap1 del: upt_Suc)
qed simp

lemma below_less:
  assumes "n \<noteq> 0"
  shows "fst (rng_below n s) < n"
proof -
  have n: "unat (ucast n :: 64 word) = unat n"
    by (simp add: unsigned_ucast_eq take_bit_nat_eq_self unsigned_less [THEN order_less_trans])
  let ?x = "drop_bit 32 (fst (rng_next s)) mod ucast n :: 64 word"
  have "unat ?x < unat n"
    using assms n unat_gt_0 [of n] by (simp add: unat_mod_distrib)
  moreover have "unat (ucast ?x :: 32 word) = unat ?x"
  proof -
    have "unat n < 2 ^ 32" using unsigned_less [of n, where 'a = nat] by simp
    with calculation have "unat ?x < 2 ^ 32" by (rule order_less_trans)
    then show ?thesis by (simp only: unsigned_ucast_eq) (simp add: take_bit_nat_eq_self)
  qed
  ultimately show ?thesis
    using assms by (simp add: rng_below_def word_less_nat_alt split_beta)
qed

text \<open>
  The test data: the generator's state never becomes zero, whatever the seed, its states repeat only by
  coming back to the first one (the step is injective and so periodic), and \<open>random_u32\<close> yields \<open>n\<close> numbers below
  its bound.
\<close>

theorem generator_never_degenerates:
  "(rng_step ^^ n) (rng_init seed) \<noteq> 0 \<and> inj rng_step \<and>
   (\<exists>p > 0. (rng_step ^^ p) (rng_init seed) = rng_init seed) \<and>
   length (random_u32 n seed bound) = n \<and> (bound = 0 \<or> list_all (\<lambda>x. x < bound) (random_u32 n seed bound))"
proof -
  have "length (draw_list n draw s) = n" for n :: nat and draw :: "64 word \<Rightarrow> 32 word \<times> 64 word" and s
    by (induction n arbitrary: s) (auto split: prod.split)
  moreover have "list_all (\<lambda>x. x < bound) (draw_list n (rng_below bound) s)" if "bound \<noteq> 0" for s
    using below_less [OF that] by (induction n arbitrary: s) (auto split: prod.split, metis fst_conv)
  ultimately show ?thesis
    using states_nonzero inj_rng_step period_exists unfolding random_u32_def by blast
qed

subsection \<open>Oracles\<close>

lemma cpu_reduce_sum_eq: "n \<le> length inp \<Longrightarrow> cpu_reduce_sum inp n = sum_list (map ucast (take n inp))"
proof -
  assume "n \<le> length inp"
  then have "map (\<lambda>i. ucast (inp ! i) :: 64 word) [0..<n] = map ucast (take n inp)"
    by (intro nth_equalityI) simp_all
  then show ?thesis
    unfolding cpu_reduce_sum_def fold_add_sum_list [where f = "\<lambda>i. ucast (inp ! i) :: 64 word"] by (simp only: add_0)
qed

text \<open>No overflow: the sum of at most \<open>2 ^ 32\<close> 32-bit numbers fits 64 bits.\<close>

lemma unat_sum_list:
  "length xs \<le> 2 ^ 32 \<Longrightarrow>
   unat (sum_list (map (ucast :: 32 word \<Rightarrow> 64 word) xs)) = sum_list (map unat xs) \<and> sum_list (map unat xs) \<le> length xs * (2 ^ 32 - 1)"
proof (induction xs)
  case (Cons x xs)
  have x: "unat (ucast x :: 64 word) = unat x" "unat x \<le> 2 ^ 32 - 1"
    using unsigned_less [of x, where 'a = nat]
    by (simp_all add: unsigned_ucast_eq take_bit_nat_eq_self unsigned_less [THEN order_less_trans])
  have ih: "unat (sum_list (map (ucast :: 32 word \<Rightarrow> 64 word) xs)) = sum_list (map unat xs)"
    "sum_list (map unat xs) \<le> length xs * (2 ^ 32 - 1)"
    using Cons by simp_all
  have b: "unat x + sum_list (map unat xs) \<le> Suc (length xs) * (2 ^ 32 - 1)" using ih(2) x(2) by simp
  also have "\<dots> \<le> 2 ^ 32 * (2 ^ 32 - 1)" using Cons.prems by (intro mult_le_mono1) simp
  also have "\<dots> < 2 ^ 64" by simp
  finally have "unat (ucast x + sum_list (map (ucast :: 32 word \<Rightarrow> 64 word) xs)) = unat x + sum_list (map unat xs)"
    using x(1) ih(1) by (subst unat_add_lem [THEN iffD1]) simp_all
  then show ?case using b by simp
qed simp

lemma histogram_fold:
  fixes inp :: "8 word list"
  assumes "length bins = 256" "list_all (\<lambda>i. i < length inp) is"
  shows "length (fold (\<lambda>i bins. bins[unat (inp ! i) := bins ! unat (inp ! i) + 1]) is bins) = 256 \<and>
    (\<forall>b < 256. fold (\<lambda>i bins. bins[unat (inp ! i) := bins ! unat (inp ! i) + 1]) is bins ! b =
      (bins ! b :: 32 word) + of_nat (length (filter (\<lambda>i. unat (inp ! i) = b) is)))"
  using assms
proof (induction "is" arbitrary: bins)
  case (Cons i "is")
  have "unat (inp ! i) < 256" using unsigned_less [of "inp ! i", where 'a = nat] by simp
  then show ?case using Cons.prems Cons.IH [of "bins[unat (inp ! i) := bins ! unat (inp ! i) + 1]"]
    by (auto simp: nth_list_update)
qed simp

lemma histogram_count:
  assumes "n \<le> length inp"
  shows "length (cpu_histogram256 inp n) = 256 \<and> cpu_histogram256 inp n ! unat b = of_nat (count_list (take n inp) b)"
proof -
  have t: "take n inp = map (\<lambda>i. inp ! i) [0..<n]" using assms by (intro nth_equalityI) simp_all
  have "count_list (map (\<lambda>i. inp ! i) is) b = length (filter (\<lambda>i. unat (inp ! i) = unat b) is)" for "is"
    by (induction "is") (auto simp: word_unat_eq_iff)
  then have "count_list (take n inp) b = length (filter (\<lambda>i. unat (inp ! i) = unat b) [0..<n])"
    unfolding t .
  moreover have "unat b < 256" using unsigned_less [of b, where 'a = nat] by simp
  moreover have "list_all (\<lambda>i. i < length inp) [0..<n]" using assms by (simp add: list_all_iff)
  ultimately show ?thesis
    using histogram_fold [of "replicate 256 0" inp "[0..<n]"] by (simp add: cpu_histogram256_def)
qed

text \<open>
  The oracles of the integer kernels are exact: the sum of up to \<open>2 ^ 32\<close> numbers is not truncated, and the
  histogram counts every byte value, modulo \<open>2 ^ 32\<close>.
\<close>

theorem integer_oracles_exact:
  assumes "n \<le> length inp" "n \<le> 2 ^ 32" "m \<le> length bytes"
  shows "unat (cpu_reduce_sum inp n) = sum_list (map unat (take n inp)) \<and>
    length (cpu_histogram256 bytes m) = 256 \<and>
    (\<forall>b. cpu_histogram256 bytes m ! unat b = of_nat (count_list (take m bytes) b))"
  using cpu_reduce_sum_eq [OF assms(1)] unat_sum_list [of "take n inp"] assms histogram_count [OF assms(3)] by simp

theorem integer_oracles_exact_witness:
  "unat (cpu_reduce_sum [0xFFFFFFFF, 2] 2) = 0x100000001 \<and> cpu_histogram256 [7, 9, 7] 3 ! 7 = 2"
  using integer_oracles_exact [of 2 "[0xFFFFFFFF, 2]" 3 "[7, 9, 7]"] by (auto dest: spec [of _ 7])

text \<open>The array loops, by the cells they write.\<close>

lemma vector_add_writes:
  "cpu_vector_add fp a b c n = writes (\<lambda>i. f_add fp (a ! i) (b ! i)) {..<n} c"
  unfolding cpu_vector_add_def
  by (subst fold_writes [where n = "length c" and W = "\<lambda>i. {i}" and v = "\<lambda>i. f_add fp (a ! i) (b ! i)"])
    (auto simp: write_one [where v = "\<lambda>i. f_add fp (a ! i) (b ! i)"] intro!: arg_cong2 [where f = "writes _"])

lemma row_cells: "(\<Union>r<rows. \<Union>c<cols. {r * cols + c}) = {..<rows * (cols :: nat)}"
  by (auto simp: cell_bound Bex_def dest!: cell_surj)

lemma fold_rows:
  assumes "\<And>r c. r < rows \<Longrightarrow> c < cols \<Longrightarrow> w r c = v (at r c)"
  shows "fold (\<lambda>r. fold (\<lambda>c a. a[at r c := w r c]) [0..<cols]) [0..<rows] a =
    writes v (\<Union>r<rows. \<Union>c<cols. {at r c}) a"
proof -
  have "fold (\<lambda>c a. a[at r c := w r c]) [0..<cols] a = writes v (\<Union>c<cols. {at r c}) a" if "r < rows" for r a
    using assms [OF that] by (subst fold_writes [where n = "length a" and W = "\<lambda>c. {at r c}" and v = v])
      (auto simp: write_one atLeast0LessThan)
  then show ?thesis
    by (subst fold_writes [where n = "length a" and W = "\<lambda>r. \<Union>c<cols. {at r c}" and v = v]) (auto simp: atLeast0LessThan)
qed

lemma gemm_writes:
  "cpu_gemm fp A B C M N K = writes (\<lambda>j. f_of_d fp (gemm_cell fp A B N K (j div N) (j mod N))) {..<M * N} C"
  unfolding cpu_gemm_def row_cells [symmetric] by (rule fold_rows) simp

lemma column_cells: "(\<Union>r<rows. \<Union>c<cols. {c * rows + r}) = {..<rows * (cols :: nat)}"
  by (auto simp: cell_bound mult.commute [of rows] Bex_def dest!: cell_surj)

lemma transpose_writes:
  "cpu_transpose inp out rows cols = writes (\<lambda>k. inp ! ((k mod rows) * cols + k div rows)) {..<rows * cols} out"
  unfolding cpu_transpose_def column_cells [symmetric] by (rule fold_rows) simp

lemma length_transpose: "length (cpu_transpose inp out rows cols) = length out"
  by (simp add: transpose_writes)

lemma transpose_cell:
  assumes "rows * cols \<le> length out" "r < rows" "c < cols"
  shows "cpu_transpose inp out rows cols ! (c * rows + r) = inp ! (r * cols + c)"
  using cell_bound [OF assms(3,2)] assms by (simp add: transpose_writes mult.commute [of rows])

text \<open>Transposing twice gives the matrix back, whatever was in the output arrays.\<close>

lemma transpose_twice:
  assumes "length inp = rows * cols" "length out = rows * cols" "length out' = rows * cols"
  shows "cpu_transpose (cpu_transpose inp out rows cols) out' cols rows = inp"
proof (rule list_by_cells [where rows = rows and cols = cols])
  fix r c assume rc: "r < rows" "c < cols"
  have "cols * rows \<le> length out'" using assms(3) by (simp add: mult.commute)
  from transpose_cell [OF this rc(2,1)]
  show "cpu_transpose (cpu_transpose inp out rows cols) out' cols rows ! (r * cols + c) = inp ! (r * cols + c)"
    using transpose_cell [OF _ rc, of out] assms(2) by simp
qed (simp_all add: length_transpose assms)

subsection \<open>Comparison\<close>

abbreviation elem_matches :: "('f, 'd) fp \<Rightarrow> 'd \<Rightarrow> 'd \<Rightarrow> bool \<Rightarrow> 'f \<Rightarrow> 'f \<Rightarrow> bool" where
  "elem_matches fp rtol atol equal_nan a e \<equiv> fst (compare_elem fp rtol atol equal_nan a e)"

lemma allclose_step_ok:
  "cmp_ok (allclose_step fp rtol atol eqn as es i res) \<longleftrightarrow> cmp_ok res \<and> elem_matches fp rtol atol eqn (as ! i) (es ! i)"
  by (simp add: allclose_step_def Let_def split: prod.split)

lemma allclose_step_bad:
  "first_bad (allclose_step fp rtol atol eqn as es i res) =
     (if cmp_ok res \<and> \<not> elem_matches fp rtol atol eqn (as ! i) (es ! i) then i else first_bad res)"
  by (simp add: allclose_step_def Let_def split: prod.split)

lemma allclose_step_message:
  "cmp_message (allclose_step fp rtol atol eqn as es i res) =
     (if cmp_ok res \<and> \<not> elem_matches fp rtol atol eqn (as ! i) (es ! i)
      then mismatch_text fp rtol atol i (as ! i) (es ! i) else cmp_message res)"
  by (simp add: allclose_step_def Let_def split: prod.split)

lemmas allclose_steps = allclose_step_ok allclose_step_bad allclose_step_message

lemma mismatch_text_nonempty: "mismatch_text fp rtol atol i a e \<noteq> []"
  by (simp add: mismatch_text_def)

lemma allclose_n_ok:
  "cmp_ok (allclose_n fp as es n rtol atol eqn) \<longleftrightarrow> (\<forall>i < n. elem_matches fp rtol atol eqn (as ! i) (es ! i))"
  by (induction n) (auto simp: allclose_n_def allclose_steps default_compare_def less_Suc_eq)

lemma allclose_n_bad:
  assumes "\<not> cmp_ok (allclose_n fp as es n rtol atol eqn)"
  defines "bad \<equiv> first_bad (allclose_n fp as es n rtol atol eqn)"
  shows "bad < n \<and> (\<forall>i < bad. elem_matches fp rtol atol eqn (as ! i) (es ! i)) \<and>
    \<not> elem_matches fp rtol atol eqn (as ! bad) (es ! bad) \<and>
    cmp_message (allclose_n fp as es n rtol atol eqn) = mismatch_text fp rtol atol bad (as ! bad) (es ! bad)"
  using assms(1) unfolding bad_def
proof (induction n)
  case 0
  then show ?case by (simp add: allclose_n_def default_compare_def)
next
  case (Suc n)
  have step: "allclose_n fp as es (Suc n) rtol atol eqn =
    allclose_step fp rtol atol eqn as es n (allclose_n fp as es n rtol atol eqn)"
    by (simp add: allclose_n_def)
  show ?case
  proof (cases "cmp_ok (allclose_n fp as es n rtol atol eqn)")
    case True
    then show ?thesis using Suc.prems allclose_n_ok [of fp as es n rtol atol eqn] by (simp add: step allclose_steps)
  next
    case False
    then show ?thesis using Suc.IH by (simp add: step allclose_steps)
  qed
qed

lemma allclose_n_message: "cmp_ok (allclose_n fp as es n rtol atol eqn) \<Longrightarrow> cmp_message (allclose_n fp as es n rtol atol eqn) = []"
  by (induction n) (auto simp: allclose_n_def allclose_steps default_compare_def)

lemma allclose_n_first: "cmp_ok (allclose_n fp as es n rtol atol eqn) \<Longrightarrow> first_bad (allclose_n fp as es n rtol atol eqn) = 0"
  by (induction n) (auto simp: allclose_n_def allclose_steps default_compare_def)

text \<open>
  The comparison accepts exactly the arrays of equal length that match everywhere; otherwise it reports the
  first index that does not match, or the lengths. Its message is empty exactly when it accepts.
\<close>

theorem allclose_finds_first_mismatch:
  "let res = allclose fp as es rtol atol eqn; ok = elem_matches fp rtol atol eqn in
   cmp_ok res = (length as = length es \<and> list_all2 ok as es) \<and>
   (cmp_message res = []) = cmp_ok res \<and>
   (if length as = length es \<and> \<not> cmp_ok res
    then first_bad res < length as \<and> \<not> ok (as ! first_bad res) (es ! first_bad res) \<and>
      list_all2 ok (take (first_bad res) as) (take (first_bad res) es)
    else first_bad res = 0)"
proof (cases "length as = length es")
  case False
  then show ?thesis by (auto simp: Let_def allclose_def default_compare_def)
next
  case True
  let ?res = "allclose_n fp as es (length as) rtol atol eqn"
  have r: "allclose fp as es rtol atol eqn = ?res" using True by (simp add: allclose_def)
  show ?thesis
  proof (cases "cmp_ok ?res")
    case ok: True
    then show ?thesis
      using True allclose_n_ok [of fp as es "length as" rtol atol eqn] allclose_n_message [OF ok] allclose_n_first [OF ok]
      by (simp add: r list_all2_conv_all_nth)
  next
    case False
    then show ?thesis
      using True allclose_n_bad [OF False] allclose_n_ok [of fp as es "length as" rtol atol eqn]
        mismatch_text_nonempty [of fp rtol atol]
      by (simp add: r list_all2_conv_all_nth)
  qed
qed

end
