(* ===== verification/Cuda_Stride.thy ===== *)
theory Cuda_Stride
  imports Cuda_Kernels Cuda_Reference_Properties
begin

section \<open>The grid-stride kernels compute what the references compute\<close>

text \<open>
  While \<open>n + gridDim.x * blockDim.x\<close> stays below \<open>2 ^ 31\<close> the loops of all threads together visit every index below
  \<open>n\<close> exactly once. Sum, histogram and vector sum then follow for every schedule: additions commute, and every other
  cell is written by one thread.
\<close>

subsection \<open>Index arithmetic\<close>

lemma to_int32_id [simp]: "- (2 ^ 31) \<le> x \<Longrightarrow> x < 2 ^ 31 \<Longrightarrow> to_int32 x = x"
  by (simp add: to_int32_def)

lemma cint_id [simp]: "- (2 ^ 31) \<le> x \<Longrightarrow> x < 2 ^ 31 \<Longrightarrow> cint x = Some x"
  by (simp add: cint_def)

text \<open>The indices a loop visits.\<close>

definition visits :: "int list option \<Rightarrow> int set \<Rightarrow> bool" where
  "visits is A \<longleftrightarrow> (\<exists>js. is = Some js \<and> mset js = mset_set A \<and> finite A)"

lemma visits_obtain:
  assumes "visits is A"
  obtains js where "is = Some js" "mset js = mset_set A" "set js = A" "finite A"
  using assms unfolding visits_def by (metis finite_set_mset_mset_set set_mset_mset)

lemma stride_visits:
  assumes "0 < step" "0 \<le> i" "n + step \<le> 2 ^ 31"
  shows "visits (stride i step n) {j. i \<le> j \<and> j < n \<and> step dvd j - i}"
  using assms(2)
proof (induction "nat (n - i)" arbitrary: i rule: less_induct)
  case less
  show ?case
  proof (cases "i < n")
    case False
    then have e: "{j. i \<le> j \<and> j < n \<and> step dvd j - i} = {}" by auto
    show ?thesis unfolding e using False by (simp add: visits_def stride.simps [of i])
  next
    case True
    let ?A = "\<lambda>i. {j. i \<le> j \<and> j < n \<and> step dvd j - i}"
    have e: "to_int32 (i + step) = i + step" using True less.prems assms by simp
    obtain js where js: "stride (i + step) step n = Some js" "mset js = mset_set (?A (i + step))"
      using less.hyps [of "i + step"] True less.prems assms(1) by (auto simp: visits_def)
    have "?A i = insert i (?A (i + step))"
    proof (intro set_eqI iffI)
      fix j assume "j \<in> ?A i"
      then have j: "i \<le> j" "j < n" "step dvd j - i" by auto
      from j(3) obtain k where "j - i = step * k" by (rule dvdE)
      then have k: "j = i + step * k" "i \<le> j" "j < n" using j by simp_all
      then have "0 \<le> k" using assms(1) by (simp add: zero_le_mult_iff)
      then show "j \<in> insert i (?A (i + step))" using k assms(1)
        by (cases "k = 0") (auto simp: algebra_simps mult_le_cancel_left1 intro!: dvdI [of _ _ "k - 1"])
    next
      fix j assume j: "j \<in> insert i (?A (i + step))"
      show "j \<in> ?A i"
      proof (cases "j = i")
        case False
        then have "step dvd (j - (i + step)) + step" using j by (intro dvd_add) auto
        then have "step dvd j - i" by simp
        then show ?thesis using j False assms(1) by auto
      qed (use True in simp)
    qed
    moreover have "finite (?A (i + step))" by (rule finite_subset [of _ "{i..<n}"]) (use assms(1) in auto)
    moreover have "i \<notin> ?A (i + step)" using assms(1) by simp
    ultimately show ?thesis using True js e by (simp add: visits_def stride.simps [of i])
  qed
qed

text \<open>With the start below the step: the indices that leave the start as remainder.\<close>

lemma stride_residues:
  assumes "0 \<le> s" "s < step" "n + step \<le> 2 ^ 31"
  shows "visits (stride s step n) {j. 0 \<le> j \<and> j < n \<and> j mod step = s}"
proof -
  have "s \<le> j \<and> j < n \<and> step dvd j - s \<longleftrightarrow> 0 \<le> j \<and> j < n \<and> j mod step = s" for j
  proof -
    have "step dvd j - s \<longleftrightarrow> j mod step = s" using assms by (simp add: mod_eq_dvd_iff [symmetric])
    moreover have "0 \<le> j \<Longrightarrow> j mod step = s \<Longrightarrow> s \<le> j" using zmod_le_nonneg_dividend [of j step] by simp
    ultimately show ?thesis using assms(1) by auto
  qed
  then show ?thesis using stride_visits [of step s n] assms by simp
qed

lemma those_visits:
  assumes "distinct ts" "\<And>t. t \<in> set ts \<Longrightarrow> visits (f t) (A t)"
    and "\<And>t u. t \<in> set ts \<Longrightarrow> u \<in> set ts \<Longrightarrow> t \<noteq> u \<Longrightarrow> A t \<inter> A u = {}"
  shows "visits (map_option concat (those (map f ts))) (\<Union>t\<in>set ts. A t)"
  using assms
proof (induction ts)
  case (Cons t ts)
  obtain js where js: "f t = Some js" "mset js = mset_set (A t)" "finite (A t)"
    using Cons.prems(2) [of t] by (auto simp: visits_def)
  have "visits (map_option concat (those (map f ts))) (\<Union>t\<in>set ts. A t)"
    using Cons by simp
  then obtain ks where ks: "those (map f ts) = Some ks" "mset (concat ks) = mset_set (\<Union>t\<in>set ts. A t)"
      "finite (\<Union>t\<in>set ts. A t)"
    by (auto simp: visits_def)
  have "A t \<inter> (\<Union>t\<in>set ts. A t) = {}" using Cons.prems by fastforce
  then show ?case using js ks by (simp add: visits_def mset_set_Union)
qed (simp add: visits_def)

subsection \<open>Threads and blocks\<close>

text \<open>The launch is small enough that no index wraps.\<close>

abbreviation fits :: "nat \<Rightarrow> nat \<Rightarrow> int \<Rightarrow> bool" where
  "fits grid block n \<equiv> int grid * int block + n \<le> 2 ^ 31 \<and> 0 \<le> n"

definition thread_set :: "nat \<Rightarrow> nat \<Rightarrow> int \<Rightarrow> nat \<Rightarrow> nat \<Rightarrow> int set" where
  "thread_set grid block n b t = {j \<in> {0..<n}. nat (j mod (int grid * int block)) = b * block + t}"

definition block_set :: "nat \<Rightarrow> nat \<Rightarrow> int \<Rightarrow> nat \<Rightarrow> int set" where
  "block_set grid block n b = (\<Union>t<block. thread_set grid block n b t)"

lemma thread_set_subset: "thread_set grid block n b t \<subseteq> {0..<n}"
  by (auto simp: thread_set_def)

lemma block_set_subset: "block_set grid block n b \<subseteq> {0..<n}"
  by (auto simp: block_set_def thread_set_def)

lemma thread_visits:
  assumes "fits grid block n" "b < grid" "t < block"
  shows "visits (thread_indices grid block n b t) (thread_set grid block n b t)"
proof -
  have l: "b * block + t < grid * block" using assms by (simp add: cell_bound)
  then have l': "int b * int block + int t < int grid * int block"
    by (metis of_nat_add of_nat_less_iff of_nat_mult)
  have e: "to_int32 (int b * int block + int t) = int b * int block + int t"
  proof (rule to_int32_id)
    have "0 \<le> int b * int block + int t" by simp
    then show "- (2 ^ 31) \<le> int b * int block + int t" by (rule order_trans [rotated]) simp
    have "int grid * int block \<le> 2 ^ 31" using assms(1) by simp
    with l' show "int b * int block + int t < 2 ^ 31" by (rule order_less_le_trans)
  qed
  have "{j. 0 \<le> j \<and> j < n \<and> j mod (int grid * int block) = int b * int block + int t} = thread_set grid block n b t"
  proof -
    have pos: "0 < int grid * int block" using l' by (smt (verit) of_nat_0_le_iff mult_nonneg_nonneg)
    have "j mod (int grid * int block) = int b * int block + int t \<longleftrightarrow> nat (j mod (int grid * int block)) = b * block + t" for j
      using pos_mod_sign [OF pos, of j] by (simp add: nat_eq_iff)
    then show ?thesis by (auto simp: thread_set_def)
  qed
  then show ?thesis
    unfolding thread_indices_def e using stride_residues [OF _ l', of n] assms(1) by (simp add: add.commute)
qed

lemma thread_sets_disjoint: "t \<noteq> u \<Longrightarrow> thread_set grid block n b t \<inter> thread_set grid block n b u = {}"
  by (auto simp: thread_set_def)

lemma block_visits:
  assumes "fits grid block n" "b < grid"
  shows "visits (block_indices grid block n b) (block_set grid block n b)"
  using those_visits [of "[0..<block]" "thread_indices grid block n b" "thread_set grid block n b"]
    thread_visits [OF assms] thread_sets_disjoint
  by (simp add: block_indices_def block_set_def atLeast0LessThan)

lemma sum_blocks:
  fixes f :: "nat \<Rightarrow> 'a::comm_monoid_add"
  shows "(\<Sum>b<grid. \<Sum>t<block. f (b * block + t)) = (\<Sum>s<grid * block. f s)"
proof (induction grid)
  case (Suc grid)
  have "(\<Sum>s<grid * block + m. f s) = (\<Sum>s<grid * block. f s) + (\<Sum>t<m. f (grid * block + t))" for m
    by (induction m) (simp_all add: add.assoc)
  from this [of block] show ?case using Suc by (simp add: add.commute)
qed simp

text \<open>Summing over all threads of all blocks is summing over all indices.\<close>

lemma sum_threads:
  fixes f :: "int \<Rightarrow> 'a::comm_monoid_add"
  assumes "0 < grid" "0 < block"
  shows "(\<Sum>b<grid. \<Sum>t<block. sum f (thread_set grid block n b t)) = sum f {0..<n}"
proof -
  have "nat (j mod (int grid * int block)) < grid * block" for j
    using assms by (simp add: nat_less_iff)
  then show ?thesis
    unfolding thread_set_def sum_blocks [where f = "\<lambda>s. sum f {j \<in> {0..<n}. nat (j mod (int grid * int block)) = s}"]
    by (intro sum.group) auto
qed

lemma sum_block_sets:
  fixes f :: "int \<Rightarrow> 'a::comm_monoid_add"
  assumes "0 < grid" "0 < block"
  shows "(\<Sum>b<grid. sum f (block_set grid block n b)) = sum f {0..<n}"
proof -
  have "sum f (block_set grid block n b) = (\<Sum>t<block. sum f (thread_set grid block n b t))" for b
    unfolding block_set_def using thread_sets_disjoint finite_subset [OF thread_set_subset]
    by (intro sum.UNION_disjoint) auto
  then show ?thesis using sum_threads [OF assms] by simp
qed

lemma sum_indices: "sum f {0..<int n} = (\<Sum>j<n. f (int j))"
proof -
  have "{0..<int n} = int ` {..<n}" by (auto simp: image_iff intro!: bexI [of _ "nat _"])
  then show ?thesis by (simp add: sum.reindex)
qed

lemma block_sets_cover: "0 < grid \<Longrightarrow> 0 < block \<Longrightarrow> (\<Union>b<grid. block_set grid block n b) = {0..<n}"
proof -
  assume p: "0 < grid" "0 < block"
  have "j \<in> (\<Union>b<grid. block_set grid block n b)" if "j \<in> {0..<n}" for j
  proof -
    have "nat (j mod (int grid * int block)) < grid * block" using p by (simp add: nat_less_iff)
    then obtain b t where "b < grid" "t < block" "nat (j mod (int grid * int block)) = b * block + t"
      using cell_surj by blast
    then show ?thesis using that by (auto simp: block_set_def thread_set_def)
  qed
  then show ?thesis using block_set_subset by blast
qed

end
