(* ===== verification/Cuda_Sums.thy ===== *)
theory Cuda_Sums
  imports Cuda_Stride
begin

section \<open>Vector addition, reduction and histogram\<close>

text \<open>
  Every schedule of the three grid-stride kernels leaves what the CPU references compute: each launcher refines its
  reference while the indices fit \<open>int\<close>.
\<close>

lemma runs_all_simps:
  assumes "runs_all sch"
  shows "mset (block_order sch bs) = mset bs" "mset (thread_order sch b p ts) = mset ts"
    and "set (block_order sch bs) = set bs" "set (thread_order sch b p ts) = set ts"
proof -
  show m: "mset (block_order sch bs) = mset bs" "mset (thread_order sch b p ts) = mset ts"
    using assms by (simp_all add: runs_all_def)
  show "set (block_order sch bs) = set bs" "set (thread_order sch b p ts) = set ts"
    by (rule mset_eq_setD [OF m(1)], rule mset_eq_setD [OF m(2)])
qed

subsection \<open>Vector addition\<close>

lemma vector_add_kernel_eq:
  assumes "runs_all sch" "fits grid block n" "0 < grid" "0 < block"
    and "nat n \<le> length a" "nat n \<le> length b" "nat n \<le> length c"
  shows "vector_add_kernel fp sch grid block a b c n = Some (cpu_vector_add fp a b c (nat n))"
proof -
  let ?v = "\<lambda>i. f_add fp (a ! i) (b ! i)"
  have blk: "vector_add_block fp sch grid block a b n blk d = Some (writes ?v (nat ` block_set grid block n blk) d)"
    if bd: "blk < grid" "length d = length c" for blk d
  proof -
    obtain js where js: "block_indices grid block n blk = Some js" "set js = block_set grid block n blk"
      using block_visits [OF assms(2) bd(1)] by (rule visits_obtain)
    have "loop (\<lambda>i c. do { x \<leftarrow> ld a i; y \<leftarrow> ld b i; st c i (f_add fp x y) }) (thread_order sch blk 0 js) d =
        Some (writes ?v (\<Union>i\<in>set (thread_order sch blk 0 js). {nat i}) d)"
    proof (rule loop_writes [where n = "length c"])
      fix i :: int and e :: "'a list" assume "i \<in> set (thread_order sch blk 0 js)" "length e = length c"
      then have "0 \<le> i" "i < n" "length e = length c"
        using js(2) runs_all_simps [OF assms(1)] block_set_subset [of grid block n blk] by auto
      then show "(do { x \<leftarrow> ld a i; y \<leftarrow> ld b i; st e i (f_add fp x y) }) = Some (writes ?v {nat i} e)"
        using assms(5-7) by (simp add: ld_int st_int write_one [where v = ?v])
    qed (rule bd(2))
    moreover have "(\<Union>i\<in>set (thread_order sch blk 0 js). {nat i}) = nat ` block_set grid block n blk"
      using js(2) runs_all_simps [OF assms(1)] by auto
    ultimately show ?thesis using js(1) by (simp add: vector_add_block_def)
  qed
  have "vector_add_kernel fp sch grid block a b c n =
      Some (writes ?v (\<Union>blk\<in>set (block_order sch [0..<grid]). nat ` block_set grid block n blk) c)"
    unfolding vector_add_kernel_def using runs_all_simps [OF assms(1)]
    by (intro loop_writes [where n = "length c"] blk) auto
  moreover have "(\<Union>blk\<in>set (block_order sch [0..<grid]). nat ` block_set grid block n blk) = nat ` {0..<n}"
    using runs_all_simps [OF assms(1)] block_sets_cover [OF assms(3,4), of n]
    by (simp add: atLeast0LessThan image_UN [symmetric])
  moreover have "nat ` {0..<n} = {..<nat n}"
    by (auto simp: image_iff intro!: bexI [of _ "int _"])
  ultimately show ?thesis by (simp add: vector_add_writes)
qed

lemma blocks_for_eq:
  assumes "0 < n" "0 < block" "n + 65535 * block < 2 ^ 31"
  shows "\<exists>g. blocks_for n block = Some (int g) \<and> 0 < g \<and> g \<le> 65535"
proof -
  have "n + block < 2 ^ 31" "0 < n + block" using assms by auto
  then have "blocks_for n block = Some (max 1 (min ((n + block - 1) div block) 65535))"
    by (simp add: blocks_for_def)
  then show ?thesis by (intro exI [of _ "nat (max 1 (min ((n + block - 1) div block) 65535))"]) auto
qed

lemma fits_launch:
  assumes "0 < n" "0 < block" "n + 65535 * block < 2 ^ 31" "0 < g" "g \<le> 65535"
  shows "fits g (nat block) n"
proof -
  have "int g * block \<le> 65535 * block" using assms by (intro mult_right_mono) auto
  then have "int g * block + n \<le> 2 ^ 31" using assms(3) by linarith
  then show ?thesis using assms(1,2) by simp
qed

subsection \<open>Reduction\<close>

lemma sum_mset_indices:
  fixes f :: "int \<Rightarrow> 'a::comm_monoid_add"
  assumes "mset js = mset_set A"
  shows "sum_list (map f js) = sum f A"
  by (metis assms mset_map sum_mset_sum_list sum_unfold_sum_mset)

lemma thread_sum_eq:
  assumes "fits grid block n" "b < grid" "t < block" "nat n \<le> length inp"
  shows "thread_sum grid block inp n b t = Some (\<Sum>j\<in>thread_set grid block n b t. ucast (inp ! nat j))"
proof -
  obtain js where js: "thread_indices grid block n b t = Some js" "mset js = mset_set (thread_set grid block n b t)"
      "set js = thread_set grid block n b t"
    using thread_visits [OF assms(1-3)] by (rule visits_obtain)
  have "loop (\<lambda>i v. do { x \<leftarrow> ld inp i; Some (v + ucast x) }) js 0 =
      Some (fold (\<lambda>i v. v + ucast (inp ! nat i)) js (0 :: 64 word))"
  proof (rule loop_fold [where P = "\<lambda>_. True", THEN conjunct1])
    fix i :: int and v :: "64 word" assume "i \<in> set js"
    then have "0 \<le> i" "i < n" using js(3) thread_set_subset [of grid block n b t] by auto
    then show "(do { x \<leftarrow> ld inp i; Some (v + ucast x) }) = Some (v + ucast (inp ! nat i)) \<and> True"
      using assms(4) by (simp add: ld_int)
  qed simp
  then show ?thesis
    by (simp add: thread_sum_def js(1) fold_add_sum_list [where f = "\<lambda>i. ucast (inp ! nat i) :: 64 word"]
        sum_mset_indices [OF js(2)])
qed

text \<open>One level of the tree, in any order of the threads.\<close>

lemma tree_level:
  assumes "distinct ts" "\<And>t. t \<in> set ts \<Longrightarrow> t < s \<Longrightarrow> t + s < length p"
  shows "\<exists>p'. loop (tree_step s) ts p = Some p' \<and> length p' = length p \<and>
    (\<forall>j < length p. p' ! j = (if j \<in> set ts \<and> j < s then p ! j + p ! (j + s) else p ! j))"
  using assms
proof (induction ts arbitrary: p)
  case (Cons t ts)
  show ?case
  proof (cases "t < s")
    case True
    then have "t + s < length p" using Cons.prems(2) by simp
    then have "tree_step s t p = Some (p[t := p ! t + p ! (t + s)])"
      using True by (simp add: tree_step_def del: of_nat_add)
    moreover let ?q = "p[t := p ! t + p ! (t + s)]"
    obtain p' where p': "loop (tree_step s) ts ?q = Some p'" "length p' = length p"
      "\<forall>j < length p. p' ! j = (if j \<in> set ts \<and> j < s then ?q ! j + ?q ! (j + s) else ?q ! j)"
      using Cons.IH [of ?q] Cons.prems by auto
    moreover have "p' ! j = (if j \<in> set (t # ts) \<and> j < s then p ! j + p ! (j + s) else p ! j)" if "j < length p" for j
      using p'(3) Cons.prems True that by (cases "j = t") simp_all
    ultimately show ?thesis by simp
  next
    case False
    then show ?thesis using Cons.IH [of p] Cons.prems by (auto simp: tree_step_def)
  qed
qed simp

lemma sum_lessThan_add: "(\<Sum>j<m + n. f j) = (\<Sum>j<m. f j) + (\<Sum>j<n. f (m + j :: nat) :: 'a::comm_monoid_add)"
  by (induction n) (simp_all add: add.assoc)

lemma reduce_tree_sum:
  assumes "runs_all sch" "2 ^ k \<le> block" "length p = block"
  shows "\<exists>p'. reduce_tree sch b block phase (2 ^ k div 2) p = Some p' \<and> length p' = block \<and> p' ! 0 = (\<Sum>j<2 ^ k. p ! j)"
  using assms(2,3)
proof (induction k arbitrary: phase p)
  case 0
  then show ?case by (simp add: reduce_tree.simps)
next
  case (Suc k)
  let ?ts = "thread_order sch b phase [0..<block]"
  have ts: "set ?ts = {..<block}" "distinct ?ts"
    using runs_all_simps [OF assms(1)] by (auto simp: mset_eq_imp_distinct_iff [OF runs_all_simps(2) [OF assms(1)]])
  obtain q where q: "loop (tree_step (2 ^ k)) ?ts p = Some q" "length q = length p"
    "\<forall>j < length p. q ! j = (if j \<in> set ?ts \<and> j < 2 ^ k then p ! j + p ! (j + 2 ^ k) else p ! j)"
    using tree_level [OF ts(2), of "2 ^ k" p] Suc.prems by auto
  obtain p' where p': "reduce_tree sch b block (phase + 1) (2 ^ k div 2) q = Some p'" "length p' = block"
      "p' ! 0 = (\<Sum>j<2 ^ k. q ! j)"
    using Suc.IH [of q "phase + 1"] Suc.prems q(2) by auto
  have "(\<Sum>j<2 ^ k. q ! j) = (\<Sum>j<2 ^ k. p ! j + p ! (2 ^ k + j))"
    using q(3) ts(1) Suc.prems by (intro sum.cong) (auto simp: add.commute)
  also have "\<dots> = (\<Sum>j<2 ^ k + 2 ^ k. p ! j)" by (simp add: sum.distrib sum_lessThan_add)
  finally show ?case using q(1) p' by (simp add: reduce_tree.simps [of _ _ _ _ "2 ^ k"] mult_2)
qed

lemma even_and_pred: "(2 * v) AND (2 * v - 1) = 2 * (v AND (v - 1))" for v :: int
proof -
  have "(2 * v - 1) div 2 = v - 1" by simp
  then show ?thesis by (subst and_rec) simp
qed

lemma odd_and_pred: "(2 * v + 1) AND (2 * v + 1 - 1) = 2 * v" for v :: int
  by (subst and_rec) simp

lemma is_pow2_power: "is_pow2 v \<Longrightarrow> \<exists>k. v = 2 ^ k"
proof (induction "nat v" arbitrary: v rule: less_induct)
  case less
  then have v: "v > 0" "v AND (v - 1) = 0" by (simp_all add: is_pow2_def)
  show ?case
  proof (cases "even v")
    case True
    then obtain w where w: "v = 2 * w" by (rule evenE)
    then have "is_pow2 w" using v even_and_pred [of w] by (simp add: is_pow2_def)
    then obtain k where "w = 2 ^ k" using less.hyps [of w] w v by auto
    then show ?thesis using w by (intro exI [of _ "Suc k"]) simp
  next
    case False
    then obtain w where "v = 2 * w + 1" by (rule oddE)
    then show ?thesis using v odd_and_pred [of w] by (intro exI [of _ 0]) simp
  qed
qed

lemma launch_blocks: "is_pow2 block \<and> 32 \<le> block \<and> block \<le> 1024 \<longleftrightarrow> block \<in> {32, 64, 128, 256, 512, 1024}"
proof
  assume a: "is_pow2 block \<and> 32 \<le> block \<and> block \<le> 1024"
  then obtain k where k: "block = 2 ^ k" using is_pow2_power by blast
  have "k < 11"
  proof (rule ccontr)
    assume "\<not> k < 11"
    then have "(2 :: int) ^ 11 \<le> 2 ^ k" by (intro power_increasing) simp_all
    then show False using a k by simp
  qed
  then have "k = 0 \<or> k = 1 \<or> k = 2 \<or> k = 3 \<or> k = 4 \<or> k = 5 \<or> k = 6 \<or> k = 7 \<or> k = 8 \<or> k = 9 \<or> k = 10" by presburger
  then show "block \<in> {32, 64, 128, 256, 512, 1024}" using a k by auto
qed (auto simp: is_pow2_def)

lemma reduce_sum_kernel_eq:
  assumes "runs_all sch" "fits grid block n" "0 < grid" "block = 2 ^ k" "nat n \<le> length inp"
    and "\<And>b. b < grid \<Longrightarrow> length (shared b) = block"
  shows "reduce_sum_kernel sch grid block shared inp out n = Some (out + cpu_reduce_sum inp (nat n))"
proof -
  define val where "val b t = (\<Sum>j\<in>thread_set grid block n b t. ucast (inp ! nat j) :: 64 word)" for b t
  have blk: "reduce_sum_block sch grid block shared inp n b acc = Some (acc + (\<Sum>t<block. val b t)) \<and> True"
    if "b \<in> set (block_order sch [0..<grid])" for b acc
  proof -
    have b: "b < grid" using that runs_all_simps [OF assms(1)] by simp
    have "loop (\<lambda>t partial. do { v \<leftarrow> thread_sum grid block inp n b t; st partial (int t) v })
        (thread_order sch b 0 [0..<block]) (shared b) =
      Some (writes (val b) (\<Union>t\<in>set (thread_order sch b 0 [0..<block]). {t}) (shared b))"
    proof (rule loop_writes [where n = block])
      fix t and p :: "64 word list"
      assume "t \<in> set (thread_order sch b 0 [0..<block])" "length p = block"
      then show "(do { v \<leftarrow> thread_sum grid block inp n b t; st p (int t) v }) = Some (writes (val b) {t} p)"
        using runs_all_simps [OF assms(1)] thread_sum_eq [OF assms(2) b _ assms(5)] write_one [of p t "val b"]
        by (simp add: val_def)
    qed (rule assms(6) [OF b])
    also have "writes (val b) (\<Union>t\<in>set (thread_order sch b 0 [0..<block]). {t}) (shared b) = map (val b) [0..<block]"
      using runs_all_simps [OF assms(1)] assms(6) [OF b] by (subst writes_all) auto
    finally have phase: "loop (\<lambda>t partial. do { v \<leftarrow> thread_sum grid block inp n b t; st partial (int t) v })
        (thread_order sch b 0 [0..<block]) (shared b) = Some (map (val b) [0..<block])" .
    obtain p' where "reduce_tree sch b block 1 (2 ^ k div 2) (map (val b) [0..<block]) = Some p'" "length p' = block"
        "p' ! 0 = (\<Sum>j<2 ^ k. map (val b) [0..<block] ! j)"
      using reduce_tree_sum [OF assms(1), of k block "map (val b) [0..<block]" b 1] assms(4) by auto
    moreover from this have "ld p' 0 = Some (p' ! 0)" using ld_nat [of 0 p'] assms(4) by simp
    ultimately show ?thesis using phase assms(4) by (simp add: reduce_sum_block_def)
  qed
  have "reduce_sum_kernel sch grid block shared inp out n =
      Some (fold (\<lambda>b acc. acc + (\<Sum>t<block. val b t)) (block_order sch [0..<grid]) out)"
    unfolding reduce_sum_kernel_def by (rule loop_fold [where P = "\<lambda>_. True", THEN conjunct1]) (rule blk, simp_all)
  also have "\<dots> = Some (out + (\<Sum>b<grid. \<Sum>t<block. val b t))"
    using sum_list_mset [OF runs_all_simps(1) [OF assms(1)], of "\<lambda>b. \<Sum>t<block. val b t" "[0..<grid]"]
    by (simp add: fold_add_sum_list interv_sum_list_conv_sum_set_nat atLeast0LessThan)
  also have "(\<Sum>b<grid. \<Sum>t<block. val b t) = (\<Sum>j\<in>{0..<n}. ucast (inp ! nat j))"
    unfolding val_def using assms(3,4) by (intro sum_threads) auto
  also have "\<dots> = cpu_reduce_sum inp (nat n)"
    using sum_indices [of "\<lambda>j. ucast (inp ! nat j) :: 64 word" "nat n"] assms(2)
    by (simp add: cpu_reduce_sum_def fold_add_sum_list [where f = "\<lambda>i. ucast (inp ! i) :: 64 word"]
        interv_sum_list_conv_sum_set_nat atLeast0LessThan)
  finally show ?thesis .
qed

subsection \<open>Histogram\<close>

abbreviation byte_is :: "8 word list \<Rightarrow> nat \<Rightarrow> int \<Rightarrow> 32 word" where
  "byte_is inp x j \<equiv> of_bool (unat (inp ! nat j) = x)"

lemma bin_visits:
  assumes "0 < block" "block \<le> 1024"
  shows "visits (bin_indices block) {0..<256}"
proof -
  let ?A = "\<lambda>t. {j. 0 \<le> j \<and> j < 256 \<and> j mod int block = int t}"
  have "visits (map_option concat (those (map (\<lambda>t. stride (int t) (int block) 256) [0..<block]))) (\<Union>t\<in>set [0..<block]. ?A t)"
    using assms by (intro those_visits stride_residues) auto
  moreover have "(\<Union>t\<in>set [0..<block]. ?A t) = {0..<256}"
  proof (intro set_eqI iffI)
    fix j :: int assume j: "j \<in> {0..<256}"
    have "j mod int block = int (nat (j mod int block))" "nat (j mod int block) < block"
      using assms(1) by (simp_all add: nat_less_iff)
    then show "j \<in> (\<Union>t\<in>set [0..<block]. ?A t)" using j by (intro UN_I [of "nat (j mod int block)"]) simp_all
  qed auto
  ultimately show ?thesis by (simp add: bin_indices_def)
qed

lemma count_loop:
  assumes "length loc = 256" "\<And>i. i \<in> set is \<Longrightarrow> 0 \<le> i \<and> nat i < length inp"
  shows "\<exists>loc'. loop (count_byte inp) is loc = Some loc' \<and> length loc' = 256 \<and>
    (\<forall>x < 256. loc' ! x = loc ! x + sum_list (map (byte_is inp x) is))"
  using assms
proof (induction "is" arbitrary: loc)
  case (Cons i "is")
  let ?x = "unat (inp ! nat i)"
  have x: "?x < 256" using unsigned_less [of "inp ! nat i", where 'a = nat] by simp
  have step: "count_byte inp i loc = Some (loc[?x := loc ! ?x + 1])"
    using Cons.prems x st_int [of "uint (inp ! nat i)" loc] ld_int [of "uint (inp ! nat i)" loc]
    by (simp add: count_byte_def ld_int)
  obtain loc' where "loop (count_byte inp) is (loc[?x := loc ! ?x + 1]) = Some loc'" "length loc' = 256"
      "\<forall>y < 256. loc' ! y = loc[?x := loc ! ?x + 1] ! y + sum_list (map (byte_is inp y) is)"
    using Cons.IH [of "loc[?x := loc ! ?x + 1]"] Cons.prems by auto
  then show ?case using step Cons.prems(1) x by (auto simp: nth_list_update add.assoc)
qed simp

lemma flush_loop:
  assumes "distinct is" "256 \<le> length bins" "length loc = 256" "\<And>i. i \<in> set is \<Longrightarrow> 0 \<le> i \<and> i < 256"
  shows "\<exists>bins'. loop (flush_bin loc) is bins = Some bins' \<and> length bins' = length bins \<and>
    (\<forall>x < length bins. bins' ! x = (if int x \<in> set is then bins ! x + loc ! x else bins ! x))"
proof -
  have step: "flush_bin loc i b = Some (b[nat i := b ! nat i + loc ! nat i])" if i: "i \<in> set is" and b: "length b = length bins" for i b
  proof -
    have "loc ! nat i = 0 \<Longrightarrow> b[nat i := b ! nat i + loc ! nat i] = b" by simp
    then show ?thesis using assms(2,3) assms(4) [OF i] b by (auto simp: flush_bin_def ld_int st_int)
  qed
  have inj: "inj_on nat (set is)" using assms(4) by (intro inj_onI) (metis nat_0_le)
  obtain bins' where b: "loop (flush_bin loc) is bins = Some bins'" "length bins' = length bins"
      "\<forall>i\<in>set is. bins' ! nat i = bins ! nat i + loc ! nat i" "\<forall>j. j \<notin> nat ` set is \<longrightarrow> bins' ! j = bins ! j"
    using loop_updates [where f = "flush_bin loc" and at = nat and g = "\<lambda>i v. v + loc ! nat i", OF step assms(1) inj refl]
      assms(2,4) by fastforce
  moreover have "int x \<notin> set is \<Longrightarrow> x \<notin> nat ` set is" for x using assms(4) by auto
  ultimately show ?thesis by (metis nat_int)
qed

lemma visits_distinct: "mset js = mset_set A \<Longrightarrow> set js = A \<Longrightarrow> distinct js"
  by (rule card_distinct) (metis size_mset size_mset_set)

lemma histogram_block:
  assumes "runs_all sch" "fits grid block n" "b < grid" "0 < block" "block \<le> 1024" "nat n \<le> length inp"
    and "256 \<le> length bins" "length (shared b) = 256"
  shows "\<exists>bins'. histogram256_block sch grid block shared inp n b bins = Some bins' \<and> length bins' = length bins \<and>
    (\<forall>x < length bins. bins' ! x = bins ! x + (if x < 256 then sum (byte_is inp x) (block_set grid block n b) else 0))"
proof -
  note runs = runs_all_simps [OF assms(1)]
  obtain clear where clear: "bin_indices block = Some clear" "mset clear = mset_set {0..<256}" "set clear = {0..<256}"
    using bin_visits [OF assms(4,5)] by (rule visits_obtain)
  have dist: "distinct (thread_order sch b 2 clear)"
    using clear(2,3) by (simp add: mset_eq_imp_distinct_iff [OF runs(2)] visits_distinct)
  have "loop (\<lambda>i loc. st loc i (0 :: 32 word)) (thread_order sch b 0 clear) (shared b) =
      Some (writes (\<lambda>_. 0) (\<Union>i\<in>set (thread_order sch b 0 clear). {nat i}) (shared b))"
  proof (rule loop_writes [where n = 256])
    fix i :: int and a :: "32 word list" assume "i \<in> set (thread_order sch b 0 clear)" "length a = 256"
    then have "0 \<le> i" "nat i < length a" using runs clear(3) by auto
    then show "st a i 0 = Some (writes (\<lambda>_. 0) {nat i} a)"
      using write_one [of a "nat i" "\<lambda>_. 0"] by (simp add: st_int)
  qed (rule assms(8))
  moreover have "{..<256} \<subseteq> (\<Union>i\<in>set (thread_order sch b 0 clear). {nat i})"
    using runs clear(3) by (auto intro!: bexI [of _ "int _"])
  ultimately have zero: "loop (\<lambda>i loc. st loc i (0 :: 32 word)) (thread_order sch b 0 clear) (shared b) = Some (replicate 256 0)"
    using assms(8) writes_all [of "shared b" _ "\<lambda>_. 0"] by (simp add: map_replicate_const)
  obtain js where js: "block_indices grid block n b = Some js" "mset js = mset_set (block_set grid block n b)"
      "set js = block_set grid block n b"
    using block_visits [OF assms(2,3)] by (rule visits_obtain)
  have "0 \<le> i \<and> nat i < length inp" if "i \<in> set (thread_order sch b 1 js)" for i
    using that runs js(3) block_set_subset [of grid block n b] assms(6) by fastforce
  then obtain loc where loc: "loop (count_byte inp) (thread_order sch b 1 js) (replicate 256 0) = Some loc" "length loc = 256"
      "\<forall>x < 256. loc ! x = replicate 256 0 ! x + sum_list (map (byte_is inp x) (thread_order sch b 1 js))"
    using count_loop [of "replicate 256 0" "thread_order sch b 1 js" inp] by auto
  have sums: "sum_list (map (byte_is inp x) (thread_order sch b 1 js)) = sum (byte_is inp x) (block_set grid block n b)" for x
    using runs(2) js(2) by (intro sum_mset_indices) simp
  obtain bins' where "loop (flush_bin loc) (thread_order sch b 2 clear) bins = Some bins'" "length bins' = length bins"
      "\<forall>x < length bins. bins' ! x = (if int x \<in> set (thread_order sch b 2 clear) then bins ! x + loc ! x else bins ! x)"
    using flush_loop [OF dist assms(7) loc(2)] runs clear(3) by auto
  then show ?thesis
    using clear(1) zero js(1) loc sums runs clear(3) by (simp add: histogram256_block_def)
qed

lemma fold_count_bytes:
  fixes bins :: "32 word list"
  assumes "length bins = 256" "x < 256"
  shows "fold (\<lambda>i bins. bins[unat (inp ! i) := bins ! unat (inp ! i) + 1]) is bins ! x =
    bins ! x + sum_list (map (\<lambda>i. byte_is inp x (int i)) is)"
  using assms
proof (induction "is" arbitrary: bins)
  case (Cons i "is")
  have "unat (inp ! i) < 256" using unsigned_less [of "inp ! i", where 'a = nat] by simp
  then show ?case using Cons by (auto simp: nth_list_update add.assoc)
qed simp

lemma histogram256_kernel_eq:
  assumes "runs_all sch" "fits grid block n" "0 < grid" "0 < block" "block \<le> 1024" "nat n \<le> length inp"
    and "\<And>b. b < grid \<Longrightarrow> length (shared b) = 256"
  shows "histogram256_kernel sch grid block shared inp (replicate 256 0 @ rest) n =
    Some (cpu_histogram256 inp (nat n) @ rest)"
proof -
  let ?blk = "histogram256_block sch grid block shared inp n"
  let ?add = "\<lambda>x b. if x < 256 then sum (byte_is inp x) (block_set grid block n b) else 0"
  have blocks: "\<exists>bins'. loop ?blk bs bins = Some bins' \<and> length bins' = length bins \<and>
      (\<forall>x < length bins. bins' ! x = bins ! x + sum_list (map (?add x) bs))"
    if "256 \<le> length bins" "set bs \<subseteq> {..<grid}" for bins bs
    using that
  proof (induction bs arbitrary: bins)
    case (Cons b bs)
    then have b: "b < grid" by simp
    obtain q where q: "?blk b bins = Some q" "length q = length bins" "\<forall>x < length bins. q ! x = bins ! x + ?add x b"
      using histogram_block [OF assms(1,2) b assms(4-6) Cons.prems(1), where shared = shared] assms(7) [OF b] by auto
    obtain r where "loop ?blk bs q = Some r" "length r = length q"
        "\<forall>x < length q. r ! x = q ! x + sum_list (map (?add x) bs)"
      using Cons.IH [of q] Cons.prems q(2) by auto
    then show ?case using q by (auto simp: add.assoc)
  qed simp
  let ?init = "replicate 256 0 @ rest"
  obtain bins' where b: "histogram256_kernel sch grid block shared inp ?init n = Some bins'" "length bins' = length ?init"
      "\<forall>x < length ?init. bins' ! x = ?init ! x + sum_list (map (?add x) (block_order sch [0..<grid]))"
    using blocks [of ?init "block_order sch [0..<grid]"] runs_all_simps(3) [OF assms(1), of "[0..<grid]"]
    by (auto simp: histogram256_kernel_def atLeast0LessThan)
  have tot: "sum_list (map (?add x) (block_order sch [0..<grid])) =
      (if x < 256 then sum_list (map (\<lambda>i. byte_is inp x (int i)) [0..<nat n]) else 0)" for x
  proof -
    have "sum_list (map (?add x) (block_order sch [0..<grid])) = (\<Sum>b<grid. ?add x b)"
      using sum_list_mset [OF runs_all_simps(1) [OF assms(1)], of "?add x" "[0..<grid]"]
      by (simp add: interv_sum_list_conv_sum_set_nat atLeast0LessThan)
    also have "\<dots> = (if x < 256 then sum (byte_is inp x) {0..<n} else 0)"
      using sum_block_sets [OF assms(3,4), of "byte_is inp x" n] by simp
    also have "sum (byte_is inp x) {0..<n} = sum_list (map (\<lambda>i. byte_is inp x (int i)) [0..<nat n])"
      using sum_indices [of "byte_is inp x" "nat n"] assms(2)
      by (simp add: interv_sum_list_conv_sum_set_nat atLeast0LessThan)
    finally show ?thesis .
  qed
  have len: "length (cpu_histogram256 inp (nat n)) = 256" using histogram_count [OF assms(6)] by simp
  have "bins' = cpu_histogram256 inp (nat n) @ rest"
  proof (rule nth_equalityI)
    fix x assume "x < length bins'"
    then show "bins' ! x = (cpu_histogram256 inp (nat n) @ rest) ! x"
      using b(2,3) tot [of x] len fold_count_bytes [of "replicate 256 0" x inp "[0..<nat n]"]
      by (cases "x < 256") (simp_all add: nth_append cpu_histogram256_def)
  qed (simp add: b(2) len)
  then show ?thesis using b(1) by simp
qed

subsection \<open>The launchers\<close>

text \<open>
  The launches that CUDA accepts (for kernels that need no more registers than a block may have): at least one block
  and one thread, at most \<open>2 ^ 31 - 1\<close> blocks in x and 65535 in y direction, at most 1024 threads in a block and
  48 KiB of dynamic shared memory. A driver starts those; a strict one answers the others with
  \<open>cudaErrorInvalidConfiguration\<close>.
\<close>

definition launchable :: "int list \<Rightarrow> int list \<Rightarrow> int \<Rightarrow> bool" where
  "launchable grid block shared_bytes \<longleftrightarrow>
     list_all (\<lambda>d. 1 \<le> d) (grid @ block) \<and>
     (case grid of [x] \<Rightarrow> x < 2 ^ 31 | [x, y] \<Rightarrow> x < 2 ^ 31 \<and> y \<le> 65535 | _ \<Rightarrow> False) \<and>
     prod_list block \<le> 1024 \<and> 0 \<le> shared_bytes \<and> shared_bytes \<le> 49152"

abbreviation driver_ok :: "cuda_env \<Rightarrow> bool" where
  "driver_ok env \<equiv> memset_result env = cudaSuccess \<and>
     (\<forall>grid block bytes. launchable grid block bytes \<longrightarrow> launch_result env grid block bytes = cudaSuccess)"

abbreviation driver_strict :: "cuda_env \<Rightarrow> bool" where
  "driver_strict env \<equiv> driver_ok env \<and>
     (\<forall>grid block bytes. \<not> launchable grid block bytes \<longrightarrow>
        launch_result env grid block bytes = cudaErrorInvalidConfiguration)"

lemma launch_ok:
  "driver_ok env \<Longrightarrow> launchable grid block bytes \<Longrightarrow> launch env grid block bytes old new = map_option (Pair cudaSuccess) new"
  by (simp add: launch_def)

lemma launch_refused:
  "driver_strict env \<Longrightarrow> \<not> launchable grid block bytes \<Longrightarrow>
    launch env grid block bytes old new = Some (cudaErrorInvalidConfiguration, old)"
  by (simp add: launch_def)

lemma launchable_1d:
  "1 \<le> g \<Longrightarrow> g \<le> 65535 \<Longrightarrow> 1 \<le> block \<Longrightarrow> block \<le> 1024 \<Longrightarrow> 0 \<le> bytes \<Longrightarrow> bytes \<le> 49152 \<Longrightarrow>
    launchable [g] [block] bytes"
  by (simp add: launchable_def)

text \<open>A machine to try the theorems on: exact arithmetic, a strict driver, everything runs in reverse order.\<close>

definition exact_fp :: "(int, int) fp" where
  "exact_fp = \<lparr>f_of_nat = int, f_add = (+), f_sub = (-), f_mul = (*), f_div = (div), f_eq = (=), f_nan = (\<lambda>_. False),
     f_inf = (\<lambda>_. False), f_show = show_int, d_of_f = id, f_of_d = id, d_zero = 0, d_add = (+), d_sub = (-), d_mul = (*),
     d_div = (div), d_abs = abs, d_le = (\<le>), d_less = (<), d_show = show_int\<rparr>"

definition ok_env :: cuda_env where
  "ok_env = \<lparr>memset_result = cudaSuccess,
     launch_result = (\<lambda>g b s. if launchable g b s then cudaSuccess else cudaErrorInvalidConfiguration)\<rparr>"

definition backwards :: "('b, 't) schedule" where
  "backwards = \<lparr>block_order = rev, thread_order = (\<lambda>_ _. rev)\<rparr>"

lemma machine_simps [simp]: "runs_all backwards" "driver_strict ok_env" "f_add exact_fp = (+)"
  by (simp_all add: runs_all_def backwards_def ok_env_def exact_fp_def)

text \<open>
  \<open>launch_vector_add\<close> leaves in the output what \<open>cpu_vector_add\<close> computes, for every schedule of the threads and every
  block size that CUDA allows, without an access out of bounds; for any other block size it reports
  \<open>cudaErrorInvalidConfiguration\<close> and leaves the output alone. Sizes whose index arithmetic could leave \<open>int\<close> are excluded.
\<close>

theorem vector_add_matches_reference:
  assumes "runs_all sch" "driver_strict env" "0 < n" "n + 65535 * block < 2 ^ 31"
    and "nat n \<le> length a" "nat n \<le> length b" "nat n \<le> length c"
  shows "launch_vector_add fp env sch (Some a) (Some b) (Some c) n block =
    Some (if 1 \<le> block \<and> block \<le> 1024 then (cudaSuccess, Some (cpu_vector_add fp a b c (nat n)))
      else (cudaErrorInvalidConfiguration, Some c))"
proof (cases "0 < block")
  case False
  then have "\<not> launchable [1] [block] 0" by (simp add: launchable_def)
  from launch_refused [OF assms(2) this] show ?thesis using False assms(3) by (simp add: launch_vector_add_def)
next
  case True
  obtain g where g: "blocks_for n block = Some (int g)" "0 < g" "g \<le> 65535"
    using blocks_for_eq [OF assms(3) True assms(4)] by blast
  show ?thesis
  proof (cases "block \<le> 1024")
    case False
    then have "\<not> launchable [int g] [block] 0" by (simp add: launchable_def)
    from launch_refused [OF assms(2) this] show ?thesis using False True g(1) assms(3) by (simp add: launch_vector_add_def)
  next
    case b: True
    have "launchable [int g] [block] 0" using b True g(2,3) by (intro launchable_1d) simp_all
    then show ?thesis
      using vector_add_kernel_eq [OF assms(1) fits_launch [OF assms(3) True assms(4) g(2,3)] g(2) _ assms(5-7)]
        g(1) assms(2,3) True b
      by (simp add: launch_vector_add_def launch_ok)
  qed
qed

theorem vector_add_matches_reference_witness:
  "launch_vector_add exact_fp ok_env backwards (Some [1, 2, 3]) (Some [10, 20, 30]) (Some [0, 0, 0, 7]) 3 2 =
    Some (cudaSuccess, Some [11, 22, 33, 7])"
  using vector_add_matches_reference [of backwards ok_env 3 2 "[1, 2, 3]" "[10, 20, 30]" "[0, 0, 0, 7]" exact_fp]
  by (simp add: cpu_vector_add_def upt_rec)

text \<open>
  Property C36. \<open>launch_reduce_sum\<close> refuses block sizes that are not powers of two between 32 and 1024; for the others
  it stores the exact sum, for every schedule and whatever shared memory held: the tree of every block adds up all its
  threads, and the sum of up to \<open>2 ^ 31\<close> numbers does not wrap.
\<close>

theorem reduce_sum_matches_reference:
  assumes "runs_all sch" "driver_ok env" "0 \<le> n" "n + 65535 * block < 2 ^ 31" "nat n \<le> length inp"
    and "\<forall>b. length (shared b) = nat block"
  shows "launch_reduce_sum env sch shared (Some inp) (Some out) n block =
    (if block \<in> {32, 64, 128, 256, 512, 1024} then Some (cudaSuccess, Some (cpu_reduce_sum inp (nat n)))
     else Some (cudaErrorInvalidValue, Some out))"
proof -
  have pow: "is_pow2 block \<and> 32 \<le> block \<and> block \<le> 1024 \<longleftrightarrow> block \<in> {32, 64, 128, 256, 512, 1024}"
    by (rule launch_blocks)
  show ?thesis
  proof (cases "block \<in> {32, 64, 128, 256, 512, 1024}")
    case False
    then show ?thesis using pow assms(3) by (auto simp: launch_reduce_sum_def kMaxThreadsPerBlock_def)
  next
    case True
    with pow have b: "is_pow2 block" "32 \<le> block" "block \<le> 1024" by simp_all
    show ?thesis
    proof (cases "n = 0")
      case True
      then show ?thesis using b pow assms(2) \<open>block \<in> _\<close>
        by (simp add: launch_reduce_sum_def cpu_reduce_sum_def kMaxThreadsPerBlock_def)
    next
      case False
      then have n: "0 < n" using assms(3) by simp
      have b0: "0 < block" using b(2) by simp
      obtain g where g: "blocks_for n block = Some (int g)" "0 < g" "g \<le> 65535"
        using blocks_for_eq [OF n b0 assms(4)] by blast
      obtain k where k: "nat block = 2 ^ k" using is_pow2_power [OF b(1)] by (auto simp: nat_power_eq)
      show ?thesis
        using reduce_sum_kernel_eq [OF assms(1) fits_launch [OF n b0 assms(4) g(2,3)] g(2) k assms(5), of shared 0]
          g(1) n assms(2,6) b \<open>block \<in> _\<close> launchable_1d [of "int g" block "block * 8"] g(2,3)
        by (simp add: launch_reduce_sum_def launch_ok kMaxThreadsPerBlock_def)
    qed
  qed
qed

theorem reduce_sum_matches_reference_witness:
  "launch_reduce_sum ok_env backwards (\<lambda>_. replicate 64 5) (Some [0xFFFFFFFF, 2, 4]) (Some 9) 3 64 =
    Some (cudaSuccess, Some 0x100000005)"
  using reduce_sum_matches_reference [of backwards ok_env 3 64 "[0xFFFFFFFF, 2, 4]" "\<lambda>_. replicate 64 5" 9]
  by (simp add: cpu_reduce_sum_def upt_rec)

text \<open>
  Property C38. \<open>launch_histogram256\<close> fills the 256 bins as \<open>cpu_histogram256\<close> does, for every schedule, block size
  and initial contents of the bins and of shared memory, and leaves what follows the bins alone.
\<close>

theorem histogram_matches_reference:
  assumes "runs_all sch" "driver_ok env" "0 \<le> n" "1 \<le> block" "block \<le> 1024" "n + 65535 * block < 2 ^ 31"
    and "nat n \<le> length inp" "length bins = 256" "\<forall>b. length (shared b) = 256"
  shows "launch_histogram256 env sch shared (Some inp) (Some (bins @ rest)) n block =
    Some (cudaSuccess, Some (cpu_histogram256 inp (nat n) @ rest))"
proof (cases "n = 0")
  case True
  then show ?thesis
    using assms(2,4,5,8) by (simp add: launch_histogram256_def zero_bins_def cpu_histogram256_def kMaxThreadsPerBlock_def)
next
  case False
  then have n: "0 < n" and b0: "0 < block" using assms(3,4) by simp_all
  obtain g where g: "blocks_for n block = Some (int g)" "0 < g" "g \<le> 65535"
    using blocks_for_eq [OF n b0 assms(6)] by blast
  show ?thesis
    using histogram256_kernel_eq [OF assms(1) fits_launch [OF n b0 assms(6) g(2,3)] g(2) _ _ assms(7), of shared rest]
      g(1) n assms(2,4,5,8,9) launchable_1d [of "int g" block 0] g(2,3)
    by (simp add: launch_histogram256_def zero_bins_def launch_ok kMaxThreadsPerBlock_def)
qed

theorem histogram_matches_reference_witness:
  "launch_histogram256 ok_env backwards (\<lambda>_. replicate 256 5) (Some [7, 9, 7]) (Some (replicate 256 3 @ [4])) 3 2 =
    Some (cudaSuccess, Some (cpu_histogram256 [7, 9, 7] 3 @ [4]))"
  using histogram_matches_reference [of backwards ok_env 3 2 "[7, 9, 7]" "replicate 256 3" "\<lambda>_. replicate 256 5" "[4]"]
  by simp

end
