(* ===== verification/Cuda_Overflow.thy ===== *)
theory Cuda_Overflow
  imports Cuda_Sums
begin

section \<open>Sizes close to the largest int\<close>

text \<open>
  The bound on \<open>n\<close> in the theorems on grid-stride loops is needed: close to \<open>2 ^ 31\<close> the index wraps to a negative
  number, which passes the test \<open>i < n\<close>.
\<close>

lemma loop_fails: "x \<in> set xs \<Longrightarrow> (\<And>s. f x s = None) \<Longrightarrow> loop f xs s = None"
  by (induction xs arbitrary: s) (auto split: bind_split)

lemma stride_next:
  assumes "stride i step n = Some is" "i < n"
  obtains js where "stride (to_int32 (i + step)) step n = Some js" "is = i # js"
  using assms by (subst (asm) stride.simps) (auto simp: bind_eq_Some_conv)

lemma stride_starts: "stride i step n = Some is \<Longrightarrow> i < n \<Longrightarrow> i \<in> set is"
  by (erule stride_next) auto

lemma stride_reaches:
  assumes "stride i step n = Some is" "0 \<le> i" "0 < step" "n \<le> 2 ^ 31"
  shows "i + int k * step < n \<Longrightarrow> \<exists>js. stride (i + int k * step) step n = Some js \<and> set js \<subseteq> set is"
proof (induction k)
  case 0
  then show ?case using assms(1) by simp
next
  case (Suc k)
  let ?i = "i + int k * step"
  have lt: "?i + step < n" using Suc.prems by (simp add: algebra_simps)
  obtain js where js: "stride ?i step n = Some js" "set js \<subseteq> set is"
    using Suc.IH lt assms(3) by auto
  have "0 \<le> ?i" using assms(2,3) by simp
  then have e: "to_int32 (?i + step) = ?i + step" using lt assms(3,4) by (intro to_int32_id) linarith+
  obtain ks where "stride (to_int32 (?i + step)) step n = Some ks" "js = ?i # ks"
    using stride_next [OF js(1)] lt assms(3) by auto
  then show ?case using js(2) e by (auto simp: algebra_simps)
qed

text \<open>
  Property C39. For \<open>n = 2 ^ 31 - 2\<close> (and one thread per block) \<open>launch_vector_add\<close> accepts its arguments and launches
  65535 blocks, but the run has no defined result, whatever the schedule and the arrays: the index of a thread wraps to
  a negative number and goes on, so that its loop accesses the arrays out of bounds, if it ends at all.
\<close>

theorem vector_add_wraps_near_int_max:
  assumes "runs_all sch" "driver_ok env"
  shows "launch_vector_add fp env sch (Some a) (Some b) (Some c) (2 ^ 31 - 2) 1 = None"
proof -
  let ?n = "2 ^ 31 - 2 :: int"
  have grid: "blocks_for ?n 1 = Some 65535" by (simp add: blocks_for_def)
  have bad: "\<exists>i \<in> set is. i < 0" if blk: "block_indices 65535 1 ?n 0 = Some is" for "is"
  proof -
    have "thread_indices 65535 1 ?n 0 0 = Some is"
      using blk by (auto simp: block_indices_def split: option.splits)
    then have s: "stride 0 65535 ?n = Some is" by (simp add: thread_indices_def)
    obtain js where js: "stride (32768 * 65535) 65535 ?n = Some js" "set js \<subseteq> set is"
      using stride_reaches [OF s, of 32768] by auto
    obtain ks where ks: "stride (to_int32 (32768 * 65535 + 65535)) 65535 ?n = Some ks" "js = (32768 * 65535) # ks"
      using stride_next [OF js(1)] by auto
    have "to_int32 (32768 * 65535 + 65535) = -2147450881" by (simp add: to_int32_def)
    then have "-2147450881 \<in> set ks" using ks(1) stride_starts [of "-2147450881" 65535 ?n ks] by simp
    then show ?thesis using js(2) ks(2) by (intro bexI [of _ "-2147450881"]) auto
  qed
  have "vector_add_block fp sch 65535 1 a b ?n 0 d = None" for d
  proof (cases "block_indices 65535 1 ?n 0")
    case (Some js)
    then obtain i where "i \<in> set (thread_order sch 0 0 js)" "i < 0"
      using bad [OF Some] runs_all_simps(4) [OF assms(1)] by auto
    then have "loop (\<lambda>i c. do { x \<leftarrow> ld a i; y \<leftarrow> ld b i; st c i (f_add fp x y) }) (thread_order sch 0 0 js) d = None"
      by (intro loop_fails) (auto simp: ld_def)
    then show ?thesis using Some by (simp add: vector_add_block_def)
  qed (simp add: vector_add_block_def)
  then have "vector_add_kernel fp sch 65535 1 a b c ?n = None"
    unfolding vector_add_kernel_def using runs_all_simps(3) [OF assms(1), of "[0..<65535]"]
    by (intro loop_fails [of 0]) auto
  moreover have "launchable [65535] [1] 0" by (simp add: launchable_def)
  ultimately show ?thesis using assms(2) grid by (simp add: launch_vector_add_def launch_ok)
qed

theorem vector_add_wraps_near_int_max_witness:
  "launch_vector_add exact_fp ok_env backwards (Some (replicate (2 ^ 31) 1)) (Some (replicate (2 ^ 31) 2))
    (Some (replicate (2 ^ 31) 0)) (2 ^ 31 - 2) 1 = None"
  by (rule vector_add_wraps_near_int_max) simp_all

end
