(* ===== verification/Cuda_Tiles.thy ===== *)
theory Cuda_Tiles
  imports Cuda_Sums
begin

section \<open>Transposition and matrix product\<close>

text \<open>
  The kernels on two-dimensional grids. Every cell of the result is written by one thread, and every thread that reads a
  shared tile reads what the threads of its block have loaded before the barrier, so the results do not depend on the
  schedule: \<open>transpose_kernel\<close> is \<open>cpu_transpose\<close>, and both matrix products add the same products. Their grids have
  one row of blocks for each row of tiles, and CUDA launches at most 65535 of those.
\<close>

subsection \<open>Positions\<close>

lemma grid_of_set [simp]: "set (grid_of m n) = {..<m} \<times> {..<n}"
  by (auto simp: grid_of_def)

lemma cell_nat:
  assumes "r < rows" "c < cols" "rows * cols < 2 ^ 31"
  shows "cell (int r) (int cols) (int c) = Some (int (r * cols + c))"
proof -
  have "r * cols + c < 2 ^ 31" using cell_bound [OF assms(1,2)] assms(3) by (rule order_less_trans)
  then have "int r * int cols + int c < 2 ^ 31"
    by (metis of_nat_add of_nat_less_iff of_nat_mult of_nat_numeral of_nat_power)
  moreover have "0 \<le> int r * int cols" by simp
  ultimately have "cint (int r * int cols) = Some (int r * int cols)"
      "cint (int r * int cols + int c) = Some (int r * int cols + int c)"
    by (intro cint_id; linarith)+
  then show ?thesis by (simp add: cell_def)
qed

text \<open>The blocks cover the matrix, and positions of threads do not wrap.\<close>

lemma tiles_for_eq:
  assumes "0 < edge" "n + edge < 2 ^ 31"
  shows "tiles_for (int n) edge = Some (int ((n + edge - 1) div edge))"
proof -
  have "int n + int edge < 2 ^ 31"
    using assms(2) by (metis of_nat_add of_nat_less_iff of_nat_numeral of_nat_power)
  then have "cint (int n + int edge) = Some (int n + int edge)" by (intro cint_id) simp_all
  moreover have "(int n + int edge - 1) = int (n + edge - 1)" using assms(1) by (simp add: of_nat_diff)
  ultimately show ?thesis by (simp only: tiles_for_def option.map zdiv_int)
qed

lemma tile_covers:
  assumes "0 < edge" "i < n"
  shows "i div edge < (n + edge - 1) div (edge :: nat)"
proof -
  have e: "n + edge - 1 = (n - 1) + edge" using assms by simp
  have "(n + edge - 1) div edge = (n - 1) div edge + 1" unfolding e using assms(1) by (intro div_add_self2) simp
  moreover have "i div edge \<le> (n - 1) div edge" using assms(2) by (intro div_le_mono) simp
  ultimately show ?thesis by simp
qed

lemma tile_pos_bound:
  fixes b n edge t :: nat
  assumes "b < (n + edge - 1) div edge" "t < edge"
  shows "b * edge + t < n + edge"
proof -
  have "Suc b * edge \<le> (n + edge - 1) div edge * edge" using assms(1) by (intro mult_le_mono1) simp
  also have "\<dots> \<le> n + edge - 1" by (rule div_times_less_eq_dividend)
  finally show ?thesis using assms(2) by simp
qed

lemma tile_pos_nat:
  assumes "b < (n + edge - 1) div edge" "t < edge" "n + edge < 2 ^ 31"
  shows "tile_pos edge b t = int (b * edge + t)"
proof -
  have "b * edge + t < 2 ^ 31" using tile_pos_bound [OF assms(1,2)] assms(3) by (rule order_less_trans)
  then have lt: "int b * int edge + int t < 2 ^ 31"
    by (metis of_nat_add of_nat_less_iff of_nat_mult of_nat_numeral of_nat_power)
  have "- (2 ^ 31) \<le> int b * int edge + int t" by (rule order_trans [of _ 0]) simp_all
  with lt show ?thesis unfolding tile_pos_def by (subst to_int32_id) simp_all
qed

subsection \<open>Transposition\<close>

lemma trans_passes_set: "set trans_passes = {0, 8, 16, 24}"
  by (simp add: trans_passes_def kTransTile_def kTransRows_def upt_rec)

lemma cint_nat: "m < 2 ^ 31 \<Longrightarrow> cint (int m) = Some (int m)"
proof -
  assume "m < 2 ^ 31"
  then have "int m < 2 ^ 31" by (metis of_nat_less_iff of_nat_numeral of_nat_power)
  then show ?thesis by (intro cint_id) (rule order_trans [of _ 0], simp_all)
qed

text \<open>What thread \<open>(ty, tx)\<close> of block \<open>(by, bx)\<close> does in the two phases: the cells it writes, and their values.\<close>

definition load_val :: "'f list \<Rightarrow> nat \<Rightarrow> pos \<Rightarrow> nat \<Rightarrow> 'f" where
  "load_val inp cols blk k = inp ! ((fst blk * 32 + k div 33) * cols + (snd blk * 32 + k mod 33))"

definition load_cell :: "nat \<Rightarrow> nat \<Rightarrow> pos \<Rightarrow> pos \<Rightarrow> nat \<Rightarrow> nat set" where
  "load_cell rows cols blk thr j =
     (if snd blk * 32 + snd thr < cols \<and> fst blk * 32 + fst thr + j < rows then {(fst thr + j) * 33 + snd thr} else {})"

definition out_val :: "'f list \<Rightarrow> nat \<Rightarrow> nat \<Rightarrow> nat \<Rightarrow> 'f" where
  "out_val inp rows cols k = inp ! ((k mod rows) * cols + k div rows)"

definition store_cell :: "nat \<Rightarrow> nat \<Rightarrow> pos \<Rightarrow> pos \<Rightarrow> nat \<Rightarrow> nat set" where
  "store_cell rows cols blk thr j =
     (if fst blk * 32 + snd thr < rows \<and> snd blk * 32 + fst thr + j < cols
      then {(snd blk * 32 + fst thr + j) * rows + (fst blk * 32 + snd thr)} else {})"

text \<open>Sizes whose index arithmetic stays in \<open>int\<close>.\<close>

abbreviation transposable :: "'f list \<Rightarrow> nat \<Rightarrow> nat \<Rightarrow> bool" where
  "transposable inp rows cols \<equiv>
     rows + 64 < 2 ^ 31 \<and> cols + 64 < 2 ^ 31 \<and> rows * cols < 2 ^ 31 \<and> rows * cols \<le> length inp"

abbreviation block_in :: "nat \<Rightarrow> nat \<Rightarrow> pos \<Rightarrow> bool" where
  "block_in rows cols blk \<equiv> fst blk < (rows + 32 - 1) div 32 \<and> snd blk < (cols + 32 - 1) div 32"

lemma pass_bound:
  assumes "b < (n + 32 - 1) div 32" "t < 8" "j \<in> set trans_passes" "n + 64 < 2 ^ 31"
  shows "cint (int (b * 32 + t) + int j) = Some (int (b * 32 + t + j))"
proof -
  have "b * 32 + t < n + 32" using assms(2) by (intro tile_pos_bound [OF assms(1)]) simp
  moreover have "j \<le> 24" using assms(3) by (auto simp: trans_passes_set)
  ultimately have "b * 32 + t + j < n + 64" by simp
  then have "b * 32 + t + j < 2 ^ 31" using assms(4) by (rule order_less_trans)
  then show ?thesis using cint_nat [of "b * 32 + t + j"] by (simp only: of_nat_add)
qed

lemma load_writes:
  assumes "transposable inp rows cols" "block_in rows cols blk" "fst thr < 8" "snd thr < 32" "length tile = 32 * 33"
  shows "trans_load inp (int rows) (int cols) blk thr tile =
    Some (writes (load_val inp cols blk) (\<Union>j\<in>set trans_passes. load_cell rows cols blk thr j) tile)"
proof -
  have x: "tile_pos kTransTile (snd blk) (snd thr) = int (snd blk * 32 + snd thr)"
    using tile_pos_nat [of "snd blk" cols 32 "snd thr"] assms by (simp add: kTransTile_def)
  have y: "tile_pos kTransTile (fst blk) (fst thr) = int (fst blk * 32 + fst thr)"
    using tile_pos_nat [of "fst blk" rows 32 "fst thr"] assms by (simp add: kTransTile_def)
  show ?thesis
    unfolding trans_load_def x y Let_def
  proof (rule loop_writes [where n = "32 * 33"])
    fix j and a :: "'a list" assume j: "j \<in> set trans_passes" and a: "length a = 32 * 33"
    let ?row = "fst blk * 32 + fst thr + j" and ?col = "snd blk * 32 + snd thr"
    have yj: "cint (int (fst blk * 32 + fst thr) + int j) = Some (int ?row)"
      using assms j by (intro pass_bound) auto
    show "(do {
        yj \<leftarrow> cint (int (fst blk * 32 + fst thr) + int j);
        if int ?col < int cols \<and> yj < int rows
        then do { i \<leftarrow> cell yj (int cols) (int ?col); v \<leftarrow> ld inp i; st a (trans_at (fst thr + j) (snd thr)) v }
        else Some a }) = Some (writes (load_val inp cols blk) (load_cell rows cols blk thr j) a)"
    proof (cases "?col < cols \<and> ?row < rows")
      case True
      then have "?row * cols + ?col < rows * cols" by (intro cell_bound) auto
      then have "?row * cols + ?col < length inp" using assms(1) by simp
      moreover have "(fst thr + j) * 33 + snd thr < length a"
        "((fst thr + j) * 33 + snd thr) div 33 = fst thr + j" "((fst thr + j) * 33 + snd thr) mod 33 = snd thr"
        using a j assms(3,4) cell_div_mod [of "snd thr" 33 "fst thr + j"] by (auto simp: trans_passes_set)
      moreover have "cell (int ?row) (int cols) (int ?col) = Some (int (?row * cols + ?col))"
        using True assms(1) by (intro cell_nat) auto
      ultimately show ?thesis
        unfolding yj using True write_one [of a "(fst thr + j) * 33 + snd thr" "load_val inp cols blk"]
        by (simp add: trans_at_def kTransTile_def load_cell_def load_val_def add.assoc del: of_nat_add of_nat_mult)
    qed (use yj in \<open>auto simp: load_cell_def\<close>)
  qed (rule assms(5))
qed

lemma pass_split: "x < 32 \<Longrightarrow> \<exists>t < 8. \<exists>j \<in> set trans_passes. x = t + j"
proof -
  assume "x < 32"
  then have "x div 8 * 8 \<in> set trans_passes" by (auto simp: trans_passes_set)
  moreover have "x = x mod 8 + x div 8 * 8" by simp
  ultimately show ?thesis by (metis mod_less_divisor zero_less_numeral)
qed

text \<open>After the barrier the tile holds the part of the matrix that belongs to the block.\<close>

definition tile_loaded :: "'f list \<Rightarrow> nat \<Rightarrow> nat \<Rightarrow> pos \<Rightarrow> 'f list \<Rightarrow> bool" where
  "tile_loaded inp rows cols blk tile \<longleftrightarrow> length tile = 32 * 33 \<and>
     (\<forall>y < 32. \<forall>x < 32. fst blk * 32 + y < rows \<longrightarrow> snd blk * 32 + x < cols \<longrightarrow>
        tile ! (y * 33 + x) = inp ! ((fst blk * 32 + y) * cols + (snd blk * 32 + x)))"

lemma load_phase:
  assumes "transposable inp rows cols" "block_in rows cols blk" "length tile = 32 * 33"
    and "set thrs = {..<8} \<times> {..<32}"
  shows "\<exists>tile'. loop (trans_load inp (int rows) (int cols) blk) thrs tile = Some tile' \<and> tile_loaded inp rows cols blk tile'"
proof -
  let ?W = "\<Union>thr\<in>set thrs. \<Union>j\<in>set trans_passes. load_cell rows cols blk thr j"
  have l: "loop (trans_load inp (int rows) (int cols) blk) thrs tile = Some (writes (load_val inp cols blk) ?W tile)"
    by (rule loop_writes [where n = "32 * 33"]) (use load_writes [OF assms(1,2)] assms(3,4) in auto)
  have "writes (load_val inp cols blk) ?W tile ! (y * 33 + x) = inp ! ((fst blk * 32 + y) * cols + (snd blk * 32 + x))"
    if yx: "y < 32" "x < 32" "fst blk * 32 + y < rows" "snd blk * 32 + x < cols" for y x
  proof -
    obtain t j where t: "t < 8" "j \<in> set trans_passes" "y = t + j" using pass_split [OF yx(1)] by blast
    then have "y * 33 + x \<in> load_cell rows cols blk (t, x) j" using yx by (simp add: load_cell_def add.assoc)
    then have "y * 33 + x \<in> ?W" using t assms(4) yx by (intro UN_I [of "(t, x)"] UN_I [of j]) auto
    moreover have "y * 33 + x < 32 * 33" using yx by (intro cell_bound) auto
    moreover have "(y * 33 + x) div 33 = y \<and> (y * 33 + x) mod 33 = x" using yx by (intro cell_div_mod) simp
    ultimately show ?thesis using assms(3) by (simp add: load_val_def)
  qed
  then show ?thesis using l assms(3) by (auto simp: tile_loaded_def)
qed

lemma store_writes:
  assumes "transposable inp rows cols" "block_in rows cols blk" "fst thr < 8" "snd thr < 32"
    and "tile_loaded inp rows cols blk tile" "length out = m" "rows * cols \<le> m"
  shows "trans_store tile (int rows) (int cols) blk thr out =
    Some (writes (out_val inp rows cols) (\<Union>j\<in>set trans_passes. store_cell rows cols blk thr j) out)"
proof -
  have x: "tile_pos kTransTile (fst blk) (snd thr) = int (fst blk * 32 + snd thr)"
    using tile_pos_nat [of "fst blk" rows 32 "snd thr"] assms by (simp add: kTransTile_def)
  have y: "tile_pos kTransTile (snd blk) (fst thr) = int (snd blk * 32 + fst thr)"
    using tile_pos_nat [of "snd blk" cols 32 "fst thr"] assms by (simp add: kTransTile_def)
  show ?thesis
    unfolding trans_store_def x y Let_def
  proof (rule loop_writes [where n = m])
    fix j and a :: "'a list" assume j: "j \<in> set trans_passes" and a: "length a = m"
    let ?row = "snd blk * 32 + fst thr + j" and ?col = "fst blk * 32 + snd thr"
    have yj: "cint (int (snd blk * 32 + fst thr) + int j) = Some (int ?row)"
      using assms j by (intro pass_bound) auto
    show "(do {
        yj \<leftarrow> cint (int (snd blk * 32 + fst thr) + int j);
        if int ?col < int rows \<and> yj < int cols
        then do { i \<leftarrow> cell yj (int rows) (int ?col); v \<leftarrow> ld tile (trans_at (snd thr) (fst thr + j)); st a i v }
        else Some a }) = Some (writes (out_val inp rows cols) (store_cell rows cols blk thr j) a)"
    proof (cases "?col < rows \<and> ?row < cols")
      case True
      have j32: "fst thr + j < 32" using j assms(3) by (auto simp: trans_passes_set)
      have "?row * rows + ?col < cols * rows" using True by (intro cell_bound) auto
      then have "?row * rows + ?col < length a" using assms(7) a by (simp add: mult.commute)
      moreover have "(?row * rows + ?col) div rows = ?row \<and> (?row * rows + ?col) mod rows = ?col"
        using True by (intro cell_div_mod) simp
      moreover have "snd thr * 33 + (fst thr + j) < 32 * 33" using assms(4) j32 by (intro cell_bound) auto
      then have "snd thr * 33 + (fst thr + j) < length tile" using assms(5) by (simp add: tile_loaded_def)
      moreover have "tile ! (snd thr * 33 + (fst thr + j)) = inp ! (?col * cols + ?row)"
        using assms(4,5) j32 True by (simp add: tile_loaded_def add.assoc)
      moreover have "cell (int ?row) (int rows) (int ?col) = Some (int (?row * rows + ?col))"
        using True assms(1) by (intro cell_nat) (auto simp: mult.commute)
      ultimately show ?thesis
        unfolding yj using True write_one [of a "?row * rows + ?col" "out_val inp rows cols"]
        by (simp add: trans_at_def kTransTile_def store_cell_def out_val_def add.assoc del: of_nat_add of_nat_mult)
    qed (use yj in \<open>auto simp: store_cell_def\<close>)
  qed (rule assms(6))
qed

lemma transpose_block_writes:
  assumes "runs_all sch" "transposable inp rows cols" "block_in rows cols blk" "length (shared blk) = 32 * 33"
    and "length out = m" "rows * cols \<le> m"
  shows "transpose_block sch shared inp (int rows) (int cols) blk out =
    Some (writes (out_val inp rows cols)
      (\<Union>thr\<in>{..<8} \<times> {..<32}. \<Union>j\<in>set trans_passes. store_cell rows cols blk thr j) out)"
proof -
  have thrs: "set (thread_order sch blk p (grid_of kTransRows kTransTile)) = {..<8} \<times> {..<32}" for p
    by (simp add: runs_all_simps [OF assms(1)] kTransRows_def kTransTile_def)
  obtain tile where "loop (trans_load inp (int rows) (int cols) blk)
      (thread_order sch blk 0 (grid_of kTransRows kTransTile)) (shared blk) = Some tile" "tile_loaded inp rows cols blk tile"
    using load_phase [OF assms(2-4) thrs] by blast
  moreover have "loop (trans_store tile (int rows) (int cols) blk)
      (thread_order sch blk 1 (grid_of kTransRows kTransTile)) out =
    Some (writes (out_val inp rows cols)
      (\<Union>thr\<in>set (thread_order sch blk 1 (grid_of kTransRows kTransTile)).
        \<Union>j\<in>set trans_passes. store_cell rows cols blk thr j) out)"
    by (rule loop_writes [where n = m])
      (use store_writes [OF assms(2,3) _ _ \<open>tile_loaded inp rows cols blk tile\<close> _ assms(6)] thrs assms(5) in auto)
  ultimately show ?thesis by (simp add: transpose_block_def thrs)
qed

text \<open>All threads of all blocks write every cell of the result.\<close>

lemma stores_cover:
  "(\<Union>blk\<in>{..<(rows + 32 - 1) div 32} \<times> {..<(cols + 32 - 1) div 32}. \<Union>thr\<in>{..<8} \<times> {..<32}.
     \<Union>j\<in>set trans_passes. store_cell rows cols blk thr j) = {..<rows * cols}" (is "?W = _")
proof (intro equalityI subsetI)
  fix k assume "k \<in> ?W"
  then obtain r c where "k = c * rows + r" "r < rows" "c < cols" by (auto simp: store_cell_def split: if_splits)
  then show "k \<in> {..<rows * cols}" using cell_bound [of c cols r rows] by (simp add: mult.commute)
next
  fix k assume "k \<in> {..<rows * cols}"
  then obtain c r where k: "c < cols" "r < rows" "k = c * rows + r" using cell_surj [of k cols rows] by (auto simp: mult.commute)
  have "c mod 32 < 32" by simp
  then obtain t j where t: "t < 8" "j \<in> set trans_passes" "c mod 32 = t + j" using pass_split [of "c mod 32"] by blast
  have c: "c = c div 32 * 32 + t + j" using t(3) div_mult_mod_eq [of c 32] by linarith
  have "k \<in> store_cell rows cols (r div 32, c div 32) (t, r mod 32) j"
    using k c by (simp add: store_cell_def)
  then show "k \<in> ?W"
    using t k tile_covers [of 32 r rows] tile_covers [of 32 c cols]
    by (intro UN_I [of "(r div 32, c div 32)"] UN_I [of "(t, r mod 32)"] UN_I [of j]) auto
qed

lemma transpose_kernel_eq:
  assumes "runs_all sch" "transposable inp rows cols" "\<And>blk. length (shared blk) = 32 * 33" "rows * cols \<le> length out"
  shows "transpose_kernel sch shared ((rows + 32 - 1) div 32, (cols + 32 - 1) div 32) inp out (int rows) (int cols) =
    Some (cpu_transpose inp out rows cols)"
proof -
  let ?blks = "block_order sch (grid_of ((rows + 32 - 1) div 32) ((cols + 32 - 1) div 32))"
  have blks: "set ?blks = {..<(rows + 32 - 1) div 32} \<times> {..<(cols + 32 - 1) div 32}"
    by (simp add: runs_all_simps [OF assms(1)])
  have "loop (transpose_block sch shared inp (int rows) (int cols)) ?blks out =
      Some (writes (out_val inp rows cols) (\<Union>blk\<in>set ?blks.
        \<Union>thr\<in>{..<8} \<times> {..<32}. \<Union>j\<in>set trans_passes. store_cell rows cols blk thr j) out)"
    by (rule loop_writes [where n = "length out"])
      (use transpose_block_writes [OF assms(1,2) _ assms(3) _ assms(4)] blks in auto)
  then show ?thesis
    unfolding blks stores_cover transpose_kernel_def transpose_writes fst_conv snd_conv
    by (simp add: out_val_def [abs_def])
qed

text \<open>The grids of the launchers: 65535 blocks in y direction are the limit.\<close>

lemma launchable_2d:
  "1 \<le> x \<Longrightarrow> x < 2 ^ 31 \<Longrightarrow> 1 \<le> y \<Longrightarrow> 1 \<le> u \<Longrightarrow> 1 \<le> v \<Longrightarrow> u * v \<le> 1024 \<Longrightarrow>
    launchable [x, y] [u, v] 0 \<longleftrightarrow> y \<le> 65535"
  by (auto simp: launchable_def)

lemma tile_count:
  fixes n edge :: nat
  assumes "0 < n" "0 < edge" "n + edge < 2 ^ 31"
  shows "1 \<le> int ((n + edge - 1) div edge)" "int ((n + edge - 1) div edge) < 2 ^ 31"
proof -
  have "edge \<le> n + edge - 1" using assms(1) by simp
  then have "1 \<le> (n + edge - 1) div edge" using assms(2) by (simp add: Suc_le_eq div_greater_zero_iff)
  moreover have "(n + edge - 1) div edge \<le> n + edge" by (meson diff_le_self div_le_dividend le_trans)
  then have "(n + edge - 1) div edge < 2 ^ 31" using assms(3) by (rule le_less_trans)
  ultimately show "1 \<le> int ((n + edge - 1) div edge)" "int ((n + edge - 1) div edge) < 2 ^ 31"
    by (metis of_nat_1 of_nat_le_iff, metis of_nat_less_iff of_nat_numeral of_nat_power)
qed

lemma tile_limit:
  fixes n edge :: nat
  assumes "0 < edge"
  shows "int ((n + edge - 1) div edge) \<le> 65535 \<longleftrightarrow> n \<le> 65535 * edge"
proof -
  have "(n + edge - 1) div edge \<le> 65535 \<longleftrightarrow> n + edge - 1 < 65536 * edge"
    using div_less_iff_less_mult [OF assms, of "n + edge - 1" 65536] by linarith
  also have "\<dots> \<longleftrightarrow> n \<le> 65535 * edge" using assms by linarith
  finally show ?thesis by simp
qed

text \<open>
  Property C37. \<open>launch_transpose\<close> writes the transposed matrix, exactly as \<open>cpu_transpose\<close>, for every schedule and
  every shape of up to 2097120 rows whose index arithmetic fits \<open>int\<close>, through the tile that shared memory holds. A
  matrix with more rows needs more than 65535 blocks in y direction, which CUDA does not launch: the launcher reports
  \<open>cudaErrorInvalidConfiguration\<close> and the output is left alone, although the arguments were accepted.
\<close>

theorem transpose_matches_reference:
  assumes "runs_all sch" "driver_strict env" "\<forall>blk. length (shared blk) = 32 * 33"
    and "rows + 64 < 2 ^ 31" "cols + 64 < 2 ^ 31" "rows * cols < 2 ^ 31"
    and "length inp = rows * cols" "length out = rows * cols"
  shows "launch_transpose env sch shared (Some inp) (Some out) (int rows) (int cols) =
    Some (if rows \<le> 2097120 \<or> cols = 0 then (cudaSuccess, Some (cpu_transpose inp out rows cols))
      else (cudaErrorInvalidConfiguration, Some out))"
proof (cases "rows = 0 \<or> cols = 0")
  case True
  then show ?thesis by (auto simp: launch_transpose_def transpose_writes)
next
  case False
  let ?x = "int ((cols + 32 - 1) div 32)" and ?y = "int ((rows + 32 - 1) div 32)"
  have t: "tiles_for (int cols) kTransTile = Some ?x" "tiles_for (int rows) kTransTile = Some ?y"
    unfolding kTransTile_def using assms(4,5) by (intro tiles_for_eq; simp)+
  have l: "launchable [?x, ?y] [int kTransTile, int kTransRows] 0 \<longleftrightarrow> rows \<le> 2097120"
    using launchable_2d [of ?x ?y "int kTransTile" "int kTransRows"] tile_count [of cols 32] tile_count [of rows 32]
      tile_limit [of 32 rows] False assms(4,5)
    by (simp add: kTransTile_def kTransRows_def del: of_nat_div)
  have "transpose_kernel sch shared ((rows + 32 - 1) div 32, (cols + 32 - 1) div 32) inp out (int rows) (int cols) =
      Some (cpu_transpose inp out rows cols)"
    by (rule transpose_kernel_eq) (use assms in auto)
  then have "launch_transpose env sch shared (Some inp) (Some out) (int rows) (int cols) =
      launch env [?x, ?y] [int kTransTile, int kTransRows] 0 (Some out) (Some (Some (cpu_transpose inp out rows cols)))"
    using False by (simp add: launch_transpose_def t del: of_nat_div)
  moreover note launch_ok [OF conjunct1 [OF assms(2)] l [THEN iffD2], of "Some out" "Some (Some (cpu_transpose inp out rows cols))"]
    launch_refused [OF assms(2) l [THEN arg_cong [of _ _ Not], THEN iffD2], of "Some out" "Some (Some (cpu_transpose inp out rows cols))"]
  ultimately show ?thesis using False by simp
qed

theorem transpose_matches_reference_witness:
  "launch_transpose ok_env backwards (\<lambda>_. replicate 1056 9) (Some [1, 2, 3, 4, 5, 6]) (Some (replicate 6 (0 :: int))) 2 3 =
     Some (cudaSuccess, Some [1, 4, 2, 5, 3, 6]) \<and>
   launch_transpose ok_env backwards (\<lambda>_. replicate 1056 9) (Some (replicate 2097121 1)) (Some (replicate 2097121 (0 :: int))) 2097121 1 =
     Some (cudaErrorInvalidConfiguration, Some (replicate 2097121 0))"
proof -
  have "cpu_transpose [1, 2, 3, 4, 5, 6] (replicate 6 (0 :: int)) 2 3 = [1, 4, 2, 5, 3, 6]" by code_simp
  then show ?thesis
    using transpose_matches_reference [of backwards ok_env "\<lambda>_. replicate 1056 9" 2 3 "[1, 2, 3, 4, 5, 6]" "replicate 6 (0 :: int)"]
      transpose_matches_reference [of backwards ok_env "\<lambda>_. replicate 1056 9" 2097121 1 "replicate 2097121 1" "replicate 2097121 (0 :: int)"]
    by simp
qed

end
