(* ===== verification/Cuda_Gemm.thy ===== *)
theory Cuda_Gemm
  imports Cuda_Tiles
begin

section \<open>Matrix products\<close>

text \<open>
  Both kernels add up the products of a row and a column in the order of \<open>k\<close>. The tiled one goes on with zeros up to
  a multiple of the tile edge. In IEEE arithmetic that leaves a sum alone, except that it makes a negative zero positive, and a
  fused multiply-add of a product that underflows does give a negative zero. So the arithmetic comes with a relation
  \<open>same\<close> of numbers that count as the same, as \<open>==\<close> counts both zeros (and any two NaNs), and \<open>padding_same\<close> is what is required of it.
\<close>

definition prod_upto :: "('f \<Rightarrow> 'f \<Rightarrow> 'f \<Rightarrow> 'f) \<Rightarrow> 'f \<Rightarrow> 'f list \<Rightarrow> 'f list \<Rightarrow> nat \<Rightarrow> nat \<Rightarrow> nat \<Rightarrow> nat \<Rightarrow> nat \<Rightarrow> 'f" where
  "prod_upto mac zero A B N K i j m = fold (\<lambda>k acc. mac acc (A ! (i * K + k)) (B ! (k * N + j))) [0..<m] zero"

definition gemm_result :: "('f \<Rightarrow> 'f \<Rightarrow> 'f \<Rightarrow> 'f) \<Rightarrow> 'f \<Rightarrow> 'f list \<Rightarrow> 'f list \<Rightarrow> nat \<Rightarrow> nat \<Rightarrow> nat \<Rightarrow> 'f list" where
  "gemm_result mac zero A B M N K = map (\<lambda>z. prod_upto mac zero A B N K (z div N) (z mod N) K) [0..<M * N]"

text \<open>Sizes whose index arithmetic stays in \<open>int\<close>.\<close>

abbreviation multipliable :: "'f list \<Rightarrow> 'f list \<Rightarrow> nat \<Rightarrow> nat \<Rightarrow> nat \<Rightarrow> bool" where
  "multipliable A B M N K \<equiv>
     M + 16 < 2 ^ 31 \<and> N + 16 < 2 ^ 31 \<and> K + 16 < 2 ^ 31 \<and> M * K < 2 ^ 31 \<and> K * N < 2 ^ 31 \<and> M * N < 2 ^ 31 \<and>
     length A = M * K \<and> length B = K * N"

abbreviation gemm_block_in :: "nat \<Rightarrow> nat \<Rightarrow> pos \<Rightarrow> bool" where
  "gemm_block_in M N blk \<equiv> fst blk < (M + 16 - 1) div 16 \<and> snd blk < (N + 16 - 1) div 16"

definition gemm_cells :: "nat \<Rightarrow> nat \<Rightarrow> pos \<Rightarrow> pos \<Rightarrow> nat set" where
  "gemm_cells M N blk thr =
     (if fst blk * 16 + fst thr < M \<and> snd blk * 16 + snd thr < N
      then {(fst blk * 16 + fst thr) * N + (snd blk * 16 + snd thr)} else {})"

lemma gemm_cells_cover:
  "(\<Union>blk\<in>{..<(M + 16 - 1) div 16} \<times> {..<(N + 16 - 1) div 16}. \<Union>thr\<in>{..<16} \<times> {..<16}. gemm_cells M N blk thr) =
    {..<M * N}" (is "?W = _")
proof (intro equalityI subsetI)
  fix z assume "z \<in> ?W"
  then obtain r c where "z = r * N + c" "r < M" "c < N" by (auto simp: gemm_cells_def split: if_splits)
  then show "z \<in> {..<M * N}" using cell_bound [of r M c N] by simp
next
  fix z assume "z \<in> {..<M * N}"
  then obtain r c where z: "r < M" "c < N" "z = r * N + c" using cell_surj [of z M N] by auto
  then have "z \<in> gemm_cells M N (r div 16, c div 16) (r mod 16, c mod 16)" by (simp add: gemm_cells_def)
  then show "z \<in> ?W"
    using z tile_covers [of 16 r M] tile_covers [of 16 c N]
    by (intro UN_I [of "(r div 16, c div 16)"] UN_I [of "(r mod 16, c mod 16)"]) auto
qed

abbreviation gemm_at :: "('f \<Rightarrow> 'f \<Rightarrow> 'f \<Rightarrow> 'f) \<Rightarrow> 'f \<Rightarrow> 'f list \<Rightarrow> 'f list \<Rightarrow> nat \<Rightarrow> nat \<Rightarrow> nat \<Rightarrow> 'f" where
  "gemm_at mac zero A B N K z \<equiv> prod_upto mac zero A B N K (z div N) (z mod N) K"

lemma gemm_pos:
  assumes "multipliable A B M N K" "gemm_block_in M N blk" "fst thr < 16" "snd thr < 16"
  shows "tile_pos kTile (fst blk) (fst thr) = int (fst blk * 16 + fst thr)"
    "tile_pos kTile (snd blk) (snd thr) = int (snd blk * 16 + snd thr)"
  using tile_pos_nat [of "fst blk" M 16 "fst thr"] tile_pos_nat [of "snd blk" N 16 "snd thr"] assms
  by (simp_all add: kTile_def)

lemma naive_writes:
  assumes "multipliable A B M N K" "gemm_block_in M N blk" "fst thr < 16" "snd thr < 16" "length C = m" "M * N \<le> m"
  shows "gemm_naive_thread mac zero A B (int M) (int N) (int K) blk thr C =
    Some (writes (gemm_at mac zero A B N K) (gemm_cells M N blk thr) C)"
proof (cases "fst blk * 16 + fst thr < M \<and> snd blk * 16 + snd thr < N")
  case False
  then show ?thesis
    unfolding gemm_naive_thread_def gemm_pos [OF assms(1-4)] Let_def by (auto simp: gemm_cells_def)
next
  case True
  let ?i = "fst blk * 16 + fst thr" and ?j = "snd blk * 16 + snd thr"
  have "loop (\<lambda>k acc. do {
           i \<leftarrow> cell (int ?i) (int K) (int k); x \<leftarrow> ld A i;
           j \<leftarrow> cell (int k) (int N) (int ?j); y \<leftarrow> ld B j;
           Some (mac acc x y) }) [0..<K] zero = Some (prod_upto mac zero A B N K ?i ?j K)"
    unfolding prod_upto_def
  proof (rule loop_fold [where P = "\<lambda>_. True", THEN conjunct1])
    fix k acc assume "k \<in> set [0..<K]"
    then have k: "k < K" by simp
    have "cell (int ?i) (int K) (int k) = Some (int (?i * K + k))" "cell (int k) (int N) (int ?j) = Some (int (k * N + ?j))"
      using k True assms(1) by (intro cell_nat; auto)+
    moreover have "?i * K + k < length A" "k * N + ?j < length B"
      using k True assms(1) cell_bound [of ?i M k K] cell_bound [of k K ?j N] by auto
    ultimately show "(do {
           i \<leftarrow> cell (int ?i) (int K) (int k); x \<leftarrow> ld A i;
           j \<leftarrow> cell (int k) (int N) (int ?j); y \<leftarrow> ld B j;
           Some (mac acc x y) }) = Some (mac acc (A ! (?i * K + k)) (B ! (k * N + ?j))) \<and> True"
      by (simp del: of_nat_add of_nat_mult)
  qed simp
  moreover have "cell (int ?i) (int N) (int ?j) = Some (int (?i * N + ?j))" using True assms(1) by (intro cell_nat) auto
  moreover have "?i * N + ?j < length C" using True assms(5,6) cell_bound [of ?i M ?j N] by auto
  moreover have "(?i * N + ?j) div N = ?i \<and> (?i * N + ?j) mod N = ?j" using True by (intro cell_div_mod) simp
  ultimately show ?thesis
    unfolding gemm_naive_thread_def gemm_pos [OF assms(1-4)] Let_def
    using True write_one [of C "?i * N + ?j" "gemm_at mac zero A B N K"]
    by (simp add: gemm_cells_def del: of_nat_add of_nat_mult)
qed

lemma kernel_result:
  assumes "runs_all sch" "length C = M * N"
    and "\<And>blk C'. gemm_block_in M N blk \<Longrightarrow> length C' = M * N \<Longrightarrow>
      f blk C' = Some (writes v (\<Union>thr\<in>{..<16} \<times> {..<16}. gemm_cells M N blk thr) C')"
  shows "loop f (block_order sch (grid_of ((M + 16 - 1) div 16) ((N + 16 - 1) div 16))) C = Some (map v [0..<M * N])"
proof -
  let ?blks = "block_order sch (grid_of ((M + 16 - 1) div 16) ((N + 16 - 1) div 16))"
  have blks: "set ?blks = {..<(M + 16 - 1) div 16} \<times> {..<(N + 16 - 1) div 16}"
    by (simp add: runs_all_simps [OF assms(1)])
  have "loop f ?blks C = Some (writes v (\<Union>blk\<in>set ?blks. \<Union>thr\<in>{..<16} \<times> {..<16}. gemm_cells M N blk thr) C)"
    by (rule loop_writes [where n = "M * N"]) (use assms(2,3) blks in auto)
  then show ?thesis
    unfolding blks gemm_cells_cover using assms(2) by (simp add: writes_all)
qed

lemma gemm_naive_kernel_eq:
  assumes "runs_all sch" "multipliable A B M N K" "length C = M * N"
  shows "gemm_naive_kernel mac zero sch ((M + 16 - 1) div 16, (N + 16 - 1) div 16) A B C (int M) (int N) (int K) =
    Some (gemm_result mac zero A B M N K)"
  unfolding gemm_naive_kernel_def fst_conv snd_conv gemm_result_def
proof (rule kernel_result [OF assms(1,3)])
  fix blk and C' :: "'a list" assume b: "gemm_block_in M N blk" "length C' = M * N"
  let ?thrs = "thread_order sch blk 0 (grid_of kTile kTile)"
  have thrs: "set ?thrs = {..<16} \<times> {..<16}" by (simp add: runs_all_simps [OF assms(1)] kTile_def)
  have "loop (gemm_naive_thread mac zero A B (int M) (int N) (int K) blk) ?thrs C' =
      Some (writes (gemm_at mac zero A B N K) (\<Union>thr\<in>set ?thrs. gemm_cells M N blk thr) C')"
    by (rule loop_writes [where n = "M * N"]) (use naive_writes [OF assms(2) b(1)] b(2) thrs in auto)
  then show "loop (gemm_naive_thread mac zero A B (int M) (int N) (int K) blk) ?thrs C' =
      Some (writes (gemm_at mac zero A B N K) (\<Union>thr\<in>{..<16} \<times> {..<16}. gemm_cells M N blk thr) C')"
    unfolding thrs .
qed

subsection \<open>The tiled kernel\<close>

text \<open>The matrices with zeros around them.\<close>

definition A_pad :: "'f \<Rightarrow> 'f list \<Rightarrow> nat \<Rightarrow> nat \<Rightarrow> nat \<Rightarrow> nat \<Rightarrow> 'f" where
  "A_pad zero A M K i k = (if i < M \<and> k < K then A ! (i * K + k) else zero)"

definition B_pad :: "'f \<Rightarrow> 'f list \<Rightarrow> nat \<Rightarrow> nat \<Rightarrow> nat \<Rightarrow> nat \<Rightarrow> 'f" where
  "B_pad zero B N K k j = (if k < K \<and> j < N then B ! (k * N + j) else zero)"

definition padded_upto :: "('f \<Rightarrow> 'f \<Rightarrow> 'f \<Rightarrow> 'f) \<Rightarrow> 'f \<Rightarrow> 'f list \<Rightarrow> 'f list \<Rightarrow> nat \<Rightarrow> nat \<Rightarrow> nat \<Rightarrow> nat \<Rightarrow> nat \<Rightarrow> nat \<Rightarrow> 'f" where
  "padded_upto mac zero A B M N K i j m =
     fold (\<lambda>k acc. mac acc (A_pad zero A M K i k) (B_pad zero B N K k j)) [0..<m] zero"

text \<open>Both tiles after the loads of round \<open>t\<close>.\<close>

definition tiles_loaded ::
  "'f \<Rightarrow> 'f list \<Rightarrow> 'f list \<Rightarrow> nat \<Rightarrow> nat \<Rightarrow> nat \<Rightarrow> pos \<Rightarrow> nat \<Rightarrow> 'f list \<times> 'f list \<Rightarrow> bool" where
  "tiles_loaded zero A B M N K blk t tiles \<longleftrightarrow> length (fst tiles) = 256 \<and> length (snd tiles) = 256 \<and>
     (\<forall>y < 16. \<forall>x < 16. fst tiles ! (y * 16 + x) = A_pad zero A M K (fst blk * 16 + y) (t * 16 + x) \<and>
        snd tiles ! (y * 16 + x) = B_pad zero B N K (t * 16 + y) (snd blk * 16 + x))"

lemma gemm_load_writes:
  assumes "multipliable A B M N K" "gemm_block_in M N blk" "t < (K + 16 - 1) div 16" "fst thr < 16" "snd thr < 16"
    and "length As = 256" "length Bs = 256"
    and va_def: "va = (\<lambda>z. A_pad zero A M K (fst blk * 16 + z div 16) (t * 16 + z mod 16))"
    and vb_def: "vb = (\<lambda>z. B_pad zero B N K (t * 16 + z div 16) (snd blk * 16 + z mod 16))"
  shows "gemm_load zero A B (int M) (int N) (int K) blk t thr (As, Bs) =
    Some (writes va {fst thr * 16 + snd thr} As, writes vb {fst thr * 16 + snd thr} Bs)"
proof -
  let ?row = "fst blk * 16 + fst thr" and ?col = "snd blk * 16 + snd thr" and ?ak = "t * 16 + snd thr" and ?bk = "t * 16 + fst thr"
  let ?z = "fst thr * 16 + snd thr"
  have k: "tile_pos kTile t (snd thr) = int ?ak" "tile_pos kTile t (fst thr) = int ?bk"
    using tile_pos_nat [OF assms(3) assms(5)] tile_pos_nat [OF assms(3) assms(4)] assms(1) by (simp_all add: kTile_def)
  have z: "?z < 256" "?z div 16 = fst thr" "?z mod 16 = snd thr"
    using cell_bound [OF assms(4,5)] cell_div_mod [OF assms(5), of "fst thr"] by simp_all
  have A: "(if int ?row < int M \<and> int ?ak < int K then do { i \<leftarrow> cell (int ?row) (int K) (int ?ak); ld A i } else Some zero) =
      Some (va ?z)"
  proof (cases "?row < M \<and> ?ak < K")
    case True
    then have c: "cell (int ?row) (int K) (int ?ak) = Some (int (?row * K + ?ak))"
      using assms(1) by (intro cell_nat) auto
    have "?row * K + ?ak < length A" using True assms(1) cell_bound [of ?row M ?ak K] by simp
    then show ?thesis using c True z by (simp add: va_def A_pad_def del: of_nat_add of_nat_mult)
  qed (use assms(4,5) in \<open>auto simp: va_def A_pad_def z\<close>)
  have B: "(if int ?bk < int K \<and> int ?col < int N then do { i \<leftarrow> cell (int ?bk) (int N) (int ?col); ld B i } else Some zero) =
      Some (vb ?z)"
  proof (cases "?bk < K \<and> ?col < N")
    case True
    then have c: "cell (int ?bk) (int N) (int ?col) = Some (int (?bk * N + ?col))"
      using assms(1) by (intro cell_nat) auto
    have "?bk * N + ?col < length B" using True assms(1) cell_bound [of ?bk K ?col N] by simp
    then show ?thesis using c True z by (simp add: vb_def B_pad_def del: of_nat_add of_nat_mult)
  qed (use assms(4,5) in \<open>auto simp: vb_def B_pad_def z\<close>)
  have st: "st As (int ?z) (va ?z) = Some (writes va {?z} As)" "st Bs (int ?z) (vb ?z) = Some (writes vb {?z} Bs)"
    using z(1) assms(6,7) write_one [of As ?z va] write_one [of Bs ?z vb] by (simp_all del: of_nat_add of_nat_mult)
  show ?thesis
    unfolding gemm_load_def gemm_pos [OF assms(1,2,4,5)] k Let_def fst_conv snd_conv
    unfolding A B tile_at_def kTile_def Option.bind.bind_lunit st ..
qed

lemma gemm_loads:
  assumes "multipliable A B M N K" "gemm_block_in M N blk" "t < (K + 16 - 1) div 16" "set thrs = {..<16} \<times> {..<16}"
    and "length (fst tiles) = 256" "length (snd tiles) = 256"
  shows "\<exists>tiles'. loop (gemm_load zero A B (int M) (int N) (int K) blk t) thrs tiles = Some tiles' \<and>
    tiles_loaded zero A B M N K blk t tiles'"
proof -
  let ?va = "\<lambda>z. A_pad zero A M K (fst blk * 16 + z div 16) (t * 16 + z mod 16)"
  let ?vb = "\<lambda>z. B_pad zero B N K (t * 16 + z div 16) (snd blk * 16 + z mod 16)"
  let ?W = "\<Union>thr\<in>set thrs. {fst thr * 16 + snd thr}"
  have l: "loop (gemm_load zero A B (int M) (int N) (int K) blk t) thrs (fst tiles, snd tiles) =
      Some (writes ?va ?W (fst tiles), writes ?vb ?W (snd tiles))"
    by (rule loop_writes_pair [where n = 256]) (use gemm_load_writes [OF assms(1-3) _ _ _ _ refl refl] assms(4-6) in auto)
  have "y * 16 + x \<in> ?W \<and> y * 16 + x < 256 \<and> (y * 16 + x) div 16 = y \<and> (y * 16 + x) mod 16 = x"
    if yx: "y < 16" "x < 16" for y x
    using yx assms(4) cell_div_mod [OF yx(2), of y] by (auto intro!: bexI [of _ "(y, x)"])
  then show ?thesis using l assms(5,6) by (auto simp: tiles_loaded_def)
qed

lemma gemm_multiply_eq:
  assumes "tiles_loaded zero A B M N K blk t tiles" "fst thr < 16" "snd thr < 16" "length accs = 256"
  shows "gemm_multiply mac tiles thr accs = Some (accs[fst thr * 16 + snd thr :=
    fold (\<lambda>k acc. mac acc (A_pad zero A M K (fst blk * 16 + fst thr) (t * 16 + k))
        (B_pad zero B N K (t * 16 + k) (snd blk * 16 + snd thr))) [0..<16] (accs ! (fst thr * 16 + snd thr))])"
proof -
  have "loop (\<lambda>k acc. do {
      x \<leftarrow> ld (fst tiles) (int (fst thr * 16 + k)); y \<leftarrow> ld (snd tiles) (int (k * 16 + snd thr));
      Some (mac acc x y) }) [0..<16] a =
    Some (fold (\<lambda>k acc. mac acc (A_pad zero A M K (fst blk * 16 + fst thr) (t * 16 + k))
        (B_pad zero B N K (t * 16 + k) (snd blk * 16 + snd thr))) [0..<16] a)" for a
  proof (rule loop_fold [where P = "\<lambda>_. True", THEN conjunct1])
    fix k acc assume "k \<in> set [0..<16]"
    then have k: "k < 16" by simp
    have "fst thr * 16 + k < length (fst tiles)" "k * 16 + snd thr < length (snd tiles)"
      using k assms(1-3) by (auto simp: tiles_loaded_def)
    then show "(do { x \<leftarrow> ld (fst tiles) (int (fst thr * 16 + k)); y \<leftarrow> ld (snd tiles) (int (k * 16 + snd thr));
          Some (mac acc x y) }) =
        Some (mac acc (A_pad zero A M K (fst blk * 16 + fst thr) (t * 16 + k))
          (B_pad zero B N K (t * 16 + k) (snd blk * 16 + snd thr))) \<and> True"
      using k assms(1-3) by (simp add: tiles_loaded_def del: of_nat_add of_nat_mult)
  qed simp
  moreover have "fst thr * 16 + snd thr < length accs" using assms(2-4) by simp
  ultimately show ?thesis
    by (simp add: gemm_multiply_def tile_at_def kTile_def del: of_nat_add of_nat_mult upt_rec_numeral)
qed

definition accs_after ::
  "('f \<Rightarrow> 'f \<Rightarrow> 'f \<Rightarrow> 'f) \<Rightarrow> 'f \<Rightarrow> 'f list \<Rightarrow> 'f list \<Rightarrow> nat \<Rightarrow> nat \<Rightarrow> nat \<Rightarrow> pos \<Rightarrow> nat \<Rightarrow> 'f list \<Rightarrow> bool" where
  "accs_after mac zero A B M N K blk t accs \<longleftrightarrow> length accs = 256 \<and>
     (\<forall>y < 16. \<forall>x < 16. accs ! (y * 16 + x) =
        padded_upto mac zero A B M N K (fst blk * 16 + y) (snd blk * 16 + x) (t * 16))"

lemma padded_next_tile:
  "padded_upto mac zero A B M N K i j (Suc t * 16) =
    fold (\<lambda>k acc. mac acc (A_pad zero A M K i (t * 16 + k)) (B_pad zero B N K (t * 16 + k) j)) [0..<16]
      (padded_upto mac zero A B M N K i j (t * 16))"
proof -
  have "[0..<Suc t * 16] = [0..<t * 16] @ map (\<lambda>k. t * 16 + k) [0..<16]"
    by (rule nth_equalityI) (auto simp: nth_append simp del: upt_rec_numeral)
  then show ?thesis by (simp add: padded_upto_def fold_map comp_def del: upt_rec_numeral)
qed

lemma gemm_multiplies:
  assumes "tiles_loaded zero A B M N K blk t tiles" "accs_after mac zero A B M N K blk t accs"
    and "set thrs = {..<16} \<times> {..<16}" "distinct thrs"
  shows "\<exists>accs'. loop (gemm_multiply mac tiles) thrs accs = Some accs' \<and> accs_after mac zero A B M N K blk (Suc t) accs'"
proof -
  let ?at = "\<lambda>thr :: pos. fst thr * 16 + snd thr"
  let ?g = "\<lambda>thr. fold (\<lambda>k acc. mac acc (A_pad zero A M K (fst blk * 16 + fst thr) (t * 16 + k))
        (B_pad zero B N K (t * 16 + k) (snd blk * 16 + snd thr))) [0..<16]"
  have len: "length accs = 256" using assms(2) by (simp add: accs_after_def)
  have inj: "inj_on ?at (set thrs)" unfolding assms(3) by (rule inj_onI) (auto simp: cell_inject)
  obtain accs' where a: "loop (gemm_multiply mac tiles) thrs accs = Some accs'" "length accs' = 256"
      "\<forall>thr\<in>set thrs. accs' ! ?at thr = ?g thr (accs ! ?at thr)"
    using loop_updates [where f = "gemm_multiply mac tiles" and g = ?g and n = 256, OF _ assms(4) inj len]
      gemm_multiply_eq [OF assms(1)] assms(3) by (auto simp del: upt_rec_numeral)
  have "accs' ! (y * 16 + x) = padded_upto mac zero A B M N K (fst blk * 16 + y) (snd blk * 16 + x) (Suc t * 16)"
    if "y < 16" "x < 16" for y x
  proof -
    have "(y, x) \<in> set thrs" using assms(3) that by simp
    from bspec [OF a(3) this] have "accs' ! (y * 16 + x) = ?g (y, x) (accs ! (y * 16 + x))" by (simp only: fst_conv snd_conv)
    then show ?thesis unfolding padded_next_tile using assms(2) that by (simp add: accs_after_def del: upt_rec_numeral)
  qed
  then show ?thesis using a(1,2) by (auto simp: accs_after_def)
qed

lemma gemm_rounds:
  assumes "runs_all sch" "multipliable A B M N K" "gemm_block_in M N blk" "length (fst tiles) = 256" "length (snd tiles) = 256"
    and "T \<le> (K + 16 - 1) div 16"
  shows "\<exists>tiles' accs. loop (gemm_round mac zero sch A B (int M) (int N) (int K) blk) [0..<T] (tiles, replicate 256 zero) =
      Some (tiles', accs) \<and> length (fst tiles') = 256 \<and> length (snd tiles') = 256 \<and> accs_after mac zero A B M N K blk T accs"
  using assms(6)
proof (induction T)
  case 0
  have "y * 16 + x < 256" if "y < 16" "x < 16" for y x :: nat using that by simp
  then show ?case using assms(4,5) by (auto simp: accs_after_def padded_upto_def)
next
  case (Suc T)
  note runs = runs_all_simps [OF assms(1)]
  obtain tiles1 accs1 where ih: "loop (gemm_round mac zero sch A B (int M) (int N) (int K) blk) [0..<T]
        (tiles, replicate 256 zero) = Some (tiles1, accs1)"
      "length (fst tiles1) = 256" "length (snd tiles1) = 256" "accs_after mac zero A B M N K blk T accs1"
    using Suc by auto
  have thrs: "set (thread_order sch blk p (grid_of kTile kTile)) = {..<16} \<times> {..<16}" for p
    by (simp add: runs kTile_def)
  have dist: "distinct (thread_order sch blk p (grid_of kTile kTile))" for p
    by (simp add: mset_eq_imp_distinct_iff [OF runs(2)] grid_of_def distinct_product)
  have T: "T < (K + 16 - 1) div 16" using Suc.prems by simp
  obtain tiles2 where t2: "loop (gemm_load zero A B (int M) (int N) (int K) blk T)
        (thread_order sch blk (2 * T) (grid_of kTile kTile)) tiles1 = Some tiles2" "tiles_loaded zero A B M N K blk T tiles2"
    using gemm_loads [OF assms(2,3) T thrs ih(2,3)] by blast
  obtain accs2 where a2: "loop (gemm_multiply mac tiles2) (thread_order sch blk (2 * T + 1) (grid_of kTile kTile)) accs1 =
        Some accs2" "accs_after mac zero A B M N K blk (Suc T) accs2"
    using gemm_multiplies [OF t2(2) ih(4) thrs dist] by blast
  have "gemm_round mac zero sch A B (int M) (int N) (int K) blk T (tiles1, accs1) = Some (tiles2, accs2)"
    using t2(1) a2(1) by (simp add: gemm_round_def)
  then show ?case using ih(1) t2(2) a2(2) by (simp add: loop_append tiles_loaded_def)
qed

text \<open>What the tiled kernel computes, and when that is the same: a product of zeros added to a sum changes nothing that counts.\<close>

definition padded_at :: "('f \<Rightarrow> 'f \<Rightarrow> 'f \<Rightarrow> 'f) \<Rightarrow> 'f \<Rightarrow> 'f list \<Rightarrow> 'f list \<Rightarrow> nat \<Rightarrow> nat \<Rightarrow> nat \<Rightarrow> nat \<Rightarrow> 'f" where
  "padded_at mac zero A B M N K z = padded_upto mac zero A B M N K (z div N) (z mod N) ((K + 16 - 1) div 16 * 16)"

definition padding_same :: "('f \<Rightarrow> 'f \<Rightarrow> 'f \<Rightarrow> 'f) \<Rightarrow> 'f \<Rightarrow> ('f \<Rightarrow> 'f \<Rightarrow> bool) \<Rightarrow> bool" where
  "padding_same mac zero same \<longleftrightarrow> (\<forall>x. same x x) \<and> (\<forall>x y z. same x y \<longrightarrow> same y z \<longrightarrow> same x z) \<and>
     (\<forall>acc. same (mac acc zero zero) acc)"

lemma padded_upto_K:
  assumes "i < M" "j < N" "k \<le> K"
  shows "padded_upto mac zero A B M N K i j k = prod_upto mac zero A B N K i j k"
  using assms by (induction k) (auto simp: padded_upto_def prod_upto_def A_pad_def B_pad_def)

lemma padded_same:
  assumes "padding_same mac zero same" "i < M" "j < N" "K \<le> m"
  shows "same (padded_upto mac zero A B M N K i j m) (prod_upto mac zero A B N K i j K)"
proof -
  have "same (padded_upto mac zero A B M N K i j (K + d)) (prod_upto mac zero A B N K i j K)" for d
  proof (induction d)
    case 0
    show ?case using assms(1) by (simp add: padding_same_def padded_upto_K [OF assms(2,3)])
  next
    case (Suc d)
    have "padded_upto mac zero A B M N K i j (K + Suc d) = mac (padded_upto mac zero A B M N K i j (K + d)) zero zero"
      by (simp add: padded_upto_def A_pad_def B_pad_def)
    then show ?case using assms(1) Suc unfolding padding_same_def by metis
  qed
  from this [of "m - K"] show ?thesis using assms(4) by simp
qed

lemma rounds_cover: "K \<le> (K + 16 - 1) div 16 * (16 :: nat)"
  by presburger

lemma gemm_store_writes:
  assumes "multipliable A B M N K" "gemm_block_in M N blk" "fst thr < 16" "snd thr < 16" "length C = m" "M * N \<le> m"
    and "accs_after mac zero A B M N K blk ((K + 16 - 1) div 16) accs"
  shows "gemm_store accs (int M) (int N) blk thr C = Some (writes (padded_at mac zero A B M N K) (gemm_cells M N blk thr) C)"
proof (cases "fst blk * 16 + fst thr < M \<and> snd blk * 16 + snd thr < N")
  case False
  then show ?thesis
    unfolding gemm_store_def gemm_pos [OF assms(1-4)] Let_def by (auto simp: gemm_cells_def)
next
  case True
  let ?i = "fst blk * 16 + fst thr" and ?j = "snd blk * 16 + snd thr"
  have "fst thr * 16 + snd thr < length accs" using assms(3,4,7) by (simp add: accs_after_def)
  moreover have "accs ! (fst thr * 16 + snd thr) = padded_upto mac zero A B M N K ?i ?j ((K + 16 - 1) div 16 * 16)"
    using assms(3,4,7) by (simp add: accs_after_def)
  moreover have "cell (int ?i) (int N) (int ?j) = Some (int (?i * N + ?j))" using True assms(1) by (intro cell_nat) auto
  moreover have "?i * N + ?j < length C" using True assms(5,6) cell_bound [of ?i M ?j N] by auto
  moreover have "(?i * N + ?j) div N = ?i \<and> (?i * N + ?j) mod N = ?j" using True by (intro cell_div_mod) simp
  ultimately show ?thesis
    unfolding gemm_store_def gemm_pos [OF assms(1-4)] Let_def
    using True write_one [of C "?i * N + ?j" "padded_at mac zero A B M N K"]
    by (simp add: padded_at_def gemm_cells_def tile_at_def kTile_def del: of_nat_add of_nat_mult)
qed

lemma gemm_tiled_kernel_eq:
  assumes "runs_all sch" "multipliable A B M N K" "length C = M * N"
    and "\<And>blk. length (fst (shared blk)) = 256 \<and> length (snd (shared blk)) = 256"
  shows "gemm_tiled_kernel mac zero sch shared ((M + 16 - 1) div 16, (N + 16 - 1) div 16) A B C (int M) (int N) (int K) =
    Some (map (padded_at mac zero A B M N K) [0..<M * N])"
  unfolding gemm_tiled_kernel_def fst_conv snd_conv
proof (rule kernel_result [OF assms(1,3)])
  fix blk and C' :: "'a list" assume b: "gemm_block_in M N blk" "length C' = M * N"
  let ?T = "(K + 16 - 1) div 16"
  obtain tiles accs where r: "loop (gemm_round mac zero sch A B (int M) (int N) (int K) blk) [0..<?T]
        (shared blk, replicate 256 zero) = Some (tiles, accs)" "accs_after mac zero A B M N K blk ?T accs"
    using gemm_rounds [OF assms(1,2) b(1), where tiles = "shared blk" and T = ?T] assms(4) by blast
  let ?thrs = "thread_order sch blk (2 * ?T) (grid_of kTile kTile)"
  have thrs: "set ?thrs = {..<16} \<times> {..<16}" by (simp add: runs_all_simps [OF assms(1)] kTile_def)
  have s: "loop (gemm_store accs (int M) (int N) blk) ?thrs C' =
      Some (writes (padded_at mac zero A B M N K) (\<Union>thr\<in>set ?thrs. gemm_cells M N blk thr) C')"
    by (rule loop_writes [where n = "M * N"]) (use gemm_store_writes [OF assms(2) b(1) _ _ _ _ r(2)] b(2) thrs in auto)
  have c: "cint (int K + int kTile) = Some (int (K + 16))" using cint_nat [of "K + 16"] assms(2) by (simp add: kTile_def)
  have T: "nat ((int (K + 16) - 1) div int kTile) = ?T"
  proof -
    have "(int (K + 16) - 1) div 16 = int ?T" by simp
    then show ?thesis by (simp only: kTile_def of_nat_numeral nat_int)
  qed
  have k: "kTile * kTile = 256" by (simp add: kTile_def)
  show "gemm_tiled_block mac zero sch shared A B (int M) (int N) (int K) blk C' =
      Some (writes (padded_at mac zero A B M N K) (\<Union>thr\<in>{..<16} \<times> {..<16}. gemm_cells M N blk thr) C')"
    unfolding gemm_tiled_block_def c Option.bind.bind_lunit T k r(1) snd_conv s thrs ..
qed

lemma gemm_launchable:
  assumes "0 < M" "0 < N" "M + 16 < 2 ^ 31" "N + 16 < 2 ^ 31"
  shows "launchable [int ((N + 16 - 1) div 16), int ((M + 16 - 1) div 16)] [int kTile, int kTile] 0 \<longleftrightarrow> M \<le> 1048560"
  using launchable_2d [of "int ((N + 16 - 1) div 16)" "int ((M + 16 - 1) div 16)" "int kTile" "int kTile"]
    tile_count [of N 16] tile_count [of M 16] tile_limit [of 16 M] assms
  by (simp add: kTile_def del: of_nat_div)

text \<open>
  Property C35. The two matrix product launchers write the same numbers, for every schedule, whatever shared memory
  held, and every shape of up to 1048560 rows whose index arithmetic fits \<open>int\<close>: the naive one the sums over \<open>k\<close> in
  increasing order, rounded step by step as the arithmetic does; the tiled one numbers that are the same element by element up
  to what adding a product of zeros may change (in IEEE arithmetic the sign of a zero, which a fused multiply-add can leave
  negative), and identical ones if \<open>K\<close> is a multiple of the tile edge. For more rows CUDA launches neither kernel: both
  launchers report \<open>cudaErrorInvalidConfiguration\<close> and leave the output alone, although they accepted the arguments.
\<close>

theorem gemm_kernels_agree:
  assumes "runs_all sch" "runs_all sch'" "driver_strict env" "padding_same mac zero same"
    and "\<forall>blk. length (fst (shared blk)) = 256 \<and> length (snd (shared blk)) = 256"
    and "M + 16 < 2 ^ 31 \<and> N + 16 < 2 ^ 31 \<and> K + 16 < 2 ^ 31" "M * K < 2 ^ 31 \<and> K * N < 2 ^ 31 \<and> M * N < 2 ^ 31"
    and "length A = M * K" "length B = K * N" "length C = M * N"
    and "naive = launch_gemm_naive mac zero env sch (Some A) (Some B) (Some C) (int M) (int N) (int K)"
    and "tiled = launch_gemm_tiled mac zero env sch' shared (Some A) (Some B) (Some C) (int M) (int N) (int K)"
  shows "if M \<le> 1048560 \<or> N = 0
    then naive = Some (cudaSuccess, Some (gemm_result mac zero A B M N K)) \<and>
      (\<exists>C'. tiled = Some (cudaSuccess, Some C') \<and> list_all2 same C' (gemm_result mac zero A B M N K) \<and>
         (16 dvd K \<longrightarrow> C' = gemm_result mac zero A B M N K))
    else naive = Some (cudaErrorInvalidConfiguration, Some C) \<and> tiled = Some (cudaErrorInvalidConfiguration, Some C)"
proof (cases "M = 0 \<or> N = 0")
  case True
  then show ?thesis
    using assms(10) by (auto simp: assms(11,12) launch_gemm_naive_def launch_gemm_tiled_def bad_gemm_args_def gemm_result_def)
next
  case False
  let ?x = "int ((N + 16 - 1) div 16)" and ?y = "int ((M + 16 - 1) div 16)"
  let ?P = "map (padded_at mac zero A B M N K) [0..<M * N]"
  have t: "tiles_for (int N) kTile = Some ?x" "tiles_for (int M) kTile = Some ?y"
    unfolding kTile_def using assms(6) by (intro tiles_for_eq; simp)+
  have m: "multipliable A B M N K" using assms by simp
  note n = gemm_naive_kernel_eq [OF assms(1) m assms(10), of mac zero]
  have t': "gemm_tiled_kernel mac zero sch' shared ((M + 16 - 1) div 16, (N + 16 - 1) div 16) A B C (int M) (int N) (int K) = Some ?P"
    by (rule gemm_tiled_kernel_eq [OF assms(2) m assms(10)]) (use assms(5) in auto)
  have launches: "naive = launch env [?x, ?y] [int kTile, int kTile] 0 (Some C) (Some (Some (gemm_result mac zero A B M N K)))"
    "tiled = launch env [?x, ?y] [int kTile, int kTile] 0 (Some C) (Some (Some ?P))"
    using False n t'
    by (simp_all add: assms(11,12) launch_gemm_naive_def launch_gemm_tiled_def bad_gemm_args_def t del: of_nat_div)
  have l: "launchable [?x, ?y] [int kTile, int kTile] 0 \<longleftrightarrow> M \<le> 1048560"
    using gemm_launchable [of M N] False assms(6) by simp
  have cells: "z div N < M \<and> z mod N < N" if "z < M * N" for z
    using that False by (simp add: less_mult_imp_div_less)
  have same: "list_all2 same ?P (gemm_result mac zero A B M N K)"
    using padded_same [OF assms(4) _ _ rounds_cover] cells
    by (auto simp: gemm_result_def list_all2_conv_all_nth padded_at_def)
  have equal: "?P = gemm_result mac zero A B M N K" if "16 dvd K"
  proof -
    have "(K + 16 - 1) div 16 * 16 = K" using that by (auto elim!: dvdE)
    then show ?thesis using cells by (simp add: gemm_result_def padded_at_def padded_upto_K)
  qed
  show ?thesis
  proof (cases "M \<le> 1048560")
    case True
    with l have "launchable [?x, ?y] [int kTile, int kTile] 0" by blast
    note e = launch_ok [OF conjunct1 [OF assms(3)] this]
    have "naive = Some (cudaSuccess, Some (gemm_result mac zero A B M N K))" "tiled = Some (cudaSuccess, Some ?P)"
      by (simp_all only: launches e option.map)
    then show ?thesis unfolding if_P [OF disjI1 [OF True]] using same equal by blast
  next
    case tall: False
    with l have "\<not> launchable [?x, ?y] [int kTile, int kTile] 0" by blast
    note e = launch_refused [OF assms(3) this]
    show ?thesis using tall False by (simp only: launches e if_False de_Morgan_disj simp_thms)
  qed
qed

text \<open>Where nothing is rounded both are the reference.\<close>

lemma gemm_exact:
  assumes "\<And>acc x y. f_of_d fp (d_add fp acc (d_mul fp (d_of_f fp x) (d_of_f fp y))) = mac (f_of_d fp acc) x y"
    and "f_of_d fp (d_zero fp) = zero" "length C = M * N"
  shows "cpu_gemm fp A B C M N K = gemm_result mac zero A B M N K"
proof -
  have "f_of_d fp (fold (\<lambda>k acc. d_add fp acc (d_mul fp (d_of_f fp (A ! (i * K + k))) (d_of_f fp (B ! (k * N + j))))) [0..<m] (d_zero fp)) =
      prod_upto mac zero A B N K i j m" for i j m
    by (induction m) (simp_all add: prod_upto_def assms(1,2))
  then show ?thesis using assms(3) by (simp add: gemm_writes gemm_result_def gemm_cell_def writes_all)
qed

text \<open>
  A fused multiply-add on sign and magnitude, in sixteenths, that rounds towards zero and has signed zeros: the product of
  \<open>-1/16\<close> and \<open>1/16\<close> underflows to a negative zero in the naive kernel, and the padding of the tiled one makes it positive.
\<close>

definition sm_value :: "bool \<times> nat \<Rightarrow> int" where
  "sm_value x = (if fst x then - int (snd x) else int (snd x))"

definition sm_fma :: "bool \<times> nat \<Rightarrow> bool \<times> nat \<Rightarrow> bool \<times> nat \<Rightarrow> bool \<times> nat" where
  "sm_fma acc x y =
     (let exact = 16 * sm_value acc + sm_value x * sm_value y
      in (if exact = 0 then fst acc \<and> fst x \<noteq> fst y else exact < 0, nat \<bar>exact\<bar> div 16))"

definition sm_same :: "bool \<times> nat \<Rightarrow> bool \<times> nat \<Rightarrow> bool" where
  "sm_same x y \<longleftrightarrow> sm_value x = sm_value y"

lemma sm_padding: "padding_same sm_fma (False, 0) sm_same"
  by (auto simp: padding_same_def sm_same_def sm_fma_def sm_value_def Let_def nat_mult_distrib nat_int)

theorem gemm_kernels_agree_witness:
  "launch_gemm_naive sm_fma (False, 0) ok_env backwards (Some [(True, 1)]) (Some [(False, 1)]) (Some [(False, 7)]) 1 1 1 =
      Some (cudaSuccess, Some [(True, 0)]) \<and>
    (\<exists>C'. launch_gemm_tiled sm_fma (False, 0) ok_env backwards (\<lambda>_. (replicate 256 (True, 9), replicate 256 (True, 9)))
        (Some [(True, 1)]) (Some [(False, 1)]) (Some [(False, 7)]) 1 1 1 = Some (cudaSuccess, Some C') \<and>
      list_all2 sm_same C' [(True, 0)])"
proof -
  have "gemm_result sm_fma (False, 0) [(True, 1)] [(False, 1)] 1 1 1 = [(True, 0)]" by code_simp
  then show ?thesis
    using gemm_kernels_agree [OF _ _ _ sm_padding _ _ _ _ _ _ refl refl, of backwards backwards ok_env
      "\<lambda>_. (replicate 256 (True, 9), replicate 256 (True, 9))" 1 1 1 "[(True, 1)]" "[(False, 1)]" "[(False, 7)]"]
    by auto
qed

end
