(* ===== verification/Cuda_Buffer.thy ===== *)
theory Cuda_Buffer
  imports Cuda_Kernels
begin

section \<open>Device buffers (cudatest/device_buffer.hpp)\<close>

text \<open>
  \<open>DeviceBuffer\<close> owns an allocation on the device. The state is the device memory, a map from addresses to allocated
  arrays (\<open>0\<close> is the null pointer), and the buffer objects that exist, a map from the program's variables. A call that
  throws is \<open>Inl\<close> of the message with the memory it leaves behind. The CUDA runtime is a parameter, \<open>runtime\<close>.
\<close>

type_synonym 'a heap = "nat \<Rightarrow> 'a list option"

record 'a runtime =
  malloc :: "'a heap \<Rightarrow> nat \<Rightarrow> cuda_error \<times> nat"
  fresh :: "nat \<Rightarrow> 'a list"
  memcpy_h2d :: "'a heap \<Rightarrow> cuda_error"
  memcpy_d2h :: "'a heap \<Rightarrow> cuda_error"
  memset_answer :: "'a heap \<Rightarrow> cuda_error"
  of_byte :: "int \<Rightarrow> 'a"
  error_name :: "cuda_error \<Rightarrow> string"
  error_string :: "cuda_error \<Rightarrow> string"

text \<open>An allocation that succeeds is new, not null, and has the size asked for.\<close>

definition malloc_ok :: "'a runtime \<Rightarrow> bool" where
  "malloc_ok rt \<longleftrightarrow> (\<forall>h n p. malloc rt h n = (cudaSuccess, p) \<longrightarrow> p \<noteq> 0 \<and> h p = None) \<and> (\<forall>n. length (fresh rt n) = n)"

definition cuda_check :: "'a runtime \<Rightarrow> cuda_error \<Rightarrow> string \<Rightarrow> string option" where
  "cuda_check rt e what =
     (if e \<noteq> cudaSuccess then Some (what @ '': '' @ error_name rt e @ '' ('' @ error_string rt e @ '')'') else None)"

record buffer =
  buf_p :: nat
  buf_n :: nat

definition empty_buffer :: buffer where
  "empty_buffer = \<lparr>buf_p = 0, buf_n = 0\<rparr>"

definition new_buffer :: "'a runtime \<Rightarrow> nat \<Rightarrow> 'a heap \<Rightarrow> (string + buffer) \<times> 'a heap" where
  "new_buffer rt n h =
     (if n = 0 then (Inr empty_buffer, h)
      else case malloc rt h n of (e, p) \<Rightarrow>
        (case cuda_check rt e ''cudaMalloc'' of Some msg \<Rightarrow> (Inl msg, h)
         | None \<Rightarrow> (Inr \<lparr>buf_p = p, buf_n = n\<rparr>, h(p \<mapsto> fresh rt n))))"

definition reset :: "buffer \<Rightarrow> 'a heap \<Rightarrow> buffer \<times> 'a heap" where
  "reset b h = (empty_buffer, if buf_p b \<noteq> 0 then h(buf_p b := None) else h)"

definition upload :: "'a runtime \<Rightarrow> buffer \<Rightarrow> 'a list \<Rightarrow> 'a heap \<Rightarrow> (string + unit) \<times> 'a heap" where
  "upload rt b host h =
     (if length host > buf_n b then (Inl ''upload larger than allocation'', h)
      else if host = [] then (Inr (), h)
      else case cuda_check rt (memcpy_h2d rt h) ''H2D'' of Some msg \<Rightarrow> (Inl msg, h)
        | None \<Rightarrow> (Inr (), h(buf_p b := map_option (\<lambda>old. host @ drop (length host) old) (h (buf_p b)))))"

text \<open>The constructor from a vector: when \<open>upload\<close> throws the object has been constructed, so it is destroyed.\<close>

definition buffer_of :: "'a runtime \<Rightarrow> 'a list \<Rightarrow> 'a heap \<Rightarrow> (string + buffer) \<times> 'a heap" where
  "buffer_of rt host h =
     (case new_buffer rt (length host) h of (Inl msg, h) \<Rightarrow> (Inl msg, h)
      | (Inr b, h) \<Rightarrow> (case upload rt b host h of (Inl msg, h) \<Rightarrow> (Inl msg, snd (reset b h)) | (Inr _, h) \<Rightarrow> (Inr b, h)))"

definition download :: "'a runtime \<Rightarrow> buffer \<Rightarrow> 'a heap \<Rightarrow> string + 'a list option" where
  "download rt b h =
     (if buf_n b = 0 then Inr (Some [])
      else case cuda_check rt (memcpy_d2h rt h) ''D2H'' of Some msg \<Rightarrow> Inl msg
        | None \<Rightarrow> Inr (map_option (take (buf_n b)) (h (buf_p b))))"

definition fill_bytes :: "'a runtime \<Rightarrow> buffer \<Rightarrow> int \<Rightarrow> 'a heap \<Rightarrow> (string + unit) \<times> 'a heap" where
  "fill_bytes rt b value h =
     (if buf_n b = 0 then (Inr (), h)
      else case cuda_check rt (memset_answer rt h) ''cudaMemset'' of Some msg \<Rightarrow> (Inl msg, h)
        | None \<Rightarrow> (Inr (), h(buf_p b := map_option (\<lambda>old. replicate (buf_n b) (of_byte rt value) @ drop (buf_n b) old) (h (buf_p b)))))"

subsection \<open>Programs that use buffers\<close>

record ('v, 'a) buf_state =
  heap :: "'a heap"
  vars :: "'v \<Rightarrow> buffer option"

datatype ('v, 'a) buf_op =
    Construct 'v nat
  | From_Vector 'v "'a list"
  | Move_Construct 'v 'v
  | Move_Assign 'v 'v
  | Upload 'v "'a list"
  | Fill 'v int
  | Destroy 'v

text \<open>A variable is declared once, used while it exists, and destroyed at the end of its scope.\<close>

fun legal :: "('v, 'a) buf_op \<Rightarrow> ('v, 'a) buf_state \<Rightarrow> bool" where
  "legal (Construct v n) s \<longleftrightarrow> vars s v = None"
| "legal (From_Vector v host) s \<longleftrightarrow> vars s v = None"
| "legal (Move_Construct v w) s \<longleftrightarrow> vars s v = None \<and> vars s w \<noteq> None"
| "legal (Move_Assign v w) s \<longleftrightarrow> vars s v \<noteq> None \<and> vars s w \<noteq> None"
| "legal (Upload v host) s \<longleftrightarrow> vars s v \<noteq> None"
| "legal (Fill v x) s \<longleftrightarrow> vars s v \<noteq> None"
| "legal (Destroy v) s \<longleftrightarrow> vars s v \<noteq> None"

fun buf_step :: "'a runtime \<Rightarrow> ('v, 'a) buf_op \<Rightarrow> ('v, 'a) buf_state \<Rightarrow> ('v, 'a) buf_state" where
  "buf_step rt (Construct v n) s =
     (case new_buffer rt n (heap s) of (Inl _, h) \<Rightarrow> s\<lparr>heap := h\<rparr> | (Inr b, h) \<Rightarrow> \<lparr>heap = h, vars = (vars s)(v \<mapsto> b)\<rparr>)"
| "buf_step rt (From_Vector v host) s =
     (case buffer_of rt host (heap s) of (Inl _, h) \<Rightarrow> s\<lparr>heap := h\<rparr> | (Inr b, h) \<Rightarrow> \<lparr>heap = h, vars = (vars s)(v \<mapsto> b)\<rparr>)"
| "buf_step rt (Move_Construct v w) s =
     s\<lparr>vars := (vars s)(w \<mapsto> empty_buffer, v \<mapsto> the (vars s w))\<rparr>"
| "buf_step rt (Move_Assign v w) s =
     (if v = w then s
      else case reset (the (vars s v)) (heap s) of (_, h) \<Rightarrow>
        \<lparr>heap = h, vars = (vars s)(v \<mapsto> the (vars s w), w \<mapsto> empty_buffer)\<rparr>)"
| "buf_step rt (Upload v host) s = s\<lparr>heap := snd (upload rt (the (vars s v)) host (heap s))\<rparr>"
| "buf_step rt (Fill v x) s = s\<lparr>heap := snd (fill_bytes rt (the (vars s v)) x (heap s))\<rparr>"
| "buf_step rt (Destroy v) s = (case reset (the (vars s v)) (heap s) of (_, h) \<Rightarrow> \<lparr>heap = h, vars = (vars s)(v := None)\<rparr>)"

definition no_buffers :: "('v, 'a) buf_state" where
  "no_buffers = \<lparr>heap = (\<lambda>_. None), vars = (\<lambda>_. None)\<rparr>"

definition run_bufs :: "'a runtime \<Rightarrow> ('v, 'a) buf_op list \<Rightarrow> ('v, 'a) buf_state" where
  "run_bufs rt ops = fold (\<lambda>op s. if legal op s then buf_step rt op s else s) ops no_buffers"

subsection \<open>Ownership\<close>

text \<open>Every allocation belongs to exactly one buffer, and every buffer that is not empty owns an allocation of its size.\<close>

definition backed :: "'a heap \<Rightarrow> buffer \<Rightarrow> bool" where
  "backed h b \<longleftrightarrow> (if buf_n b = 0 then buf_p b = 0 else buf_p b \<noteq> 0 \<and> map_option length (h (buf_p b)) = Some (buf_n b))"

definition owned :: "('v, 'a) buf_state \<Rightarrow> bool" where
  "owned s \<longleftrightarrow> heap s 0 = None \<and> (\<forall>v b. vars s v = Some b \<longrightarrow> backed (heap s) b) \<and>
     (\<forall>v w b c. vars s v = Some b \<longrightarrow> vars s w = Some c \<longrightarrow> buf_p b = buf_p c \<longrightarrow> buf_p b \<noteq> 0 \<longrightarrow> v = w) \<and>
     (\<forall>p. heap s p \<noteq> None \<longrightarrow> (\<exists>v b. vars s v = Some b \<and> buf_p b = p))"

abbreviation bufs :: "'a heap \<Rightarrow> ('v \<Rightarrow> buffer option) \<Rightarrow> ('v, 'a) buf_state" where
  "bufs h vs \<equiv> \<lparr>heap = h, vars = vs\<rparr>"

lemma ownedI:
  assumes "h 0 = None" "\<And>v b. vs v = Some b \<Longrightarrow> backed h b"
    and "\<And>v w b c. vs v = Some b \<Longrightarrow> vs w = Some c \<Longrightarrow> buf_p b = buf_p c \<Longrightarrow> buf_p b \<noteq> 0 \<Longrightarrow> v = w"
    and "\<And>p xs. h p = Some xs \<Longrightarrow> \<exists>v b. vs v = Some b \<and> buf_p b = p"
  shows "owned (bufs h vs)"
  unfolding owned_def using assms by simp blast

lemma ownedD:
  assumes "owned (bufs h vs)"
  shows "h 0 = None" "vs v = Some b \<Longrightarrow> backed h b"
    and "vs v = Some b \<Longrightarrow> vs w = Some c \<Longrightarrow> buf_p b = buf_p c \<Longrightarrow> buf_p b \<noteq> 0 \<Longrightarrow> v = w"
    and "h p = Some xs \<Longrightarrow> \<exists>v b. vs v = Some b \<and> buf_p b = p"
proof -
  show "h 0 = None" using assms by (simp add: owned_def)
  show "vs v = Some b \<Longrightarrow> backed h b" using assms by (simp add: owned_def)
  show "vs v = Some b \<Longrightarrow> vs w = Some c \<Longrightarrow> buf_p b = buf_p c \<Longrightarrow> buf_p b \<noteq> 0 \<Longrightarrow> v = w"
    using assms unfolding owned_def buf_state.select_convs by blast
  show "h p = Some xs \<Longrightarrow> \<exists>v b. vs v = Some b \<and> buf_p b = p"
    using assms unfolding owned_def buf_state.select_convs by blast
qed

lemma backed_empty [simp]: "backed h empty_buffer" "buf_p empty_buffer = 0"
  by (simp_all add: backed_def empty_buffer_def)

lemma backed_live: "backed h b \<Longrightarrow> buf_p b \<noteq> 0 \<Longrightarrow> h (buf_p b) \<noteq> None"
  by (auto simp: backed_def split: if_splits)

lemma backed_other: "backed h b \<Longrightarrow> buf_p b \<noteq> p \<Longrightarrow> backed (h(p := x)) b"
  by (simp add: backed_def)

lemma owned_add:
  assumes "owned (bufs h vs)" "vs v = None" "h p = None" "p \<noteq> 0" "length xs = n" "0 < n"
  shows "owned (bufs (h(p \<mapsto> xs)) (vs(v \<mapsto> \<lparr>buf_p = p, buf_n = n\<rparr>)))"
proof (rule ownedI)
  have new: "buf_p c \<noteq> p" if "vs w = Some c" for w c
    using ownedD(2) [OF assms(1) that] backed_live [of h c] assms(3,4) by auto
  show "(h(p \<mapsto> xs)) 0 = None" using assms(4) ownedD(1) [OF assms(1)] by simp
  show "backed (h(p \<mapsto> xs)) b" if "(vs(v \<mapsto> \<lparr>buf_p = p, buf_n = n\<rparr>)) w = Some b" for w b
  proof (cases "w = v")
    case True
    then show ?thesis using that assms by (auto simp: backed_def)
  next
    case False
    then show ?thesis using that new [of w b] ownedD(2) [OF assms(1), of w b] by (auto intro: backed_other)
  qed
  show "w = u" if "(vs(v \<mapsto> \<lparr>buf_p = p, buf_n = n\<rparr>)) w = Some b" "(vs(v \<mapsto> \<lparr>buf_p = p, buf_n = n\<rparr>)) u = Some c"
    "buf_p b = buf_p c" "buf_p b \<noteq> 0" for w u b c
    using that new [of w b] new [of u c] ownedD(3) [OF assms(1), of w b u c] by (auto split: if_splits)
  show "\<exists>w b. (vs(v \<mapsto> \<lparr>buf_p = p, buf_n = n\<rparr>)) w = Some b \<and> buf_p b = q" if q: "(h(p \<mapsto> xs)) q = Some ys" for q ys
  proof (cases "q = p")
    case False
    then have "h q = Some ys" using q by simp
    then obtain w b where "vs w = Some b" "buf_p b = q" using ownedD(4) [OF assms(1)] by blast
    then show ?thesis using assms(2) by (intro exI [of _ w] exI [of _ b]) auto
  qed auto
qed

lemma owned_add_empty: "owned (bufs h vs) \<Longrightarrow> vs v = None \<Longrightarrow> owned (bufs h (vs(v \<mapsto> empty_buffer)))"
proof (rule ownedI)
  assume o: "owned (bufs h vs)" and v: "vs v = None"
  show "h 0 = None" by (rule ownedD(1) [OF o])
  show "backed h b" if "(vs(v \<mapsto> empty_buffer)) w = Some b" for w b
    using that ownedD(2) [OF o, of w b] by (cases "w = v") auto
  show "w = u" if "(vs(v \<mapsto> empty_buffer)) w = Some b" "(vs(v \<mapsto> empty_buffer)) u = Some c"
    "buf_p b = buf_p c" "buf_p b \<noteq> 0" for w u b c
    using that ownedD(3) [OF o, of w b u c] by (auto split: if_splits)
  show "\<exists>w b. (vs(v \<mapsto> empty_buffer)) w = Some b \<and> buf_p b = q" if h: "h q = Some ys" for q ys
  proof -
    obtain w b where "vs w = Some b" "buf_p b = q" using ownedD(4) [OF o h] by blast
    then show ?thesis using v by (intro exI [of _ w] exI [of _ b]) auto
  qed
qed

lemma owned_destroy:
  assumes "owned (bufs h vs)" "vs v = Some b"
  shows "owned (bufs (snd (reset b h)) (vs(v := None)))"
proof (rule ownedI)
  let ?h = "snd (reset b h)"
  have h: "?h q = (if q = buf_p b then None else h q)" for q
    using ownedD(1) [OF assms(1)] by (simp add: reset_def)
  show "?h 0 = None" using ownedD(1) [OF assms(1)] by (simp add: h)
  show "backed ?h c" if "(vs(v := None)) w = Some c" for w c
  proof -
    have w: "w \<noteq> v" "vs w = Some c" using that by (auto split: if_splits)
    have "backed h c" by (rule ownedD(2) [OF assms(1) w(2)])
    moreover have "buf_p c \<noteq> 0 \<Longrightarrow> buf_p c \<noteq> buf_p b" using ownedD(3) [OF assms(1) w(2) assms(2)] w(1) by auto
    ultimately show ?thesis by (cases "buf_p c = 0") (auto simp: backed_def h split: if_splits)
  qed
  show "w = u" if "(vs(v := None)) w = Some c" "(vs(v := None)) u = Some d" "buf_p c = buf_p d" "buf_p c \<noteq> 0" for w u c d
    using that ownedD(3) [OF assms(1), of w c u d] by (auto split: if_splits)
  show "\<exists>w c. (vs(v := None)) w = Some c \<and> buf_p c = q" if "?h q = Some ys" for q ys
  proof -
    have q: "q \<noteq> buf_p b" "h q = Some ys" using that by (auto simp: h split: if_splits)
    then obtain w c where "vs w = Some c" "buf_p c = q" using ownedD(4) [OF assms(1)] by blast
    then show ?thesis using q assms(2) by (intro exI [of _ w] exI [of _ c]) auto
  qed
qed

lemma owned_move:
  assumes "owned (bufs h vs)" "vs v = None" "vs w = Some b"
  shows "owned (bufs h (vs(w \<mapsto> empty_buffer, v \<mapsto> b)))"
proof (rule ownedI)
  let ?vs = "vs(w \<mapsto> empty_buffer, v \<mapsto> b)"
  have vw: "v \<noteq> w" using assms(2,3) by auto
  show "h 0 = None" by (rule ownedD(1) [OF assms(1)])
  show "backed h c" if "?vs u = Some c" for u c
    using that ownedD(2) [OF assms(1), of u c] ownedD(2) [OF assms(1,3)] by (auto split: if_splits)
  show "u = x" if "?vs u = Some c" "?vs x = Some d" "buf_p c = buf_p d" "buf_p c \<noteq> 0" for u x c d
    using that ownedD(3) [OF assms(1), of u c x d] ownedD(3) [OF assms(1) assms(3), of x d]
      ownedD(3) [OF assms(1) _ assms(3), of u c] by (auto split: if_splits)
  show "\<exists>u c. ?vs u = Some c \<and> buf_p c = q" if q: "h q = Some ys" for q ys
  proof -
    obtain u c where u: "vs u = Some c" "buf_p c = q" using q ownedD(4) [OF assms(1)] by blast
    show ?thesis
    proof (cases "u = w")
      case True
      then show ?thesis using u assms(3) by (intro exI [of _ v] exI [of _ c]) simp
    next
      case False
      then show ?thesis using u assms(2) by (intro exI [of _ u] exI [of _ c]) auto
    qed
  qed
qed

lemma owned_write:
  assumes "owned (bufs h vs)" "map_option length x = map_option length (h p)"
  shows "owned (bufs (h(p := x)) vs)"
proof (rule ownedI)
  have n: "(h(p := x)) q = None \<longleftrightarrow> h q = None" for q using assms(2) by (metis fun_upd_apply map_option_is_None)
  show "(h(p := x)) 0 = None" using n [of 0] ownedD(1) [OF assms(1)] by (simp del: fun_upd_apply)
  show "backed (h(p := x)) b" if "vs v = Some b" for v b
    using ownedD(2) [OF assms(1) that] assms(2) by (auto simp: backed_def split: if_splits)
  show "v = w" if "vs v = Some b" "vs w = Some c" "buf_p b = buf_p c" "buf_p b \<noteq> 0" for v w b c
    using ownedD(3) [OF assms(1)] that by blast
  show "\<exists>v b. vs v = Some b \<and> buf_p b = q" if "(h(p := x)) q = Some ys" for q ys
    using that n [of q] ownedD(4) [OF assms(1), of q] by auto
qed

lemma new_buffer_cases:
  assumes "malloc_ok rt"
  obtains (Fail) msg where "new_buffer rt n h = (Inl msg, h)"
  | (Empty) "n = 0" "new_buffer rt n h = (Inr empty_buffer, h)"
  | (New) p where "0 < n" "p \<noteq> 0" "h p = None" "new_buffer rt n h = (Inr \<lparr>buf_p = p, buf_n = n\<rparr>, h(p \<mapsto> fresh rt n))"
proof (cases "n = 0")
  case True
  then show thesis using Empty by (simp add: new_buffer_def)
next
  case n: False
  obtain e p where m: "malloc rt h n = (e, p)" by (cases "malloc rt h n")
  show thesis
  proof (cases "e = cudaSuccess")
    case True
    then have "p \<noteq> 0" "h p = None" using assms m by (auto simp: malloc_ok_def)
    then show thesis using New [of p] n m True by (simp add: new_buffer_def cuda_check_def)
  next
    case False
    then show thesis using Fail n m by (simp add: new_buffer_def cuda_check_def)
  qed
qed

lemma owned_construct:
  assumes "malloc_ok rt" "owned (bufs h vs)" "vs v = None"
  shows "case new_buffer rt n h of (Inl _, h') \<Rightarrow> h' = h | (Inr b, h') \<Rightarrow> owned (bufs h' (vs(v \<mapsto> b))) \<and> buf_n b = n"
  using assms(1)
proof (cases rule: new_buffer_cases [where n = n and h = h])
  case (New p)
  then show ?thesis using owned_add [OF assms(2,3)] assms(1) by (simp add: malloc_ok_def)
qed (use owned_add_empty [OF assms(2,3)] in \<open>simp_all add: empty_buffer_def\<close>)

lemma upload_heap:
  assumes "upload rt b host h = (r, h')"
  shows "h' = h \<or> (length host \<le> buf_n b \<and> h' = h(buf_p b := map_option (\<lambda>old. host @ drop (length host) old) (h (buf_p b))))"
  using assms by (auto simp: upload_def split: if_splits option.splits)

lemma owned_upload:
  assumes "owned (bufs h vs)" "vs v = Some b"
  shows "owned (bufs (snd (upload rt b host h)) vs)"
proof -
  obtain r h' where u: "upload rt b host h = (r, h')" by fastforce
  from upload_heap [OF u] show ?thesis
  proof
    assume h': "length host \<le> buf_n b \<and> h' = h(buf_p b := map_option (\<lambda>old. host @ drop (length host) old) (h (buf_p b)))"
    have "map_option length (map_option (\<lambda>old. host @ drop (length host) old) (h (buf_p b))) = map_option length (h (buf_p b))"
      using ownedD(1) [OF assms(1)] ownedD(2) [OF assms] h' by (cases "h (buf_p b)") (auto simp: backed_def split: if_splits)
    then show ?thesis using owned_write [OF assms(1)] h' u by simp
  qed (simp add: u assms(1))
qed

lemma owned_fill:
  assumes "owned (bufs h vs)" "vs v = Some b"
  shows "owned (bufs (snd (fill_bytes rt b x h)) vs)"
proof -
  let ?new = "map_option (\<lambda>old. replicate (buf_n b) (of_byte rt x) @ drop (buf_n b) old) (h (buf_p b))"
  have "map_option length ?new = map_option length (h (buf_p b))"
    using ownedD(1) [OF assms(1)] ownedD(2) [OF assms] by (cases "h (buf_p b)") (auto simp: backed_def split: if_splits)
  then show ?thesis using owned_write [OF assms(1)] assms(1) by (simp add: fill_bytes_def split: option.split)
qed

text \<open>The constructor from a vector, its clean-up when the copy fails included.\<close>

lemma owned_from_vector:
  assumes "malloc_ok rt" "owned (bufs h vs)" "vs v = None"
  shows "case buffer_of rt host h of (Inl _, h') \<Rightarrow> h' = h | (Inr b, h') \<Rightarrow> owned (bufs h' (vs(v \<mapsto> b)))"
  using assms(1)
proof (cases rule: new_buffer_cases [where n = "length host" and h = h])
  case (New p)
  let ?b = "\<lparr>buf_p = p, buf_n = length host\<rparr>" and ?h = "h(p \<mapsto> fresh rt (length host))"
  have o: "owned (bufs ?h (vs(v \<mapsto> ?b)))"
    using owned_construct [OF assms, of "length host"] New by simp
  obtain r h' where u: "upload rt ?b host ?h = (r, h')" by fastforce
  have "owned (bufs h' (vs(v \<mapsto> ?b)))" using owned_upload [OF o, of v ?b rt host] u by simp
  moreover have "snd (reset ?b h') = h" if "r = Inl msg" for msg
  proof -
    have "h' = ?h" using u that by (auto simp: upload_def split: if_splits option.splits)
    then show ?thesis using New by (auto simp: reset_def)
  qed
  ultimately show ?thesis using New u by (auto simp: buffer_of_def split: sum.split)
qed (use owned_add_empty [OF assms(2,3)] in \<open>auto simp: buffer_of_def upload_def\<close>)

lemma owned_step:
  assumes "malloc_ok rt" "owned s" "legal op s"
  shows "owned (buf_step rt op s)"
proof -
  obtain h vs where s: "s = bufs h vs" by (cases s)
  note o = assms(2) [unfolded s]
  show ?thesis
  proof (cases op)
    case (Construct v n)
    then show ?thesis using owned_construct [OF assms(1) o, of v n] assms(3) o by (auto simp: s split: sum.split prod.split)
  next
    case (From_Vector v host)
    then show ?thesis using owned_from_vector [OF assms(1) o, of v host] assms(3) o by (auto simp: s split: sum.split prod.split)
  next
    case (Move_Construct v w)
    then show ?thesis using owned_move [OF o, of v w] assms(3) by (auto simp: s)
  next
    case (Move_Assign v w)
    then obtain b c where bc: "vs v = Some b" "vs w = Some c" using assms(3) by (auto simp: s)
    have "owned (bufs (snd (reset b h)) (vs(v := None, w \<mapsto> empty_buffer, v \<mapsto> c)))" if "v \<noteq> w"
      using owned_move [OF owned_destroy [OF o bc(1)], of v w c] bc(2) that by simp
    then show ?thesis using Move_Assign bc o by (auto simp: s fun_upd_twist split: prod.split)
  next
    case (Upload v host)
    then show ?thesis using owned_upload [OF o] assms(3) by (auto simp: s)
  next
    case (Fill v x)
    then show ?thesis using owned_fill [OF o] assms(3) by (auto simp: s)
  next
    case (Destroy v)
    then show ?thesis using owned_destroy [OF o, of v] assms(3) by (auto simp: s split_beta)
  qed
qed

lemma run_bufs_owned: "malloc_ok rt \<Longrightarrow> owned (run_bufs rt ops)"
proof -
  assume m: "malloc_ok rt"
  have "owned (fold (\<lambda>op s. if legal op s then buf_step rt op s else s) ops s)" if "owned s" for s :: "('b, 'a) buf_state"
    using that owned_step [OF m] by (induction ops arbitrary: s) auto
  moreover have "owned (no_buffers :: ('b, 'a) buf_state)" by (simp add: no_buffers_def owned_def)
  ultimately show ?thesis by (simp add: run_bufs_def)
qed

text \<open>
  Property C40. Whatever a program does with buffers, failing calls included, every allocation on the device has one
  owner: no pointer is freed twice or used after it was freed, and when the last buffer is gone nothing is allocated.
\<close>

theorem device_memory_owned:
  assumes "malloc_ok rt"
  shows "owned (run_bufs rt ops) \<and> (vars (run_bufs rt ops) = (\<lambda>_. None) \<longrightarrow> heap (run_bufs rt ops) = (\<lambda>_. None))"
proof -
  have o: "owned (run_bufs rt ops)" by (rule run_bufs_owned [OF assms])
  then show ?thesis unfolding owned_def by (auto simp: fun_eq_iff)
qed

text \<open>A device with two addresses.\<close>

definition small_device :: "int runtime" where
  "small_device = \<lparr>malloc = (\<lambda>h n. if h 1 = None then (cudaSuccess, 1) else if h 2 = None then (cudaSuccess, 2) else (cudaErrorOther 2, 0)),
     fresh = (\<lambda>n. replicate n 0), memcpy_h2d = (\<lambda>_. cudaSuccess), memcpy_d2h = (\<lambda>_. cudaSuccess),
     memset_answer = (\<lambda>_. cudaSuccess), of_byte = id, error_name = (\<lambda>_. []), error_string = (\<lambda>_. [])\<rparr>"

lemma small_device_ok: "malloc_ok small_device"
  by (simp add: malloc_ok_def small_device_def)

theorem device_memory_owned_witness:
  "heap (run_bufs small_device [Construct ''a'' 2, From_Vector ''b'' [5, 6, 7], Construct ''c'' 4, Move_Assign ''a'' ''b'',
     Upload ''a'' [1], Destroy ''b'', Destroy ''a'']) = (\<lambda>_. None)"
proof -
  let ?ops = "[Construct ''a'' 2, From_Vector ''b'' [5, 6, 7], Construct ''c'' 4, Move_Assign ''a'' ''b'',
     Upload ''a'' [1], Destroy ''b'', Destroy ''a'']"
  have "vars (run_bufs small_device ?ops) = (\<lambda>_. None)"
    by (simp add: run_bufs_def no_buffers_def new_buffer_def buffer_of_def upload_def reset_def cuda_check_def small_device_def
        empty_buffer_def)
  then show ?thesis using device_memory_owned [OF small_device_ok, of ?ops] by simp
qed

text \<open>What a vector puts on the device comes back unchanged.\<close>

lemma buffer_round_trip:
  assumes "malloc_ok rt" "buffer_of rt host h = (Inr b, h')" "memcpy_d2h rt h' = cudaSuccess"
  shows "download rt b h' = Inr (Some host)"
  using assms(1)
proof (cases rule: new_buffer_cases [where n = "length host" and h = h])
  case (New p)
  then have "buf_n b = length host" "h' (buf_p b) = Some host"
    using assms(1,2) by (auto simp: buffer_of_def upload_def malloc_ok_def split: option.splits)
  then show ?thesis using New assms(3) by (simp add: download_def cuda_check_def)
qed (use assms(2) in \<open>auto simp: buffer_of_def upload_def download_def empty_buffer_def\<close>)

end
