(* ===== verification/Cuda_Fixture.thy ===== *)
theory Cuda_Fixture
  imports Cuda_Kernels
begin

section \<open>The fixture of the GPU tests (cudatest/testing.hpp)\<close>

text \<open>
  What happens before every GPU test: it runs, is skipped, or fails. The environment variable and the answers of the
  CUDA runtime are parameters.
\<close>

record gpu_host =
  require_var :: "string option"
  device_count :: "cuda_error \<times> int"
  set_device_result :: cuda_error
  gpu_error_string :: "cuda_error \<Rightarrow> string"
  gpu_error_name :: "cuda_error \<Rightarrow> string"

definition require_gpu :: "gpu_host \<Rightarrow> bool" where
  "require_gpu g = (case require_var g of None \<Rightarrow> False | Some v \<Rightarrow> v \<noteq> [] \<and> v \<noteq> ''0'')"

definition gpu_unavailable_reason :: "gpu_host \<Rightarrow> string" where
  "gpu_unavailable_reason g =
     (if fst (device_count g) \<noteq> cudaSuccess
      then ''cudaGetDeviceCount failed: '' @ gpu_error_string g (fst (device_count g))
      else if snd (device_count g) = 0 then ''no CUDA devices found'' else [])"

datatype set_up_result = Set_Up | Set_Up_Skipped string | Set_Up_Failed string

definition fixture_set_up :: "gpu_host \<Rightarrow> set_up_result" where
  "fixture_set_up g =
     (let why = gpu_unavailable_reason g
      in if why \<noteq> []
         then if require_gpu g
              then Set_Up_Failed (''CUDATEST_REQUIRE_GPU is set but no GPU is usable: '' @ why)
              else Set_Up_Skipped why
         else if set_device_result g \<noteq> cudaSuccess then Set_Up_Failed [] else Set_Up)"

text \<open>With \<open>CUDATEST_REQUIRE_GPU\<close> no test is skipped, and a test that runs has a device.\<close>

lemma fixture_verdict:
  "(require_gpu g \<longrightarrow> (\<forall>why. fixture_set_up g \<noteq> Set_Up_Skipped why)) \<and>
   (fixture_set_up g = Set_Up \<longleftrightarrow> fst (device_count g) = cudaSuccess \<and> snd (device_count g) \<noteq> 0 \<and> set_device_result g = cudaSuccess)"
  by (auto simp: fixture_set_up_def Let_def gpu_unavailable_reason_def)

text \<open>
  The error the runtime has recorded: a call that fails records its code, \<open>cudaGetLastError\<close> clears it. After a failed
  \<open>cudaGetDeviceCount\<close> and after a completed \<open>SetUp\<close> none is recorded.
\<close>

definition recorded_after :: "gpu_host \<Rightarrow> cuda_error \<Rightarrow> cuda_error" where
  "recorded_after g recorded =
     (if fst (device_count g) \<noteq> cudaSuccess then cudaSuccess
      else if snd (device_count g) = 0 then recorded
      else if set_device_result g \<noteq> cudaSuccess then set_device_result g
      else cudaSuccess)"

lemma test_starts_clean: "fixture_set_up g = Set_Up \<Longrightarrow> recorded_after g recorded = cudaSuccess"
  by (auto simp: fixture_set_up_def recorded_after_def Let_def gpu_unavailable_reason_def split: if_splits)

subsection \<open>Checked calls\<close>

text \<open>
  \<open>CUDA_ASSERT_OK\<close> ends the test function when the call fails, \<open>CUDA_EXPECT_OK\<close> goes on; both record a failure with the text of
  the call. A computation of a test returns whether it goes on, and the failures so far.
\<close>

definition cuda_failure :: "gpu_host \<Rightarrow> string \<Rightarrow> cuda_error \<Rightarrow> string" where
  "cuda_failure g call e = call @ '' -> '' @ gpu_error_name g e @ '': '' @ gpu_error_string g e"

definition cuda_assert_ok :: "gpu_host \<Rightarrow> string \<Rightarrow> cuda_error \<Rightarrow> string list \<Rightarrow> bool \<times> string list" where
  "cuda_assert_ok g call e failures =
     (if e = cudaSuccess then (True, failures) else (False, failures @ [cuda_failure g call e]))"

definition cuda_expect_ok :: "gpu_host \<Rightarrow> string \<Rightarrow> cuda_error \<Rightarrow> string list \<Rightarrow> bool \<times> string list" where
  "cuda_expect_ok g call e failures =
     (True, if e = cudaSuccess then failures else failures @ [cuda_failure g call e])"

text \<open>A sequence of asserted calls: the test goes on behind it exactly if all succeeded, and reports the first failure only.\<close>

fun assert_calls :: "gpu_host \<Rightarrow> (string \<times> cuda_error) list \<Rightarrow> string list \<Rightarrow> bool \<times> string list" where
  "assert_calls g [] failures = (True, failures)"
| "assert_calls g ((call, e) # cs) failures =
     (case cuda_assert_ok g call e failures of
        (True, fs) \<Rightarrow> assert_calls g cs fs
      | (False, fs) \<Rightarrow> (False, fs))"

lemma assert_calls_stop_at_first_failure:
  "assert_calls g cs failures =
     (case List.find (\<lambda>c. snd c \<noteq> cudaSuccess) cs of
        None \<Rightarrow> (True, failures)
      | Some (call, e) \<Rightarrow> (False, failures @ [cuda_failure g call e]))"
  by (induction g cs failures rule: assert_calls.induct) (auto simp: cuda_assert_ok_def)

lemma expected_calls_report_all:
  "snd (fold (\<lambda>(call, e) (on, fs). cuda_expect_ok g call e fs) cs (True, failures)) =
     failures @ map (\<lambda>(call, e). cuda_failure g call e) (filter (\<lambda>c. snd c \<noteq> cudaSuccess) cs)"
  by (induction cs arbitrary: failures) (auto simp: cuda_expect_ok_def)

end
